theory Spec2Isabelle
  imports Complex_Main "HOL-Library.Monad_Syntax"
begin

section \<open>Numbers, grids and the helpers of utility.h\<close>

text \<open>
  The program computes on C \<^verbatim>\<open>double\<close> and \<^verbatim>\<open>int\<close>. A \<^verbatim>\<open>double\<close> is modelled as a
  \<^typ>\<open>real\<close> (exact arithmetic: rounding, infinities and NaN are outside the model), an
  \<^verbatim>\<open>int\<close> as an \<^typ>\<open>int\<close> (the indices of the program stay far from the 32-bit limits).
  A \<^verbatim>\<open>double **\<close> is a grid: the store of doubles reached as \<^verbatim>\<open>d[i][j]\<close>. The index
  ranges a grid is allocated for are not part of the pointer: the functions receive them as
  \<^verbatim>\<open>width\<close> and \<^verbatim>\<open>height\<close> (or \<^verbatim>\<open>n\<close> and \<^verbatim>\<open>cn\<close>).
  A \<^verbatim>\<open>double ***\<close> (\<^verbatim>\<open>u\<close>, \<^verbatim>\<open>out\<close>, \<^verbatim>\<open>tmp\<close>, \<^verbatim>\<open>k[kn]\<close>) is an array of grids.

  A read outside an array is undefined behaviour in C. The kernels and \<^verbatim>\<open>maccormack\<close>
  read at indices computed from the sizes, which leave the array when a size is 1. Every
  function of advect.cpp that makes such a read, or calls one that does, is therefore
  given twice. Under the name of the source (\<open>linear_interpolate\<close>, ..., \<open>advect\<close>: section
  ``The program with every read checked'') it returns an \<^typ>\<open>'a option\<close>, and is
  \<^const>\<open>None\<close> when a read leaves the array. Under the name with the suffix \<open>_v\<close> it is
  the same text with the reads unchecked: the value the call computes when all its reads
  are in range. The lemmas \<open>linear_interpolate_value\<close>, ..., \<open>advect_value\<close> state when the
  first is \<^const>\<open>Some\<close> of the second. The other reads of the program are at the counters
  of a loop over the array, at indices clamped by \<^verbatim>\<open>u_ref\<close> or guarded by \<^verbatim>\<open>c_ref\<close>; they are
  in range from size 1 on.
\<close>

type_synonym grid = "int \<Rightarrow> int \<Rightarrow> real"

type_synonym field = "nat \<Rightarrow> grid"

text \<open>
  Modelled from the spec: the macros \<^verbatim>\<open>min\<close> and \<^verbatim>\<open>max\<close> of utility.h, which is not among
  the sources, are the smaller and the larger of their two arguments (the spec's clamps),
  HOL's \<^const>\<open>min\<close> and \<^const>\<open>max\<close>; an \<^verbatim>\<open>int\<close> argument beside a \<^verbatim>\<open>double\<close> one is converted
  to \<^verbatim>\<open>double\<close>.
\<close>

text \<open>The cast \<^verbatim>\<open>(int)x\<close> of a double truncates toward zero.\<close>

definition c_int :: "real \<Rightarrow> int" where
  "c_int x = (if 0 \<le> x then \<lfloor>x\<rfloor> else \<lceil>x\<rceil>)"

text \<open>
  Modelled from the spec: \<^verbatim>\<open>alloc2D\<close>, \<^verbatim>\<open>op2D\<close> and \<^verbatim>\<open>copy2D\<close> of utility.h, which is
  not among the sources (allocate a zeroed 2D array, compute
  \<^verbatim>\<open>out = a*src0 + b*src1\<close> elementwise, copy one array into another), on the
  \<open>n \<times> n\<close> block their last argument names.
\<close>

definition alloc2D :: "int \<Rightarrow> grid" where
  "alloc2D n = (\<lambda>i j. 0)"

definition op2D :: "grid \<Rightarrow> grid \<Rightarrow> grid \<Rightarrow> real \<Rightarrow> real \<Rightarrow> int \<Rightarrow> grid" where
  "op2D out src0 src1 a b n =
     (\<lambda>i j. if 0 \<le> i \<and> i < n \<and> 0 \<le> j \<and> j < n then a * src0 i j + b * src1 i j else out i j)"

definition copy2D :: "grid \<Rightarrow> grid \<Rightarrow> int \<Rightarrow> grid" where
  "copy2D dst src n =
     (\<lambda>i j. if 0 \<le> i \<and> i < n \<and> 0 \<le> j \<and> j < n then src i j else dst i j)"

section \<open>Interpolation kernels\<close>

text \<open>
  The function pointer \<^verbatim>\<open>interp_func\<close> is assigned one of three functions only; its
  value is the tag of the function it points to.
\<close>

datatype kernel = Linear | Spline | MonotonicCubic

definition monotonic_cubic_4 :: "real list \<Rightarrow> real \<Rightarrow> real" where
  "monotonic_cubic_4 a x =
     (let d0 = a ! 1 - a ! 0;
          d1 = a ! 2 - a ! 1;
          d2 = a ! 3 - a ! 2;
          p = (if d1 > 0 then 1 else - 1);
          d0 = (if d1 = 0 then 0 else p * \<bar>d0\<bar>);
          d2 = (if d1 = 0 then 0 else p * \<bar>d2\<bar>);
          a3 = d2 + d0;
          a2 = - d2 - 2 * d0;
          a1 = d1 + d0;
          a0 = a ! 1;
          y = a3 * x * x * x + a2 * x * x + a1 * x + a0
      in y)"

text \<open>
  The 4 x 4 neighbourhood \<^verbatim>\<open>f[4*j+i]\<close> gathered by both cubic kernels (the two loops are
  the same text in \<^verbatim>\<open>monotonic_cubic\<close> and \<^verbatim>\<open>spline_interpolate\<close>); \<open>x\<close> and \<open>y\<close> are the
  coordinates after the clamp.
\<close>

definition gather16_v :: "grid \<Rightarrow> int \<Rightarrow> int \<Rightarrow> real \<Rightarrow> real \<Rightarrow> real list" where
  "gather16_v d width height x y =
     concat (map (\<lambda>j. map (\<lambda>i.
       let h = c_int x - 1 + i;
           v = c_int y - 1 + j
       in d (min (width - 1) (max 0 h)) (min (height - 1) (max 0 v))) [0, 1, 2, 3]) [0, 1, 2, 3])"

definition monotonic_cubic_v :: "grid \<Rightarrow> int \<Rightarrow> int \<Rightarrow> real \<Rightarrow> real \<Rightarrow> real" where
  "monotonic_cubic_v d width height x0 y0 =
     (let x = max 0 (min (real_of_int width) x0);
          y = max 0 (min (real_of_int height) y0);
          f = gather16_v d width height x y;
          xn = map (\<lambda>j. monotonic_cubic_4 (drop (4 * j) f) (x - real_of_int (c_int x))) [0, 1, 2, 3]
      in monotonic_cubic_4 xn (y - real_of_int (c_int y)))"

definition spline_cubic :: "real list \<Rightarrow> real \<Rightarrow> real" where
  "spline_cubic a x =
     (let alpha1 = 3 * (a ! 2 - a ! 1) - 3 * (a ! 1 - a ! 0);
          alpha2 = 3 * (a ! 3 - a ! 2) - 3 * (a ! 2 - a ! 1);
          l0 = (1::real); mu0 = (0::real); z0 = (0::real);
          l1 = 4 - mu0; mu1 = 1 / l1; z1 = (alpha1 - z0) / l1;
          l2 = 4 - mu1; mu2 = 1 / l2; z2 = (alpha2 - z1) / l2;
          l3 = (1::real); z3 = (0::real); c3 = (0::real);
          c2 = z2 - mu2 * c3;
          b2 = a ! 3 - a ! 2 - (c3 + 2 * c2) / 3;
          d2 = (c3 - c2) / 3;
          c1 = z1 - mu1 * c2;
          b1 = a ! 2 - a ! 1 - (c2 + 2 * c1) / 3;
          d1 = (c2 - c1) / 3;
          c0 = z0 - mu0 * c1;
          b0 = a ! 1 - a ! 0 - (c1 + 2 * c0) / 3;
          d0 = (c1 - c0) / 3;
          minv = min (a ! 1) (a ! 2);
          maxv = max (a ! 2) (a ! 1)
      in min maxv (max minv (a ! 1 + b1 * x + c1 * x * x + d1 * x * x * x)))"

definition spline_interpolate_v :: "grid \<Rightarrow> int \<Rightarrow> int \<Rightarrow> real \<Rightarrow> real \<Rightarrow> real" where
  "spline_interpolate_v d width height x0 y0 =
     (let x = max 0 (min (real_of_int width) x0);
          y = max 0 (min (real_of_int height) y0);
          f = gather16_v d width height x y;
          xn = map (\<lambda>j. spline_cubic (drop (4 * j) f) (x - real_of_int (c_int x))) [0, 1, 2, 3]
      in spline_cubic xn (y - real_of_int (c_int y)))"

definition linear_interpolate_v :: "grid \<Rightarrow> int \<Rightarrow> int \<Rightarrow> real \<Rightarrow> real \<Rightarrow> real" where
  "linear_interpolate_v d width height x0 y0 =
     (let x = max 0 (min (real_of_int width) x0);
          y = max 0 (min (real_of_int height) y0);
          i = c_int (min x (real_of_int (width - 2)));
          j = c_int (min y (real_of_int (height - 2)))
      in ((real_of_int (i + 1) - x) * d i j + (x - real_of_int i) * d (i + 1) j)
           * (real_of_int (j + 1) - y)
         + ((real_of_int (i + 1) - x) * d i (j + 1) + (x - real_of_int i) * d (i + 1) (j + 1))
           * (y - real_of_int j))"

definition interp_v :: "kernel \<Rightarrow> grid \<Rightarrow> int \<Rightarrow> int \<Rightarrow> real \<Rightarrow> real \<Rightarrow> real" where
  "interp_v k = (case k of Linear \<Rightarrow> linear_interpolate_v | Spline \<Rightarrow> spline_interpolate_v
                 | MonotonicCubic \<Rightarrow> monotonic_cubic_v)"

section \<open>Spatial schemes\<close>

definition square :: "real \<Rightarrow> real" where
  "square x = x * x"

definition weno5calc :: "real \<Rightarrow> real \<Rightarrow> real \<Rightarrow> real \<Rightarrow> real \<Rightarrow> real" where
  "weno5calc v1 v2 v3 v4 v5 =
     (let e = 1 / 1000000;
          r1 = 13 * square (v1 - 2 * v2 + v3) / 12 + square (v1 - 4 * v2 + 3 * v3) / 4;
          r2 = 13 * square (v2 - 2 * v3 + v4) / 12 + square (v2 - v4) / 4;
          r3 = 13 * square (v3 - 2 * v4 + v5) / 12 + square (3 * v3 - 4 * v4 + v5) / 4;
          w1 = (1 / 10) / square (e + r1);
          w2 = (6 / 10) / square (e + r2);
          w3 = (3 / 10) / square (e + r3);
          s = w1 + w2 + w3;
          w1 = w1 / s;
          w2 = w2 / s;
          w3 = w3 / s
      in (w1 * (2 * v1 - 7 * v2 + 11 * v3) + w2 * (- v2 + 5 * v3 + 2 * v4)
          + w3 * (2 * v3 + 5 * v4 - v5)) / 6)"

text \<open>A C comparison used as a number, \<^verbatim>\<open>(u>0)\<close>, is 1 or 0: \<^const>\<open>of_bool\<close>.\<close>

definition weno5 :: "real \<Rightarrow> real \<Rightarrow> real \<Rightarrow> real \<Rightarrow> real \<Rightarrow> real \<Rightarrow> real \<Rightarrow> real \<Rightarrow> real" where
  "weno5 u d0 d1 d2 d3 d4 d5 d6 =
     - u * (of_bool (u > 0) * weno5calc (d1 - d0) (d2 - d1) (d3 - d2) (d4 - d3) (d5 - d4)
            + of_bool (u < 0) * weno5calc (d6 - d5) (d5 - d4) (d4 - d3) (d3 - d2) (d2 - d1))"

definition QUICK :: "real \<Rightarrow> real \<Rightarrow> real \<Rightarrow> real \<Rightarrow> real \<Rightarrow> real \<Rightarrow> real" where
  "QUICK u d0 d1 d2 d3 d4 =
     (let center = (1 / 2) * (d3 - d1)
      in - u * (center + of_bool (u > 0) * (d4 - 3 * d3 + 3 * d2 - d1) / 8
                + of_bool (u < 0) * (d3 - 3 * d2 + 3 * d1 - d0) / 8))"

text \<open>The \<^verbatim>\<open>switch\<close> of \<^verbatim>\<open>advdiff\<close> has no default case: any other method leaves \<^verbatim>\<open>dd = 0.0\<close>.\<close>

definition advdiff ::
  "int \<Rightarrow> real \<Rightarrow> real \<Rightarrow> real \<Rightarrow> real \<Rightarrow> real \<Rightarrow> real \<Rightarrow> real \<Rightarrow> real \<Rightarrow> real" where
  "advdiff method u d0 d1 d2 d3 d4 d5 d6 =
     (if method = 0 then - u * (of_bool (u > 0) * (d3 - d2) + of_bool (u < 0) * (d4 - d3))
      else if method = 1 then weno5 u d0 d1 d2 d3 d4 d5 d6
      else if method = 2 then QUICK u d1 d2 d3 d4 d5
      else 0)"

section \<open>Global references and the field samplers\<close>

text \<open>
  The file-level variables \<^verbatim>\<open>gu\<close>, \<^verbatim>\<open>gc\<close>, \<^verbatim>\<open>gn\<close>, \<^verbatim>\<open>gcn\<close> and the function pointer
  \<^verbatim>\<open>interp_func\<close>. \<^verbatim>\<open>gu\<close> and \<^verbatim>\<open>gc\<close> point to the caller's fields; \<^verbatim>\<open>advect\<close> writes the
  caller's fields only after its last derivative evaluation, so every read through them
  sees the fields as they were on entry.
\<close>

record globals =
  gu :: field
  gc :: grid
  gn :: int
  gcn :: int
  interp_func :: kernel

definition u_ref :: "globals \<Rightarrow> int \<Rightarrow> int \<Rightarrow> int \<Rightarrow> real" where
  "u_ref g dir i j =
     (if dir = 0 then gu g 0 (max 0 (min (gn g) i)) (max 0 (min (gn g - 1) j))
      else gu g 1 (max 0 (min (gn g - 1) i)) (max 0 (min (gn g) j)))"

definition c_ref :: "globals \<Rightarrow> int \<Rightarrow> int \<Rightarrow> real" where
  "c_ref g i j =
     (if i < 0 \<or> i > gcn g - 1 \<or> j < 0 \<or> j > gcn g - 1 then 0 else gc g i j)"

section \<open>Loops over the cells of a grid\<close>

definition store :: "grid \<Rightarrow> int \<Rightarrow> int \<Rightarrow> real \<Rightarrow> grid" where
  "store d i j v = (\<lambda>i' j'. if i' = i \<and> j' = j then v else d i' j')"

text \<open>
  The loop of \<^verbatim>\<open>maccormack\<close> and \<^verbatim>\<open>semiLagrangian\<close>:
  \<^verbatim>\<open>for( int n=0; n<width*height; n++ ) { int i = n%width; int j = n/width; d[i][j] = ...; }\<close>.
  The value stored at a cell is computed from other arrays than \<open>d\<close>, so the body is a
  function of the cell alone.
\<close>

definition for_cells :: "int \<Rightarrow> int \<Rightarrow> (int \<Rightarrow> int \<Rightarrow> real) \<Rightarrow> grid \<Rightarrow> grid" where
  "for_cells width height body d =
     fold (\<lambda>n g. let i = n mod width; j = n div width in store g i j (body i j))
       [0 .. width * height - 1] d"

text \<open>
  Modelled from the spec: the macros \<^verbatim>\<open>FOR_EVERY_X_FLOW\<close>, \<^verbatim>\<open>FOR_EVERY_Y_FLOW\<close> and
  \<^verbatim>\<open>FOR_EVERY_CELL\<close> of utility.h, which is not among the sources. They visit every point
  of the x-component (sized \<open>(n+1) \<times> n\<close>), of the y-component (sized \<open>n \<times> (n+1)\<close>) and of a
  cell-centred grid (sized \<open>n \<times> n\<close>), binding \<open>i\<close> and \<open>j\<close>.
\<close>

definition FOR_EVERY_X_FLOW :: "int \<Rightarrow> (int \<Rightarrow> int \<Rightarrow> real) \<Rightarrow> grid \<Rightarrow> grid" where
  "FOR_EVERY_X_FLOW n body d = for_cells (n + 1) n body d"

definition FOR_EVERY_Y_FLOW :: "int \<Rightarrow> (int \<Rightarrow> int \<Rightarrow> real) \<Rightarrow> grid \<Rightarrow> grid" where
  "FOR_EVERY_Y_FLOW n body d = for_cells n (n + 1) body d"

definition FOR_EVERY_CELL :: "int \<Rightarrow> (int \<Rightarrow> int \<Rightarrow> real) \<Rightarrow> grid \<Rightarrow> grid" where
  "FOR_EVERY_CELL n body d = for_cells n n body d"

section \<open>Scratch buffers\<close>

text \<open>
  The function-local \<^verbatim>\<open>static\<close> arrays: \<^verbatim>\<open>k[4][3]\<close> and \<^verbatim>\<open>tmp[3]\<close> of \<^verbatim>\<open>advect\<close>, \<^verbatim>\<open>up[2]\<close> of
  \<^verbatim>\<open>advect_diff\<close>, and \<^verbatim>\<open>ux\<close>, \<^verbatim>\<open>uy\<close>, \<^verbatim>\<open>up\<close>, \<^verbatim>\<open>uc\<close> of \<^verbatim>\<open>advect_semiLagrangian\<close>. They are
  allocated by the first call and keep their contents between calls, so a call starts
  from whatever an earlier call left in them: the record holds these contents.
\<close>

record statics =
  st_k :: "nat \<Rightarrow> field"
  st_tmp :: field
  st_diff_up :: field
  st_ux :: field
  st_uy :: field
  st_up :: field
  st_uc :: field

section \<open>Eulerian advection step\<close>

definition advect_diff_v ::
  "globals \<Rightarrow> statics \<Rightarrow> int \<Rightarrow> field \<Rightarrow> grid \<Rightarrow> int \<Rightarrow> int \<Rightarrow> field \<Rightarrow> real \<Rightarrow> field" where
  "advect_diff_v g st method u c n cn out dt =
     (let out0 = FOR_EVERY_X_FLOW n (\<lambda>i j.
            let v0 = u 0 i j;
                v1 = (u_ref g 1 (i - 1) j + u_ref g 1 i j + u_ref g 1 (i - 1) (j + 1)
                      + u_ref g 1 i (j + 1)) / 4
            in 0
               + advdiff method v0 (u_ref g 0 (i - 3) j) (u_ref g 0 (i - 2) j)
                   (u_ref g 0 (i - 1) j) (u_ref g 0 i j) (u_ref g 0 (i + 1) j)
                   (u_ref g 0 (i + 2) j) (u_ref g 0 (i + 3) j) * real_of_int n
               + advdiff method v1 (u_ref g 0 i (j - 3)) (u_ref g 0 i (j - 2))
                   (u_ref g 0 i (j - 1)) (u_ref g 0 i j) (u_ref g 0 i (j + 1))
                   (u_ref g 0 i (j + 2)) (u_ref g 0 i (j + 3)) * real_of_int n) (out 0);
          out1 = FOR_EVERY_Y_FLOW n (\<lambda>i j.
            let v0 = (u_ref g 0 i (j - 1) + u_ref g 0 i j + u_ref g 0 (i + 1) j
                      + u_ref g 0 (i + 1) (j - 1)) / 4;
                v1 = u 1 i j
            in 0
               + advdiff method v0 (u_ref g 1 (i - 3) j) (u_ref g 1 (i - 2) j)
                   (u_ref g 1 (i - 1) j) (u_ref g 1 i j) (u_ref g 1 (i + 1) j)
                   (u_ref g 1 (i + 2) j) (u_ref g 1 (i + 3) j) * real_of_int n
               + advdiff method v1 (u_ref g 1 i (j - 3)) (u_ref g 1 i (j - 2))
                   (u_ref g 1 i (j - 1)) (u_ref g 1 i j) (u_ref g 1 i (j + 1))
                   (u_ref g 1 i (j + 2)) (u_ref g 1 i (j + 3)) * real_of_int n) (out 1);
          up0 = FOR_EVERY_CELL n (\<lambda>i j. (1 / 2) * u 0 i j + (1 / 2) * u 0 (i + 1) j)
                  (st_diff_up st 0);
          up1 = FOR_EVERY_CELL n (\<lambda>i j. (1 / 2) * u 1 i j + (1 / 2) * u 1 i (j + 1))
                  (st_diff_up st 1);
          out2 = FOR_EVERY_CELL cn (\<lambda>i j.
            let x = real_of_int (i * n) / real_of_int cn;
                y = real_of_int (j * n) / real_of_int cn;
                v0 = linear_interpolate_v up0 n n x y;
                v1 = linear_interpolate_v up1 n n x y
            in 0
               + advdiff method v0 (c_ref g (i - 3) j) (c_ref g (i - 2) j) (c_ref g (i - 1) j)
                   (c_ref g i j) (c_ref g (i + 1) j) (c_ref g (i + 2) j) (c_ref g (i + 3) j)
                 * real_of_int cn
               + advdiff method v1 (c_ref g i (j - 3)) (c_ref g i (j - 2)) (c_ref g i (j - 1))
                   (c_ref g i j) (c_ref g i (j + 1)) (c_ref g i (j + 2)) (c_ref g i (j + 3))
                 * real_of_int cn) (out 2)
      in out(0 := out0, 1 := out1, 2 := out2))"

section \<open>Semi-Lagrangian and MacCormack advection steps\<close>

text \<open>
  The backward-traced point of \<^verbatim>\<open>maccormack\<close> at cell \<open>(i, j)\<close> (its \<^verbatim>\<open>x\<close> and \<^verbatim>\<open>y\<close> before the
  forward trace) and the lower-left cell \<^verbatim>\<open>(i0, j0)\<close> of the four cells around it. The
  parameter \<^verbatim>\<open>float dt\<close> is a real here, as every other number.
\<close>

definition mac_x :: "globals \<Rightarrow> int \<Rightarrow> field \<Rightarrow> real \<Rightarrow> int \<Rightarrow> int \<Rightarrow> real" where
  "mac_x g width u dt i j =
     min (real_of_int (width - 1)) (max 0 (real_of_int i - dt * real_of_int (gn g) * u 0 i j))"

definition mac_y :: "globals \<Rightarrow> int \<Rightarrow> field \<Rightarrow> real \<Rightarrow> int \<Rightarrow> int \<Rightarrow> real" where
  "mac_y g height u dt i j =
     min (real_of_int (height - 1)) (max 0 (real_of_int j - dt * real_of_int (gn g) * u 1 i j))"

definition mac_i0 :: "int \<Rightarrow> real \<Rightarrow> int" where
  "mac_i0 width x = min (width - 2) (max 0 (c_int x))"

definition mac_j0 :: "int \<Rightarrow> real \<Rightarrow> int" where
  "mac_j0 height y = min (height - 2) (max 0 (c_int y))"

definition maccormack_v ::
  "globals \<Rightarrow> grid \<Rightarrow> grid \<Rightarrow> int \<Rightarrow> int \<Rightarrow> field \<Rightarrow> real \<Rightarrow> grid" where
  "maccormack_v g d d0 width height u dt =
     for_cells width height (\<lambda>i j.
       let x = mac_x g width u dt i j;
           y = mac_y g height u dt i j;
           i0 = mac_i0 width x;
           j0 = mac_j0 height y;
           i1 = i0 + 1;
           j1 = j0 + 1;
           phi_n_1_hat = interp_v (interp_func g) d0 width height x y;
           u_hat = interp_v (interp_func g) (u 0) width height x y;
           v_hat = interp_v (interp_func g) (u 1) width height x y;
           x = x + dt * real_of_int (gn g) * u_hat;
           y = y + dt * real_of_int (gn g) * v_hat;
           phi_n_hat = interp_v (interp_func g) d0 width height x y;
           min_phi = min (min (min (d0 i0 j0) (d0 i1 j0)) (d0 i0 j1)) (d0 i1 j1);
           max_phi = max (max (max (d0 i0 j0) (d0 i1 j0)) (d0 i0 j1)) (d0 i1 j1);
           r = phi_n_1_hat + (1 / 2) * (d0 i j - phi_n_hat)
       in max (min r max_phi) min_phi) d"

definition semiLagrangian_v ::
  "globals \<Rightarrow> grid \<Rightarrow> grid \<Rightarrow> int \<Rightarrow> int \<Rightarrow> field \<Rightarrow> real \<Rightarrow> grid" where
  "semiLagrangian_v g d d0 width height u dt =
     for_cells width height (\<lambda>i j.
       interp_v (interp_func g) d0 width height
         (real_of_int i - real_of_int (gn g) * u 0 i j * dt)
         (real_of_int j - real_of_int (gn g) * u 1 i j * dt)) d"

text \<open>
  The four loops of \<^verbatim>\<open>advect_semiLagrangian\<close> that fill its static arrays \<^verbatim>\<open>ux\<close>, \<^verbatim>\<open>uy\<close>,
  \<^verbatim>\<open>up\<close> and \<^verbatim>\<open>uc\<close>: the velocity at the x-faces, at the y-faces, at the cell centres of
  the velocity grid and at the cell centres of the concentration grid.
\<close>

definition sl_ux :: "globals \<Rightarrow> statics \<Rightarrow> field \<Rightarrow> int \<Rightarrow> field" where
  "sl_ux g st u n = (st_ux st)
     (0 := FOR_EVERY_X_FLOW n (\<lambda>i j. u 0 i j) (st_ux st 0),
      1 := FOR_EVERY_X_FLOW n (\<lambda>i j.
             (u_ref g 1 (i - 1) j + u_ref g 1 i j + u_ref g 1 (i - 1) (j + 1)
              + u_ref g 1 i (j + 1)) / 4) (st_ux st 1))"

definition sl_uy :: "globals \<Rightarrow> statics \<Rightarrow> field \<Rightarrow> int \<Rightarrow> field" where
  "sl_uy g st u n = (st_uy st)
     (0 := FOR_EVERY_Y_FLOW n (\<lambda>i j.
             (u_ref g 0 i (j - 1) + u_ref g 0 i j + u_ref g 0 (i + 1) j
              + u_ref g 0 (i + 1) (j - 1)) / 4) (st_uy st 0),
      1 := FOR_EVERY_Y_FLOW n (\<lambda>i j. u 1 i j) (st_uy st 1))"

definition sl_up :: "statics \<Rightarrow> field \<Rightarrow> int \<Rightarrow> field" where
  "sl_up st u n = (st_up st)
     (0 := FOR_EVERY_CELL n (\<lambda>i j. (1 / 2) * u 0 i j + (1 / 2) * u 0 (i + 1) j) (st_up st 0),
      1 := FOR_EVERY_CELL n (\<lambda>i j. (1 / 2) * u 1 i j + (1 / 2) * u 1 i (j + 1)) (st_up st 1))"

definition sl_uc_v :: "globals \<Rightarrow> statics \<Rightarrow> field \<Rightarrow> int \<Rightarrow> int \<Rightarrow> field" where
  "sl_uc_v g st up n cn = (st_uc st)
     (0 := FOR_EVERY_CELL cn (\<lambda>i j.
             let x = real_of_int (i * n) / real_of_int cn;
                 y = real_of_int (j * n) / real_of_int cn
             in interp_v (interp_func g) (up 0) n n x y) (st_uc st 0),
      1 := FOR_EVERY_CELL cn (\<lambda>i j.
             let x = real_of_int (i * n) / real_of_int cn;
                 y = real_of_int (j * n) / real_of_int cn
             in interp_v (interp_func g) (up 1) n n x y) (st_uc st 1))"

text \<open>
  \<^verbatim>\<open>advect_semiLagrangian\<close> assigns the global \<^verbatim>\<open>interp_func\<close> when the method is 4, so it
  returns the globals with its output. Its \<^verbatim>\<open>switch\<close> has no default case: any method other
  than 3 and 4 keeps \<^verbatim>\<open>order = 1\<close>.
\<close>

definition advect_semiLagrangian_v ::
  "globals \<Rightarrow> statics \<Rightarrow> int \<Rightarrow> field \<Rightarrow> grid \<Rightarrow> int \<Rightarrow> int \<Rightarrow> field \<Rightarrow> real
     \<Rightarrow> globals \<times> field" where
  "advect_semiLagrangian_v g0 st method u c n cn out dt =
     (let order = (if method = 3 then 1 else if method = 4 then 2 else (1::int));
          g = (if method = 4 then g0\<lparr>interp_func := Spline\<rparr> else g0);
          ux = sl_ux g st u n;
          uy = sl_uy g st u n;
          up = sl_up st u n;
          uc = sl_uc_v g st up n cn
      in if order = 1 then
           (g, out(0 := semiLagrangian_v g (out 0) (u 0) (n + 1) n ux dt,
                   1 := semiLagrangian_v g (out 1) (u 1) n (n + 1) uy dt,
                   2 := semiLagrangian_v g (out 2) c cn cn uc dt))
         else if order = 2 then
           (g, out(0 := maccormack_v g (out 0) (u 0) (n + 1) n ux dt,
                   1 := maccormack_v g (out 1) (u 1) n (n + 1) uy dt,
                   2 := maccormack_v g (out 2) c cn cn uc dt))
         else (g, out))"

definition advect_step_v ::
  "globals \<Rightarrow> statics \<Rightarrow> int \<Rightarrow> field \<Rightarrow> grid \<Rightarrow> int \<Rightarrow> int \<Rightarrow> field \<Rightarrow> real
     \<Rightarrow> globals \<times> field" where
  "advect_step_v g st method u c n cn out dt =
     (if method < 3 then (g, advect_diff_v g st method u c n cn out dt)
      else advect_semiLagrangian_v g st method u c n cn out dt)"

section \<open>Time integrators and the timestep\<close>

text \<open>
  The three integrator branches of \<^verbatim>\<open>advect\<close>, each a definition. The temporary states of
  the multi-stage integrators (the three \<^verbatim>\<open>op2D\<close> calls before a stage's \<^verbatim>\<open>advect_step\<close>)
  and the final combinations (the \<^verbatim>\<open>op2D\<close> calls after the last stage, which write the
  caller's fields in place) are definitions of their own; \<open>tmp\<close> is the content of
  \<^verbatim>\<open>tmp[3]\<close> before the stage.
\<close>

definition forward_euler_update ::
  "field \<Rightarrow> grid \<Rightarrow> field \<Rightarrow> int \<Rightarrow> int \<Rightarrow> real \<Rightarrow> field \<times> grid" where
  "forward_euler_update u c k0 n cn dt =
     (let u = u(0 := op2D (u 0) (u 0) (k0 0) 1 dt (n + 1));
          u = u(1 := op2D (u 1) (u 1) (k0 1) 1 dt (n + 1));
          c = op2D c c (k0 2) 1 dt cn
      in (u, c))"

definition forward_euler_v ::
  "globals \<Rightarrow> statics \<Rightarrow> int \<Rightarrow> field \<Rightarrow> grid \<Rightarrow> int \<Rightarrow> int \<Rightarrow> real \<Rightarrow> field \<times> grid" where
  "forward_euler_v g st method u c n cn dt =
     (let k0 = snd (advect_step_v g st method u c n cn (st_k st 0) dt)
      in forward_euler_update u c k0 n cn dt)"

definition modified_euler_tmp :: "field \<Rightarrow> field \<Rightarrow> grid \<Rightarrow> field \<Rightarrow> int \<Rightarrow> int \<Rightarrow> real \<Rightarrow> field" where
  "modified_euler_tmp tmp u c k0 n cn dt =
     (let tmp = tmp(0 := op2D (tmp 0) (u 0) (k0 0) 1 dt (n + 1));
          tmp = tmp(1 := op2D (tmp 1) (u 1) (k0 1) 1 dt (n + 1));
          tmp = tmp(2 := op2D (tmp 2) c (k0 2) (1 / 2) dt cn)
      in tmp)"

definition modified_euler_update ::
  "field \<Rightarrow> grid \<Rightarrow> field \<Rightarrow> field \<Rightarrow> int \<Rightarrow> int \<Rightarrow> real \<Rightarrow> field \<times> grid" where
  "modified_euler_update u c k0 k1 n cn dt =
     (let u = u(0 := op2D (u 0) (u 0) (k0 0) 1 ((1 / 2) * dt) (n + 1));
          u = u(1 := op2D (u 1) (u 1) (k0 1) 1 ((1 / 2) * dt) (n + 1));
          c = op2D c c (k0 2) 1 ((1 / 2) * dt) cn;
          u = u(0 := op2D (u 0) (u 0) (k1 0) 1 ((1 / 2) * dt) (n + 1));
          u = u(1 := op2D (u 1) (u 1) (k1 1) 1 ((1 / 2) * dt) (n + 1));
          c = op2D c c (k1 2) 1 ((1 / 2) * dt) cn
      in (u, c))"

definition modified_euler_v ::
  "globals \<Rightarrow> statics \<Rightarrow> int \<Rightarrow> field \<Rightarrow> grid \<Rightarrow> int \<Rightarrow> int \<Rightarrow> real \<Rightarrow> field \<times> grid" where
  "modified_euler_v g st method u c n cn dt =
     (let r0 = advect_step_v g st method u c n cn (st_k st 0) dt;
          k0 = snd r0;
          tmp = modified_euler_tmp (st_tmp st) u c k0 n cn dt;
          r1 = advect_step_v (fst r0) st method tmp (tmp 2) n cn (st_k st 1) dt;
          k1 = snd r1
      in modified_euler_update u c k0 k1 n cn dt)"

definition runge_kutta_tmp1 :: "field \<Rightarrow> field \<Rightarrow> grid \<Rightarrow> field \<Rightarrow> int \<Rightarrow> int \<Rightarrow> real \<Rightarrow> field" where
  "runge_kutta_tmp1 tmp u c k0 n cn dt =
     (let tmp = tmp(0 := op2D (tmp 0) (u 0) (k0 0) 1 ((1 / 2) * dt) (n + 1));
          tmp = tmp(1 := op2D (tmp 1) (u 1) (k0 1) 1 ((1 / 2) * dt) (n + 1));
          tmp = tmp(2 := op2D (tmp 2) c (k0 2) (1 / 2) ((1 / 2) * dt) cn)
      in tmp)"

definition runge_kutta_tmp2 :: "field \<Rightarrow> field \<Rightarrow> grid \<Rightarrow> field \<Rightarrow> int \<Rightarrow> int \<Rightarrow> real \<Rightarrow> field" where
  "runge_kutta_tmp2 tmp u c k1 n cn dt =
     (let tmp = tmp(0 := op2D (tmp 0) (u 0) (k1 0) 1 ((1 / 2) * dt) (n + 1));
          tmp = tmp(1 := op2D (tmp 1) (u 1) (k1 1) 1 ((1 / 2) * dt) (n + 1));
          tmp = tmp(2 := op2D (tmp 2) c (k1 2) (1 / 2) ((1 / 2) * dt) cn)
      in tmp)"

definition runge_kutta_tmp3 :: "field \<Rightarrow> field \<Rightarrow> grid \<Rightarrow> field \<Rightarrow> int \<Rightarrow> int \<Rightarrow> real \<Rightarrow> field" where
  "runge_kutta_tmp3 tmp u c k2 n cn dt =
     (let tmp = tmp(0 := op2D (tmp 0) (u 0) (k2 0) 1 dt (n + 1));
          tmp = tmp(1 := op2D (tmp 1) (u 1) (k2 1) 1 dt (n + 1));
          tmp = tmp(2 := op2D (tmp 2) c (k2 2) (1 / 2) dt cn)
      in tmp)"

definition runge_kutta_update ::
  "field \<Rightarrow> grid \<Rightarrow> field \<Rightarrow> field \<Rightarrow> field \<Rightarrow> field \<Rightarrow> int \<Rightarrow> int \<Rightarrow> real \<Rightarrow> field \<times> grid" where
  "runge_kutta_update u c k0 k1 k2 k3 n cn dt =
     (let u = u(0 := op2D (u 0) (u 0) (k0 0) 1 (dt / 6) (n + 1));
          u = u(1 := op2D (u 1) (u 1) (k0 1) 1 (dt / 6) (n + 1));
          c = op2D c c (k0 2) 1 (dt / 6) cn;
          u = u(0 := op2D (u 0) (u 0) (k1 0) 1 (dt / 3) (n + 1));
          u = u(1 := op2D (u 1) (u 1) (k1 1) 1 (dt / 3) (n + 1));
          c = op2D c c (k1 2) 1 (dt / 3) cn;
          u = u(0 := op2D (u 0) (u 0) (k2 0) 1 (dt / 3) (n + 1));
          u = u(1 := op2D (u 1) (u 1) (k2 1) 1 (dt / 3) (n + 1));
          c = op2D c c (k2 2) 1 (dt / 3) cn;
          u = u(0 := op2D (u 0) (u 0) (k3 0) 1 (dt / 6) (n + 1));
          u = u(1 := op2D (u 1) (u 1) (k3 1) 1 (dt / 6) (n + 1));
          c = op2D c c (k3 2) 1 (dt / 6) cn
      in (u, c))"

definition runge_kutta_v ::
  "globals \<Rightarrow> statics \<Rightarrow> int \<Rightarrow> field \<Rightarrow> grid \<Rightarrow> int \<Rightarrow> int \<Rightarrow> real \<Rightarrow> field \<times> grid" where
  "runge_kutta_v g st method u c n cn dt =
     (let r0 = advect_step_v g st method u c n cn (st_k st 0) dt;
          k0 = snd r0;
          tmp1 = runge_kutta_tmp1 (st_tmp st) u c k0 n cn dt;
          r1 = advect_step_v (fst r0) st method tmp1 (tmp1 2) n cn (st_k st 1) dt;
          k1 = snd r1;
          tmp2 = runge_kutta_tmp2 tmp1 u c k1 n cn dt;
          r2 = advect_step_v (fst r1) st method tmp2 (tmp2 2) n cn (st_k st 2) dt;
          k2 = snd r2;
          tmp3 = runge_kutta_tmp3 tmp2 u c k2 n cn dt;
          r3 = advect_step_v (fst r2) st method tmp3 (tmp3 2) n cn (st_k st 3) dt;
          k3 = snd r3
      in runge_kutta_update u c k0 k1 k2 k3 n cn dt)"

text \<open>
  \<^verbatim>\<open>advect::advect\<close>. It assigns every global before any use, so the globals of an earlier
  call do not reach it; the result is the caller's velocity and concentration after the
  call.
\<close>

definition advect_v ::
  "statics \<Rightarrow> int \<Rightarrow> int \<Rightarrow> int \<Rightarrow> field \<Rightarrow> grid \<Rightarrow> int \<Rightarrow> int \<Rightarrow> real \<Rightarrow> field \<times> grid" where
  "advect_v st method interp integrator u c n cn dt =
     (let g = \<lparr>gu = u, gc = c, gn = n, gcn = cn,
               interp_func = (if interp = 0 then Linear
                              else if interp = 1 then Spline
                              else MonotonicCubic)\<rparr>
      in if method < 3 then
           (if integrator = 0 then forward_euler_v g st method u c n cn dt
            else if integrator = 1 then modified_euler_v g st method u c n cn dt
            else if integrator = 2 then runge_kutta_v g st method u c n cn dt
            else (u, c))
         else
           (let k0 = snd (advect_step_v g st method u c n cn (st_k st 0) dt)
            in (u(0 := copy2D (u 0) (k0 0) (n + 1), 1 := copy2D (u 1) (k0 1) (n + 1)),
                copy2D c (k0 2) cn)))"

text \<open>
  The points of the three fields at resolutions \<open>n\<close> and \<open>cn\<close>: the x-velocity on
  \<open>[0,n] \<times> [0,n-1]\<close>, the y-velocity on \<open>[0,n-1] \<times> [0,n]\<close>, the concentration on
  \<open>[0,cn-1] \<times> [0,cn-1]\<close>. Two states agree as fields when they agree on these points.
\<close>

definition in_grid :: "int \<Rightarrow> int \<Rightarrow> int \<Rightarrow> int \<Rightarrow> bool" where
  "in_grid width height i j = (0 \<le> i \<and> i < width \<and> 0 \<le> j \<and> j < height)"

definition same_grid :: "int \<Rightarrow> int \<Rightarrow> grid \<Rightarrow> grid \<Rightarrow> bool" where
  "same_grid width height a b = (\<forall>i j. in_grid width height i j \<longrightarrow> a i j = b i j)"

definition same_fields :: "int \<Rightarrow> int \<Rightarrow> field \<times> grid \<Rightarrow> field \<times> grid \<Rightarrow> bool" where
  "same_fields n cn s t =
     (same_grid (n + 1) n (fst s 0) (fst t 0) \<and> same_grid n (n + 1) (fst s 1) (fst t 1)
      \<and> same_grid cn cn (snd s) (snd t))"

definition zero_velocity :: "int \<Rightarrow> field \<Rightarrow> bool" where
  "zero_velocity n u = (same_grid (n + 1) n (u 0) (\<lambda>i j. 0) \<and> same_grid n (n + 1) (u 1) (\<lambda>i j. 0))"

definition zero_deriv :: "int \<Rightarrow> int \<Rightarrow> field \<Rightarrow> bool" where
  "zero_deriv n cn k =
     (same_grid (n + 1) n (k 0) (\<lambda>i j. 0) \<and> same_grid n (n + 1) (k 1) (\<lambda>i j. 0)
      \<and> same_grid cn cn (k 2) (\<lambda>i j. 0))"

text \<open>
  The spec's bound on a MacCormack value \<open>v\<close> at cell \<open>(i, j)\<close> of a grid \<open>d0\<close> advected with
  velocity \<open>u\<close>: \<open>v\<close> lies between the minimum and the maximum of the four cells
  \<open>(i0, j0)\<close>, \<open>(i0+1, j0)\<close>, \<open>(i0, j0+1)\<close>, \<open>(i0+1, j0+1)\<close>, which lie in the grid and surround
  the backward-traced point \<open>(x, y)\<close> of the cell.
\<close>

definition within4 ::
  "globals \<Rightarrow> grid \<Rightarrow> int \<Rightarrow> int \<Rightarrow> field \<Rightarrow> real \<Rightarrow> int \<Rightarrow> int \<Rightarrow> real \<Rightarrow> bool" where
  "within4 g d0 width height u dt i j v =
     (let x = mac_x g width u dt i j;
          y = mac_y g height u dt i j;
          i0 = mac_i0 width x;
          j0 = mac_j0 height y
      in Min {d0 i0 j0, d0 (i0 + 1) j0, d0 i0 (j0 + 1), d0 (i0 + 1) (j0 + 1)} \<le> v
         \<and> v \<le> Max {d0 i0 j0, d0 (i0 + 1) j0, d0 i0 (j0 + 1), d0 (i0 + 1) (j0 + 1)}
         \<and> real_of_int i0 \<le> x \<and> x \<le> real_of_int (i0 + 1)
         \<and> real_of_int j0 \<le> y \<and> y \<le> real_of_int (j0 + 1)
         \<and> in_grid width height i0 j0 \<and> in_grid width height (i0 + 1) (j0 + 1))"

text \<open>The spec's notion of an index clamped to the range \<open>[lo, hi]\<close>.\<close>

definition clamp_index :: "int \<Rightarrow> int \<Rightarrow> int \<Rightarrow> int" where
  "clamp_index lo hi i = (if i < lo then lo else if hi < i then hi else i)"

text \<open>
  The index of column \<open>i\<close> of the 4 x 4 neighbourhood along one axis of size \<open>w\<close>:
  \<^verbatim>\<open>min(width-1,max(0,(int)x - 1 + i))\<close>.
\<close>

definition stencil_index :: "int \<Rightarrow> real \<Rightarrow> int \<Rightarrow> int" where
  "stencil_index w x i = min (w - 1) (max 0 (c_int x - 1 + i))"

text \<open>The three functions \<^verbatim>\<open>advect\<close> assigns to \<^verbatim>\<open>interp_func\<close>.\<close>

definition is_kernel :: "(grid \<Rightarrow> int \<Rightarrow> int \<Rightarrow> real \<Rightarrow> real \<Rightarrow> real) \<Rightarrow> bool" where
  "is_kernel f = (f = linear_interpolate_v \<or> f = spline_interpolate_v \<or> f = monotonic_cubic_v)"

section \<open>The program with every read checked\<close>

text \<open>
  A C array of \<open>width \<times> height\<close> numbers has the cells \<open>in_grid width height\<close>; reading
  \<^verbatim>\<open>d[i][j]\<close> at another index is undefined behaviour. The functions of this section are
  the functions of advect.cpp with the reads checked whose index is computed from a size
  (the four cells of \<^verbatim>\<open>linear_interpolate\<close>, the sixteen cells of the cubic kernels, the four
  donor cells of \<^verbatim>\<open>maccormack\<close>): such a read is \<^const>\<open>None\<close> outside the array, and a
  function that makes one returns \<^const>\<open>None\<close>.
\<close>

definition read2D :: "grid \<Rightarrow> int \<Rightarrow> int \<Rightarrow> int \<Rightarrow> int \<Rightarrow> real option" where
  "read2D d width height i j = (if in_grid width height i j then Some (d i j) else None)"

definition gather16 :: "grid \<Rightarrow> int \<Rightarrow> int \<Rightarrow> real \<Rightarrow> real \<Rightarrow> real list option" where
  "gather16 d width height x y =
     those (concat (map (\<lambda>j. map (\<lambda>i.
       let h = c_int x - 1 + i;
           v = c_int y - 1 + j
       in read2D d width height (min (width - 1) (max 0 h)) (min (height - 1) (max 0 v)))
         [0, 1, 2, 3]) [0, 1, 2, 3]))"

definition monotonic_cubic :: "grid \<Rightarrow> int \<Rightarrow> int \<Rightarrow> real \<Rightarrow> real \<Rightarrow> real option" where
  "monotonic_cubic d width height x0 y0 =
     (let x = max 0 (min (real_of_int width) x0);
          y = max 0 (min (real_of_int height) y0)
      in do {
        f \<leftarrow> gather16 d width height x y;
        let xn = map (\<lambda>j. monotonic_cubic_4 (drop (4 * j) f) (x - real_of_int (c_int x)))
                   [0, 1, 2, 3];
        Some (monotonic_cubic_4 xn (y - real_of_int (c_int y)))
      })"

definition spline_interpolate :: "grid \<Rightarrow> int \<Rightarrow> int \<Rightarrow> real \<Rightarrow> real \<Rightarrow> real option" where
  "spline_interpolate d width height x0 y0 =
     (let x = max 0 (min (real_of_int width) x0);
          y = max 0 (min (real_of_int height) y0)
      in do {
        f \<leftarrow> gather16 d width height x y;
        let xn = map (\<lambda>j. spline_cubic (drop (4 * j) f) (x - real_of_int (c_int x)))
                   [0, 1, 2, 3];
        Some (spline_cubic xn (y - real_of_int (c_int y)))
      })"

definition linear_interpolate :: "grid \<Rightarrow> int \<Rightarrow> int \<Rightarrow> real \<Rightarrow> real \<Rightarrow> real option" where
  "linear_interpolate d width height x0 y0 =
     (let x = max 0 (min (real_of_int width) x0);
          y = max 0 (min (real_of_int height) y0);
          i = c_int (min x (real_of_int (width - 2)));
          j = c_int (min y (real_of_int (height - 2)))
      in do {
        d00 \<leftarrow> read2D d width height i j;
        d10 \<leftarrow> read2D d width height (i + 1) j;
        d01 \<leftarrow> read2D d width height i (j + 1);
        d11 \<leftarrow> read2D d width height (i + 1) (j + 1);
        Some (((real_of_int (i + 1) - x) * d00 + (x - real_of_int i) * d10)
                * (real_of_int (j + 1) - y)
              + ((real_of_int (i + 1) - x) * d01 + (x - real_of_int i) * d11)
                * (y - real_of_int j))
      })"

text \<open>A call through the function pointer \<^verbatim>\<open>interp_func\<close>.\<close>

definition call_interp ::
  "kernel \<Rightarrow> grid \<Rightarrow> int \<Rightarrow> int \<Rightarrow> real \<Rightarrow> real \<Rightarrow> real option" where
  "call_interp k = (case k of Linear \<Rightarrow> linear_interpolate | Spline \<Rightarrow> spline_interpolate
                    | MonotonicCubic \<Rightarrow> monotonic_cubic)"

text \<open>The loops over the cells of a grid whose body makes a checked read.\<close>

definition for_cells_opt ::
  "int \<Rightarrow> int \<Rightarrow> (int \<Rightarrow> int \<Rightarrow> real option) \<Rightarrow> grid \<Rightarrow> grid option" where
  "for_cells_opt width height body d =
     fold (\<lambda>n r. do {
             g \<leftarrow> r;
             let i = n mod width;
             let j = n div width;
             v \<leftarrow> body i j;
             Some (store g i j v)
           }) [0 .. width * height - 1] (Some d)"

definition FOR_EVERY_CELL_opt ::
  "int \<Rightarrow> (int \<Rightarrow> int \<Rightarrow> real option) \<Rightarrow> grid \<Rightarrow> grid option" where
  "FOR_EVERY_CELL_opt n body d = for_cells_opt n n body d"

definition advect_diff ::
  "globals \<Rightarrow> statics \<Rightarrow> int \<Rightarrow> field \<Rightarrow> grid \<Rightarrow> int \<Rightarrow> int \<Rightarrow> field \<Rightarrow> real
     \<Rightarrow> field option" where
  "advect_diff g st method u c n cn out dt =
     (let out0 = FOR_EVERY_X_FLOW n (\<lambda>i j.
            let v0 = u 0 i j;
                v1 = (u_ref g 1 (i - 1) j + u_ref g 1 i j + u_ref g 1 (i - 1) (j + 1)
                      + u_ref g 1 i (j + 1)) / 4
            in 0
               + advdiff method v0 (u_ref g 0 (i - 3) j) (u_ref g 0 (i - 2) j)
                   (u_ref g 0 (i - 1) j) (u_ref g 0 i j) (u_ref g 0 (i + 1) j)
                   (u_ref g 0 (i + 2) j) (u_ref g 0 (i + 3) j) * real_of_int n
               + advdiff method v1 (u_ref g 0 i (j - 3)) (u_ref g 0 i (j - 2))
                   (u_ref g 0 i (j - 1)) (u_ref g 0 i j) (u_ref g 0 i (j + 1))
                   (u_ref g 0 i (j + 2)) (u_ref g 0 i (j + 3)) * real_of_int n) (out 0);
          out1 = FOR_EVERY_Y_FLOW n (\<lambda>i j.
            let v0 = (u_ref g 0 i (j - 1) + u_ref g 0 i j + u_ref g 0 (i + 1) j
                      + u_ref g 0 (i + 1) (j - 1)) / 4;
                v1 = u 1 i j
            in 0
               + advdiff method v0 (u_ref g 1 (i - 3) j) (u_ref g 1 (i - 2) j)
                   (u_ref g 1 (i - 1) j) (u_ref g 1 i j) (u_ref g 1 (i + 1) j)
                   (u_ref g 1 (i + 2) j) (u_ref g 1 (i + 3) j) * real_of_int n
               + advdiff method v1 (u_ref g 1 i (j - 3)) (u_ref g 1 i (j - 2))
                   (u_ref g 1 i (j - 1)) (u_ref g 1 i j) (u_ref g 1 i (j + 1))
                   (u_ref g 1 i (j + 2)) (u_ref g 1 i (j + 3)) * real_of_int n) (out 1);
          up0 = FOR_EVERY_CELL n (\<lambda>i j. (1 / 2) * u 0 i j + (1 / 2) * u 0 (i + 1) j)
                  (st_diff_up st 0);
          up1 = FOR_EVERY_CELL n (\<lambda>i j. (1 / 2) * u 1 i j + (1 / 2) * u 1 i (j + 1))
                  (st_diff_up st 1)
      in do {
        out2 \<leftarrow> FOR_EVERY_CELL_opt cn (\<lambda>i j.
            let x = real_of_int (i * n) / real_of_int cn;
                y = real_of_int (j * n) / real_of_int cn
            in do {
              v0 \<leftarrow> linear_interpolate up0 n n x y;
              v1 \<leftarrow> linear_interpolate up1 n n x y;
              Some (0
               + advdiff method v0 (c_ref g (i - 3) j) (c_ref g (i - 2) j) (c_ref g (i - 1) j)
                   (c_ref g i j) (c_ref g (i + 1) j) (c_ref g (i + 2) j) (c_ref g (i + 3) j)
                 * real_of_int cn
               + advdiff method v1 (c_ref g i (j - 3)) (c_ref g i (j - 2)) (c_ref g i (j - 1))
                   (c_ref g i j) (c_ref g i (j + 1)) (c_ref g i (j + 2)) (c_ref g i (j + 3))
                 * real_of_int cn)
            }) (out 2);
        Some (out(0 := out0, 1 := out1, 2 := out2))
      })"

definition maccormack ::
  "globals \<Rightarrow> grid \<Rightarrow> grid \<Rightarrow> int \<Rightarrow> int \<Rightarrow> field \<Rightarrow> real \<Rightarrow> grid option" where
  "maccormack g d d0 width height u dt =
     for_cells_opt width height (\<lambda>i j.
       let x = mac_x g width u dt i j;
           y = mac_y g height u dt i j;
           i0 = mac_i0 width x;
           j0 = mac_j0 height y;
           i1 = i0 + 1;
           j1 = j0 + 1
       in do {
         phi_n_1_hat \<leftarrow> call_interp (interp_func g) d0 width height x y;
         u_hat \<leftarrow> call_interp (interp_func g) (u 0) width height x y;
         v_hat \<leftarrow> call_interp (interp_func g) (u 1) width height x y;
         let x = x + dt * real_of_int (gn g) * u_hat;
         let y = y + dt * real_of_int (gn g) * v_hat;
         phi_n_hat \<leftarrow> call_interp (interp_func g) d0 width height x y;
         d00 \<leftarrow> read2D d0 width height i0 j0;
         d10 \<leftarrow> read2D d0 width height i1 j0;
         d01 \<leftarrow> read2D d0 width height i0 j1;
         d11 \<leftarrow> read2D d0 width height i1 j1;
         let min_phi = min (min (min d00 d10) d01) d11;
         let max_phi = max (max (max d00 d10) d01) d11;
         let r = phi_n_1_hat + (1 / 2) * (d0 i j - phi_n_hat);
         Some (max (min r max_phi) min_phi)
       }) d"

definition semiLagrangian ::
  "globals \<Rightarrow> grid \<Rightarrow> grid \<Rightarrow> int \<Rightarrow> int \<Rightarrow> field \<Rightarrow> real \<Rightarrow> grid option" where
  "semiLagrangian g d d0 width height u dt =
     for_cells_opt width height (\<lambda>i j.
       call_interp (interp_func g) d0 width height
         (real_of_int i - real_of_int (gn g) * u 0 i j * dt)
         (real_of_int j - real_of_int (gn g) * u 1 i j * dt)) d"

definition sl_uc :: "globals \<Rightarrow> statics \<Rightarrow> field \<Rightarrow> int \<Rightarrow> int \<Rightarrow> field option" where
  "sl_uc g st up n cn =
     do {
       uc0 \<leftarrow> FOR_EVERY_CELL_opt cn (\<lambda>i j.
             let x = real_of_int (i * n) / real_of_int cn;
                 y = real_of_int (j * n) / real_of_int cn
             in call_interp (interp_func g) (up 0) n n x y) (st_uc st 0);
       uc1 \<leftarrow> FOR_EVERY_CELL_opt cn (\<lambda>i j.
             let x = real_of_int (i * n) / real_of_int cn;
                 y = real_of_int (j * n) / real_of_int cn
             in call_interp (interp_func g) (up 1) n n x y) (st_uc st 1);
       Some ((st_uc st)(0 := uc0, 1 := uc1))
     }"

definition advect_semiLagrangian ::
  "globals \<Rightarrow> statics \<Rightarrow> int \<Rightarrow> field \<Rightarrow> grid \<Rightarrow> int \<Rightarrow> int \<Rightarrow> field \<Rightarrow> real
     \<Rightarrow> (globals \<times> field) option" where
  "advect_semiLagrangian g0 st method u c n cn out dt =
     (let order = (if method = 3 then 1 else if method = 4 then 2 else (1::int));
          g = (if method = 4 then g0\<lparr>interp_func := Spline\<rparr> else g0);
          ux = sl_ux g st u n;
          uy = sl_uy g st u n;
          up = sl_up st u n
      in do {
        uc \<leftarrow> sl_uc g st up n cn;
        if order = 1 then do {
          out0 \<leftarrow> semiLagrangian g (out 0) (u 0) (n + 1) n ux dt;
          out1 \<leftarrow> semiLagrangian g (out 1) (u 1) n (n + 1) uy dt;
          out2 \<leftarrow> semiLagrangian g (out 2) c cn cn uc dt;
          Some (g, out(0 := out0, 1 := out1, 2 := out2))
        } else if order = 2 then do {
          out0 \<leftarrow> maccormack g (out 0) (u 0) (n + 1) n ux dt;
          out1 \<leftarrow> maccormack g (out 1) (u 1) n (n + 1) uy dt;
          out2 \<leftarrow> maccormack g (out 2) c cn cn uc dt;
          Some (g, out(0 := out0, 1 := out1, 2 := out2))
        } else Some (g, out)
      })"

definition advect_step ::
  "globals \<Rightarrow> statics \<Rightarrow> int \<Rightarrow> field \<Rightarrow> grid \<Rightarrow> int \<Rightarrow> int \<Rightarrow> field \<Rightarrow> real
     \<Rightarrow> (globals \<times> field) option" where
  "advect_step g st method u c n cn out dt =
     (if method < 3 then map_option (Pair g) (advect_diff g st method u c n cn out dt)
      else advect_semiLagrangian g st method u c n cn out dt)"

text \<open>
  The three integrator branches of \<^verbatim>\<open>advect\<close>. Each evaluates the derivative through
  \<^verbatim>\<open>advect_step\<close> with the selectors and sizes of the call; the definitions take this
  evaluation as the parameter \<open>step\<close> (the globals, the velocity and the concentration it is
  given, and the buffer it writes), so that what each stage passes to it can be stated.
\<close>

type_synonym stepper = "globals \<Rightarrow> field \<Rightarrow> grid \<Rightarrow> field \<Rightarrow> (globals \<times> field) option"

definition forward_euler ::
  "stepper \<Rightarrow> globals \<Rightarrow> statics \<Rightarrow> field \<Rightarrow> grid \<Rightarrow> int \<Rightarrow> int \<Rightarrow> real
     \<Rightarrow> (field \<times> grid) option" where
  "forward_euler step g st u c n cn dt =
     do {
       (g, k0) \<leftarrow> step g u c (st_k st 0);
       Some (forward_euler_update u c k0 n cn dt)
     }"

definition modified_euler ::
  "stepper \<Rightarrow> globals \<Rightarrow> statics \<Rightarrow> field \<Rightarrow> grid \<Rightarrow> int \<Rightarrow> int \<Rightarrow> real
     \<Rightarrow> (field \<times> grid) option" where
  "modified_euler step g st u c n cn dt =
     do {
       (g, k0) \<leftarrow> step g u c (st_k st 0);
       let tmp = modified_euler_tmp (st_tmp st) u c k0 n cn dt;
       (g, k1) \<leftarrow> step g tmp (tmp 2) (st_k st 1);
       Some (modified_euler_update u c k0 k1 n cn dt)
     }"

definition runge_kutta ::
  "stepper \<Rightarrow> globals \<Rightarrow> statics \<Rightarrow> field \<Rightarrow> grid \<Rightarrow> int \<Rightarrow> int \<Rightarrow> real
     \<Rightarrow> (field \<times> grid) option" where
  "runge_kutta step g st u c n cn dt =
     do {
       (g, k0) \<leftarrow> step g u c (st_k st 0);
       let tmp = runge_kutta_tmp1 (st_tmp st) u c k0 n cn dt;
       (g, k1) \<leftarrow> step g tmp (tmp 2) (st_k st 1);
       let tmp = runge_kutta_tmp2 tmp u c k1 n cn dt;
       (g, k2) \<leftarrow> step g tmp (tmp 2) (st_k st 2);
       let tmp = runge_kutta_tmp3 tmp u c k2 n cn dt;
       (g, k3) \<leftarrow> step g tmp (tmp 2) (st_k st 3);
       Some (runge_kutta_update u c k0 k1 k2 k3 n cn dt)
     }"

text \<open>
  \<^verbatim>\<open>advect::advect\<close>. It assigns every global before any use, so the globals of an earlier
  call do not reach it; the result is the caller's velocity and concentration after the
  call, or \<^const>\<open>None\<close> when the call reads outside an array.
\<close>

definition advect ::
  "statics \<Rightarrow> int \<Rightarrow> int \<Rightarrow> int \<Rightarrow> field \<Rightarrow> grid \<Rightarrow> int \<Rightarrow> int \<Rightarrow> real
     \<Rightarrow> (field \<times> grid) option" where
  "advect st method interp integrator u c n cn dt =
     (let g = \<lparr>gu = u, gc = c, gn = n, gcn = cn,
               interp_func = (if interp = 0 then Linear
                              else if interp = 1 then Spline
                              else MonotonicCubic)\<rparr>;
          step = (\<lambda>g u c out. advect_step g st method u c n cn out dt)
      in if method < 3 then
           (if integrator = 0 then forward_euler step g st u c n cn dt
            else if integrator = 1 then modified_euler step g st u c n cn dt
            else if integrator = 2 then runge_kutta step g st u c n cn dt
            else Some (u, c))
         else do {
           (g, k0) \<leftarrow> step g u c (st_k st 0);
           Some (u(0 := copy2D (u 0) (k0 0) (n + 1), 1 := copy2D (u 1) (k0 1) (n + 1)),
                 copy2D c (k0 2) cn)
         })"

section \<open>Concrete inputs\<close>

text \<open>Small inputs at which the definitions are evaluated.\<close>

definition g_demo :: globals where
  "g_demo = \<lparr>gu = (\<lambda>d i j. real_of_int (10 * i + j)), gc = (\<lambda>i j. 7), gn = 2, gcn = 2,
             interp_func = Linear\<rparr>"

definition u_half :: field where
  "u_half = (\<lambda>d i j. 1 / 2)"

definition u_zero :: field where
  "u_zero = (\<lambda>d i j. 0)"

definition u_right :: field where
  "u_right = (\<lambda>d i j. if d = 0 then 1 else 0)"

definition c_ramp :: grid where
  "c_ramp = (\<lambda>i j. real_of_int (10 * i + j))"

definition c_one :: grid where
  "c_one = (\<lambda>i j. 1)"

text \<open>The static arrays as the first call finds them: allocated and zeroed.\<close>

definition st_first :: statics where
  "st_first = \<lparr>st_k = (\<lambda>kn m. alloc2D 3), st_tmp = (\<lambda>m. alloc2D 3),
                st_diff_up = (\<lambda>m. alloc2D 2), st_ux = (\<lambda>m. alloc2D 3),
                st_uy = (\<lambda>m. alloc2D 3), st_up = (\<lambda>m. alloc2D 2),
                st_uc = (\<lambda>m. alloc2D 2)\<rparr>"

text \<open>A derivative evaluation that returns the state it is given.\<close>

definition probe_step :: stepper where
  "probe_step g u c out = Some (g, out(0 := u 0, 1 := u 1, 2 := c))"

section \<open>Facts about the loops\<close>

lemma is_kernel_interp_v [simp]: "is_kernel (interp_v k)"
  by (cases k) (simp_all add: interp_v_def is_kernel_def)

lemma interp_v_simps [simp]:
  "interp_v Linear = linear_interpolate_v"
  "interp_v Spline = spline_interpolate_v"
  "interp_v MonotonicCubic = monotonic_cubic_v"
  by (simp_all add: interp_v_def)

lemma fold_store:
  "fold (\<lambda>n g. let i = n mod w; j = n div w in store g i j (body i j)) xs d i j
     = (if \<exists>n\<in>set xs. n mod w = i \<and> n div w = j then body i j else d i j)"
  by (induction xs arbitrary: d) (auto simp: store_def Let_def)

lemma div_less_height:
  assumes "0 < (w::int)" "n < w * h"
  shows "n div w < h"
proof (rule ccontr)
  assume "\<not> n div w < h"
  then have "h \<le> n div w" by simp
  then have "w * h \<le> w * (n div w)" using assms(1) by (simp add: mult_left_mono)
  moreover have "w * (n div w) \<le> n"
    using assms(1) by (metis mult_div_mod_eq le_add_same_cancel1 pos_mod_sign)
  ultimately show False using assms(2) by simp
qed

text \<open>The counter \<open>n\<close> of the loop reaches every cell of the \<open>w \<times> h\<close> block, and only those.\<close>

lemma cell_counter:
  assumes "0 < (w::int)"
  shows "(\<exists>n\<in>{0 .. w * h - 1}. n mod w = i \<and> n div w = j)
           \<longleftrightarrow> (0 \<le> i \<and> i < w \<and> 0 \<le> j \<and> j < h)"
proof
  assume "\<exists>n\<in>{0 .. w * h - 1}. n mod w = i \<and> n div w = j"
  then obtain n where n: "0 \<le> n" "n < w * h" "n mod w = i" "n div w = j" by auto
  have "0 \<le> i" "i < w" using assms n(3) by auto
  moreover have "0 \<le> n div w" using n(1) assms by (simp add: pos_imp_zdiv_nonneg_iff)
  moreover have "n div w < h" using n(2) assms by (rule div_less_height[rotated])
  ultimately show "0 \<le> i \<and> i < w \<and> 0 \<le> j \<and> j < h" using n(4) by simp
next
  assume a: "0 \<le> i \<and> i < w \<and> 0 \<le> j \<and> j < h"
  let ?n = "j * w + i"
  have "?n mod w = i" "?n div w = j" using a assms by auto
  moreover have "0 \<le> ?n" using a assms by simp
  moreover have "?n < w * h"
  proof -
    have "j + 1 \<le> h" using a by simp
    then have "(j + 1) * w \<le> h * w" using assms by (simp add: mult_right_mono)
    then show ?thesis using a by (simp add: algebra_simps)
  qed
  ultimately show "\<exists>n\<in>{0 .. w * h - 1}. n mod w = i \<and> n div w = j"
    by (intro bexI[of _ ?n]) auto
qed

lemma for_cells_apply:
  "0 < width \<Longrightarrow>
   for_cells width height body d i j = (if in_grid width height i j then body i j else d i j)"
  unfolding for_cells_def fold_store in_grid_def
  using cell_counter[of width height i j] by simp

section \<open>Facts about the kernels at grid points\<close>

lemma c_int_of_int [simp]: "c_int (real_of_int i) = i"
  by (simp add: c_int_def)

lemma c_int_nonneg: "0 \<le> x \<Longrightarrow> c_int x = \<lfloor>x\<rfloor>"
  by (simp add: c_int_def)

lemma spline_cubic_0: "spline_cubic a 0 = a ! 1"
  by (simp add: spline_cubic_def Let_def)

lemma monotonic_cubic_4_0: "monotonic_cubic_4 a 0 = a ! 1"
  by (simp add: monotonic_cubic_4_def Let_def)

lemma clamp_inside: "0 \<le> i \<Longrightarrow> i < w \<Longrightarrow> min (w - 1) (max 0 (i::int)) = i"
  by simp

lemma gather16_int:
  "in_grid width height i j \<Longrightarrow>
   gather16_v d width height (real_of_int i) (real_of_int j) ! 5 = d i j"
  by (simp add: gather16_v_def in_grid_def Let_def clamp_inside)

lemma linear_interpolate_int:
  assumes "in_grid width height i j"
  shows "linear_interpolate_v d width height (real_of_int i) (real_of_int j) = d i j"
proof -
  have x: "max 0 (min (real_of_int width) (real_of_int i)) = real_of_int i"
    using assms by (simp add: in_grid_def)
  have y: "max 0 (min (real_of_int height) (real_of_int j)) = real_of_int j"
    using assms by (simp add: in_grid_def)
  have i: "c_int (min (real_of_int i) (real_of_int (width - 2))) = min i (width - 2)"
    by (metis c_int_of_int of_int_min)
  have j: "c_int (min (real_of_int j) (real_of_int (height - 2))) = min j (height - 2)"
    by (metis c_int_of_int of_int_min)
  have ci: "min i (width - 2) = i \<or> min i (width - 2) = i - 1"
    using assms by (auto simp: in_grid_def min_def)
  have cj: "min j (height - 2) = j \<or> min j (height - 2) = j - 1"
    using assms by (auto simp: in_grid_def min_def)
  show ?thesis
    unfolding linear_interpolate_v_def Let_def x y i j
    using ci cj by auto
qed

lemma length_gather16 [simp]: "length (gather16_v d width height x y) = 16"
  by (simp add: gather16_v_def)

lemma spline_interpolate_int:
  assumes "in_grid width height i j"
  shows "spline_interpolate_v d width height (real_of_int i) (real_of_int j) = d i j"
proof -
  have x: "max 0 (min (real_of_int width) (real_of_int i)) = real_of_int i"
    using assms by (simp add: in_grid_def)
  have y: "max 0 (min (real_of_int height) (real_of_int j)) = real_of_int j"
    using assms by (simp add: in_grid_def)
  show ?thesis
    unfolding spline_interpolate_v_def Let_def x y
    by (simp add: spline_cubic_0 gather16_int[OF assms])
qed

lemma monotonic_cubic_int:
  assumes "in_grid width height i j"
  shows "monotonic_cubic_v d width height (real_of_int i) (real_of_int j) = d i j"
proof -
  have x: "max 0 (min (real_of_int width) (real_of_int i)) = real_of_int i"
    using assms by (simp add: in_grid_def)
  have y: "max 0 (min (real_of_int height) (real_of_int j)) = real_of_int j"
    using assms by (simp add: in_grid_def)
  show ?thesis
    unfolding monotonic_cubic_v_def Let_def x y
    by (simp add: monotonic_cubic_4_0 gather16_int[OF assms])
qed

section \<open>Facts about clamping\<close>

lemma min4: "Min {a, b, c, e} = min (min (min a b) c) e" for a :: real
proof -
  have "Min {a, b, c, e} = min a (min b (min c e))" by simp
  then show ?thesis by (simp only: min.assoc)
qed

lemma max4: "Max {a, b, c, e} = max (max (max a b) c) e" for a :: real
proof -
  have "Max {a, b, c, e} = max a (max b (max c e))" by simp
  then show ?thesis by (simp only: max.assoc)
qed

lemma clamp4_lo:
  "Min {a, b, c, e} \<le> max (min r (max (max (max a b) c) e)) (min (min (min a b) c) e)"
  for a :: real
  unfolding min4 by (rule max.cobounded2)

lemma clamp4_hi:
  "max (min r (max (max (max a b) c) e)) (min (min (min a b) c) e) \<le> Max {a, b, c, e}"
  for a :: real
proof -
  have "min (min (min a b) c) e \<le> a" by (simp add: min.coboundedI1)
  moreover have "a \<le> max (max (max a b) c) e" by (simp add: max.coboundedI1)
  ultimately have "min (min (min a b) c) e \<le> max (max (max a b) c) e" by (rule order_trans)
  moreover have "min r (max (max (max a b) c) e) \<le> max (max (max a b) c) e"
    by (rule min.cobounded2)
  ultimately show ?thesis unfolding max4 by (rule max.boundedI[rotated])
qed

section \<open>Facts about the kernels on a zero grid\<close>

lemma kernel_int:
  "is_kernel f \<Longrightarrow> in_grid width height i j \<Longrightarrow>
   f d width height (real_of_int i) (real_of_int j) = d i j"
  unfolding is_kernel_def
  using linear_interpolate_int spline_interpolate_int monotonic_cubic_int by blast

lemma c_int_bounds:
  assumes "0 \<le> r" "r \<le> real_of_int m"
  shows "0 \<le> c_int r" "c_int r \<le> m"
proof -
  have "\<lfloor>r\<rfloor> \<le> \<lfloor>real_of_int m\<rfloor>" using assms(2) by (rule floor_mono)
  then show "0 \<le> c_int r" "c_int r \<le> m" using assms(1) by (simp_all add: c_int_nonneg)
qed

lemma linear_interpolate_zero:
  assumes "2 \<le> width" "2 \<le> height" "same_grid width height d (\<lambda>i j. 0)"
  shows "linear_interpolate_v d width height x y = 0"
proof -
  define xc where "xc = max 0 (min (real_of_int width) x)"
  define yc where "yc = max 0 (min (real_of_int height) y)"
  define i where "i = c_int (min xc (real_of_int (width - 2)))"
  define j where "j = c_int (min yc (real_of_int (height - 2)))"
  have "0 \<le> min xc (real_of_int (width - 2))" "min xc (real_of_int (width - 2)) \<le> real_of_int (width - 2)"
    using assms(1) by (simp_all add: xc_def)
  then have i: "0 \<le> i" "i \<le> width - 2" unfolding i_def by (rule c_int_bounds)+
  have "0 \<le> min yc (real_of_int (height - 2))" "min yc (real_of_int (height - 2)) \<le> real_of_int (height - 2)"
    using assms(2) by (simp_all add: yc_def)
  then have j: "0 \<le> j" "j \<le> height - 2" unfolding j_def by (rule c_int_bounds)+
  have z: "d i j = 0" "d (i + 1) j = 0" "d i (j + 1) = 0" "d (i + 1) (j + 1) = 0"
    using assms(3) i j by (simp_all add: same_grid_def in_grid_def)
  show ?thesis
    unfolding linear_interpolate_v_def Let_def xc_def[symmetric] yc_def[symmetric]
      i_def[symmetric] j_def[symmetric] z by simp
qed

lemma gather16_zero:
  assumes "1 \<le> width" "1 \<le> height" "same_grid width height d (\<lambda>i j. 0)"
  shows "gather16_v d width height x y = [0, 0, 0, 0, 0, 0, 0, 0, 0, 0, 0, 0, 0, 0, 0, 0]"
proof -
  have z: "d (min (width - 1) (max 0 a)) (min (height - 1) (max 0 b)) = 0" for a b
  proof -
    have "in_grid width height (min (width - 1) (max 0 a)) (min (height - 1) (max 0 b))"
      using assms(1,2) by (auto simp: in_grid_def min_def max_def)
    then show ?thesis using assms(3) by (simp add: same_grid_def)
  qed
  show ?thesis by (simp add: gather16_v_def Let_def z)
qed

lemma spline_cubic_zero: "spline_cubic (0 # 0 # 0 # 0 # xs) t = 0"
  by (simp add: spline_cubic_def)

lemma monotonic_cubic_4_zero: "monotonic_cubic_4 (0 # 0 # 0 # 0 # xs) t = 0"
  by (simp add: monotonic_cubic_4_def)

lemma spline_interpolate_zero:
  assumes "1 \<le> width" "1 \<le> height" "same_grid width height d (\<lambda>i j. 0)"
  shows "spline_interpolate_v d width height x y = 0"
  unfolding spline_interpolate_v_def Let_def gather16_zero[OF assms]
  by (simp add: spline_cubic_zero)

lemma monotonic_cubic_zero:
  assumes "1 \<le> width" "1 \<le> height" "same_grid width height d (\<lambda>i j. 0)"
  shows "monotonic_cubic_v d width height x y = 0"
  unfolding monotonic_cubic_v_def Let_def gather16_zero[OF assms]
  by (simp add: monotonic_cubic_4_zero)

lemma kernel_zero:
  assumes "is_kernel f" "2 \<le> width" "2 \<le> height" "same_grid width height d (\<lambda>i j. 0)"
  shows "f d width height x y = 0"
proof -
  have "1 \<le> width" "1 \<le> height" using assms(2,3) by simp_all
  then show ?thesis
    using assms linear_interpolate_zero spline_interpolate_zero monotonic_cubic_zero
    unfolding is_kernel_def by blast
qed

section \<open>Facts about traces of length zero\<close>

lemma mac_i0_int:
  assumes "0 \<le> i" "i < w"
  shows "mac_i0 w (real_of_int i) = i \<or> mac_i0 w (real_of_int i) + 1 = i"
  using assms by (cases "i \<le> w - 2") (simp_all add: mac_i0_def)

lemma mac_j0_int:
  assumes "0 \<le> j" "j < h"
  shows "mac_j0 h (real_of_int j) = j \<or> mac_j0 h (real_of_int j) + 1 = j"
  using assms by (cases "j \<le> h - 2") (simp_all add: mac_j0_def)

lemma clamp_member:
  assumes "v = a \<or> v = b \<or> v = c \<or> v = e"
  shows "max (min v (max (max (max a b) c) e)) (min (min (min a b) c) e) = (v::real)"
proof -
  have m: "min (min (min a b) c) e \<le> a" "min (min (min a b) c) e \<le> b"
    "min (min (min a b) c) e \<le> c" "min (min (min a b) c) e \<le> e"
    by (simp_all add: min_le_iff_disj)
  have M: "a \<le> max (max (max a b) c) e" "b \<le> max (max (max a b) c) e"
    "c \<le> max (max (max a b) c) e" "e \<le> max (max (max a b) c) e"
    by (simp_all add: le_max_iff_disj)
  have lo: "min (min (min a b) c) e \<le> v" using assms m by blast
  have hi: "v \<le> max (max (max a b) c) e" using assms M by blast
  show ?thesis using lo hi by (simp only: min_absorb1 max_absorb1)
qed

text \<open>A trace of length zero: the semi-Lagrangian step returns the stored value.\<close>

lemma semiLagrangian_still:
  assumes "0 < width" "in_grid width height i j" "is_kernel (interp_v (interp_func g))"
    and "dt = 0 \<or> (u 0 i j = 0 \<and> u 1 i j = 0)"
  shows "semiLagrangian_v g d d0 width height u dt i j = d0 i j"
proof -
  have x: "real_of_int i - real_of_int (gn g) * u 0 i j * dt = real_of_int i"
    using assms(4) by auto
  have y: "real_of_int j - real_of_int (gn g) * u 1 i j * dt = real_of_int j"
    using assms(4) by auto
  have "semiLagrangian_v g d d0 width height u dt i j
      = interp_v (interp_func g) d0 width height (real_of_int i) (real_of_int j)"
    unfolding semiLagrangian_v_def for_cells_apply[OF assms(1)] x y
    using assms(2) by simp
  then show ?thesis by (simp only: kernel_int[OF assms(3) assms(2)])
qed

lemma maccormack_still:
  assumes "0 < width" "in_grid width height i j" "is_kernel (interp_v (interp_func g))"
    and "dt = 0 \<or> (same_grid width height (u 0) (\<lambda>i j. 0) \<and> same_grid width height (u 1) (\<lambda>i j. 0))"
  shows "maccormack_v g d d0 width height u dt i j = d0 i j"
proof -
  have ij: "0 \<le> i" "i < width" "0 \<le> j" "j < height" using assms(2) by (simp_all add: in_grid_def)
  have z: "dt = 0 \<or> (u 0 i j = 0 \<and> u 1 i j = 0)"
    using assms(4) assms(2) by (auto simp: same_grid_def)
  have uh: "dt * real_of_int (gn g) * u 0 i j = 0" using z by auto
  have vh: "dt * real_of_int (gn g) * u 1 i j = 0" using z by auto
  have x: "mac_x g width u dt i j = real_of_int i"
    unfolding mac_x_def uh using ij by simp
  have y: "mac_y g height u dt i j = real_of_int j"
    unfolding mac_y_def vh using ij by simp
  have k: "interp_v (interp_func g) e width height (real_of_int i) (real_of_int j) = e i j" for e
    by (rule kernel_int[OF assms(3) assms(2)])
  define i0 where "i0 = mac_i0 width (real_of_int i)"
  define j0 where "j0 = mac_j0 height (real_of_int j)"
  have mem: "d0 i j = d0 i0 j0 \<or> d0 i j = d0 (i0 + 1) j0 \<or> d0 i j = d0 i0 (j0 + 1)
      \<or> d0 i j = d0 (i0 + 1) (j0 + 1)"
    using mac_i0_int[OF ij(1,2)] mac_j0_int[OF ij(3,4)] unfolding i0_def j0_def by auto
  have "maccormack_v g d d0 width height u dt i j
      = max (min (d0 i j) (max (max (max (d0 i0 j0) (d0 (i0 + 1) j0)) (d0 i0 (j0 + 1)))
           (d0 (i0 + 1) (j0 + 1))))
         (min (min (min (d0 i0 j0) (d0 (i0 + 1) j0)) (d0 i0 (j0 + 1))) (d0 (i0 + 1) (j0 + 1)))"
    unfolding maccormack_v_def for_cells_apply[OF assms(1)] Let_def x y k uh vh
      i0_def[symmetric] j0_def[symmetric]
    using assms(2) by (simp add: k)
  then show ?thesis by (simp only: clamp_member[OF mem])
qed

section \<open>Facts about the Eulerian step\<close>

lemma u_ref_in_grid:
  assumes "1 \<le> gn g"
  shows "\<exists>i' j'. in_grid (gn g + 1) (gn g) i' j' \<and> u_ref g 0 i j = gu g 0 i' j'"
    and "dir \<noteq> 0 \<Longrightarrow> \<exists>i' j'. in_grid (gn g) (gn g + 1) i' j' \<and> u_ref g dir i j = gu g 1 i' j'"
proof -
  have a: "0 \<le> max 0 (min m k) \<and> max 0 (min m k) \<le> m" if "0 \<le> m" for m k :: int
    using that by simp
  have n: "0 \<le> gn g" "0 \<le> gn g - 1" using assms by simp_all
  have "in_grid (gn g + 1) (gn g) (max 0 (min (gn g) i)) (max 0 (min (gn g - 1) j))"
    using a[OF n(1), of i] a[OF n(2), of j] by (simp add: in_grid_def)
  then show "\<exists>i' j'. in_grid (gn g + 1) (gn g) i' j' \<and> u_ref g 0 i j = gu g 0 i' j'"
    unfolding u_ref_def by auto
  assume d: "dir \<noteq> 0"
  have "in_grid (gn g) (gn g + 1) (max 0 (min (gn g - 1) i)) (max 0 (min (gn g) j))"
    using a[OF n(1), of j] a[OF n(2), of i] by (simp add: in_grid_def)
  then show "\<exists>i' j'. in_grid (gn g) (gn g + 1) i' j' \<and> u_ref g dir i j = gu g 1 i' j'"
    unfolding u_ref_def using d by auto
qed

lemma u_ref_zero:
  assumes "1 \<le> gn g" "zero_velocity (gn g) (gu g)"
  shows "u_ref g dir i j = 0"
proof (cases "dir = 0")
  case True
  obtain i' j' where "in_grid (gn g + 1) (gn g) i' j'" "u_ref g 0 i j = gu g 0 i' j'"
    using u_ref_in_grid(1)[OF assms(1)] by blast
  then show ?thesis using assms(2) True by (simp add: zero_velocity_def same_grid_def)
next
  case False
  obtain i' j' where "in_grid (gn g) (gn g + 1) i' j'" "u_ref g dir i j = gu g 1 i' j'"
    using u_ref_in_grid(2)[OF assms(1) False] by blast
  then show ?thesis using assms(2) by (simp add: zero_velocity_def same_grid_def)
qed

lemma advdiff_still: "advdiff method 0 d0 d1 d2 d3 d4 d5 d6 = 0"
  by (simp add: advdiff_def weno5_def QUICK_def)

lemma advdiff_other: "method < 0 \<Longrightarrow> advdiff method v d0 d1 d2 d3 d4 d5 d6 = 0"
  by (simp add: advdiff_def)

text \<open>The derivative grids of \<^verbatim>\<open>advect_diff\<close>, cell by cell.\<close>

lemma advect_diff_0:
  assumes "0 \<le> n" "in_grid (n + 1) n i j"
  shows "advect_diff_v g st method u c n cn out dt 0 i j =
     advdiff method (u 0 i j) (u_ref g 0 (i - 3) j) (u_ref g 0 (i - 2) j)
       (u_ref g 0 (i - 1) j) (u_ref g 0 i j) (u_ref g 0 (i + 1) j)
       (u_ref g 0 (i + 2) j) (u_ref g 0 (i + 3) j) * real_of_int n
     + advdiff method ((u_ref g 1 (i - 1) j + u_ref g 1 i j + u_ref g 1 (i - 1) (j + 1)
                      + u_ref g 1 i (j + 1)) / 4) (u_ref g 0 i (j - 3)) (u_ref g 0 i (j - 2))
       (u_ref g 0 i (j - 1)) (u_ref g 0 i j) (u_ref g 0 i (j + 1))
       (u_ref g 0 i (j + 2)) (u_ref g 0 i (j + 3)) * real_of_int n"
proof -
  have w: "0 < n + 1" using assms(1) by simp
  show ?thesis
    unfolding advect_diff_v_def Let_def FOR_EVERY_X_FLOW_def
    using assms(2) by (simp add: for_cells_apply[OF w])
qed

lemma advect_diff_1:
  assumes "0 < n" "in_grid n (n + 1) i j"
  shows "advect_diff_v g st method u c n cn out dt 1 i j =
     advdiff method ((u_ref g 0 i (j - 1) + u_ref g 0 i j + u_ref g 0 (i + 1) j
                      + u_ref g 0 (i + 1) (j - 1)) / 4)
       (u_ref g 1 (i - 3) j) (u_ref g 1 (i - 2) j)
       (u_ref g 1 (i - 1) j) (u_ref g 1 i j) (u_ref g 1 (i + 1) j)
       (u_ref g 1 (i + 2) j) (u_ref g 1 (i + 3) j) * real_of_int n
     + advdiff method (u 1 i j) (u_ref g 1 i (j - 3)) (u_ref g 1 i (j - 2))
       (u_ref g 1 i (j - 1)) (u_ref g 1 i j) (u_ref g 1 i (j + 1))
       (u_ref g 1 i (j + 2)) (u_ref g 1 i (j + 3)) * real_of_int n"
  unfolding advect_diff_v_def Let_def FOR_EVERY_Y_FLOW_def
  using assms(2) by (simp add: for_cells_apply[OF assms(1)])

lemma advect_diff_2:
  assumes "0 < cn" "in_grid cn cn i j"
  shows "advect_diff_v g st method u c n cn out dt 2 i j =
     advdiff method
       (linear_interpolate_v
          (FOR_EVERY_CELL n (\<lambda>i j. (1 / 2) * u 0 i j + (1 / 2) * u 0 (i + 1) j) (st_diff_up st 0))
          n n (real_of_int (i * n) / real_of_int cn) (real_of_int (j * n) / real_of_int cn))
       (c_ref g (i - 3) j) (c_ref g (i - 2) j) (c_ref g (i - 1) j)
       (c_ref g i j) (c_ref g (i + 1) j) (c_ref g (i + 2) j) (c_ref g (i + 3) j)
       * real_of_int cn
     + advdiff method
       (linear_interpolate_v
          (FOR_EVERY_CELL n (\<lambda>i j. (1 / 2) * u 1 i j + (1 / 2) * u 1 i (j + 1)) (st_diff_up st 1))
          n n (real_of_int (i * n) / real_of_int cn) (real_of_int (j * n) / real_of_int cn))
       (c_ref g i (j - 3)) (c_ref g i (j - 2)) (c_ref g i (j - 1))
       (c_ref g i j) (c_ref g i (j + 1)) (c_ref g i (j + 2)) (c_ref g i (j + 3))
       * real_of_int cn"
  unfolding advect_diff_v_def Let_def FOR_EVERY_CELL_def
  using assms(2) by (simp add: for_cells_apply[OF assms(1)])

text \<open>
  \<^verbatim>\<open>advect_diff\<close> never reads its parameter \<^verbatim>\<open>c\<close>: the concentration is read by \<^verbatim>\<open>c_ref\<close>
  through the global \<^verbatim>\<open>gc\<close>.
\<close>

lemma advect_diff_ignores_c:
  "advect_diff g st meth u c n cn out dt = advect_diff g st meth u c' n cn out dt"
  by (simp add: advect_diff_def)

lemma same_grid_refl [simp]: "same_grid w h a a"
  by (simp add: same_grid_def)

lemma same_gridD: "same_grid w h a b \<Longrightarrow> in_grid w h i j \<Longrightarrow> a i j = b i j"
  by (simp add: same_grid_def)

lemma for_cells_zero:
  assumes "0 < w" "\<And>i j. in_grid w h i j \<Longrightarrow> body i j = 0"
  shows "same_grid w h (for_cells w h body d) (\<lambda>i j. 0)"
  unfolding same_grid_def using assms(2) by (simp add: for_cells_apply[OF assms(1)])

lemma up_zero:
  assumes "1 \<le> n" "zero_velocity n u"
  shows "same_grid n n (FOR_EVERY_CELL n (\<lambda>i j. (1 / 2) * u 0 i j + (1 / 2) * u 0 (i + 1) j) d)
           (\<lambda>i j. 0)"
    and "same_grid n n (FOR_EVERY_CELL n (\<lambda>i j. (1 / 2) * u 1 i j + (1 / 2) * u 1 i (j + 1)) e)
           (\<lambda>i j. 0)"
proof -
  have n: "0 < n" using assms(1) by simp
  have a: "u 0 i j = 0 \<and> u 0 (i + 1) j = 0 \<and> u 1 i j = 0 \<and> u 1 i (j + 1) = 0"
    if "in_grid n n i j" for i j
  proof -
    have "in_grid (n + 1) n i j" "in_grid (n + 1) n (i + 1) j" "in_grid n (n + 1) i j"
      "in_grid n (n + 1) i (j + 1)"
      using that by (simp_all add: in_grid_def)
    then show ?thesis using assms(2) by (simp add: zero_velocity_def same_grid_def)
  qed
  show "same_grid n n (FOR_EVERY_CELL n (\<lambda>i j. (1 / 2) * u 0 i j + (1 / 2) * u 0 (i + 1) j) d)
           (\<lambda>i j. 0)"
    unfolding FOR_EVERY_CELL_def by (rule for_cells_zero[OF n]) (use a in simp)
  show "same_grid n n (FOR_EVERY_CELL n (\<lambda>i j. (1 / 2) * u 1 i j + (1 / 2) * u 1 i (j + 1)) e)
           (\<lambda>i j. 0)"
    unfolding FOR_EVERY_CELL_def by (rule for_cells_zero[OF n]) (use a in simp)
qed

lemma advect_diff_zero:
  assumes "2 \<le> n" "1 \<le> cn" "gn g = n" "zero_velocity n (gu g)" "zero_velocity n u"
  shows "zero_deriv n cn (advect_diff_v g st method u c n cn out dt)"
proof -
  have n: "0 \<le> n" "0 < n" "1 \<le> gn g" "0 < cn" "2 \<le> n" using assms(1,2,3) by simp_all
  have zg: "zero_velocity (gn g) (gu g)" using assms(3,4) by simp
  have r: "u_ref g dir i j = 0" for dir i j by (rule u_ref_zero[OF n(3) zg])
  have "advect_diff_v g st method u c n cn out dt 0 i j = 0" if "in_grid (n + 1) n i j" for i j
  proof -
    have "u 0 i j = 0" using assms(5) that by (simp add: zero_velocity_def same_grid_def)
    then show ?thesis unfolding advect_diff_0[OF n(1) that] r by (simp add: advdiff_still)
  qed
  moreover have "advect_diff_v g st method u c n cn out dt 1 i j = 0" if "in_grid n (n + 1) i j" for i j
  proof -
    have "u 1 i j = 0" using assms(5) that by (simp add: zero_velocity_def same_grid_def)
    then show ?thesis unfolding advect_diff_1[OF n(2) that] r by (simp add: advdiff_still)
  qed
  moreover have "advect_diff_v g st method u c n cn out dt 2 i j = 0" if "in_grid cn cn i j" for i j
  proof -
    have n1: "1 \<le> n" using assms(1) by simp
    have l0: "linear_interpolate_v (FOR_EVERY_CELL n
        (\<lambda>i j. (1 / 2) * u 0 i j + (1 / 2) * u 0 (i + 1) j) (st_diff_up st 0)) n n x y = 0" for x y
      by (rule linear_interpolate_zero[OF n(5) n(5) up_zero(1)[OF n1 assms(5)]])
    have l1: "linear_interpolate_v (FOR_EVERY_CELL n
        (\<lambda>i j. (1 / 2) * u 1 i j + (1 / 2) * u 1 i (j + 1)) (st_diff_up st 1)) n n x y = 0" for x y
      by (rule linear_interpolate_zero[OF n(5) n(5) up_zero(2)[OF n1 assms(5)]])
    show ?thesis unfolding advect_diff_2[OF n(4) that] l0 l1 advdiff_still by simp
  qed
  ultimately show ?thesis by (simp add: zero_deriv_def same_grid_def)
qed

section \<open>Facts about the integrators\<close>

lemma op2D_zero:
  assumes "w \<le> m" "h \<le> m" "same_grid w h a (\<lambda>i j. 0)" "same_grid w h k (\<lambda>i j. 0)"
  shows "same_grid w h (op2D out a k ca b m) (\<lambda>i j. 0)"
  using assms by (simp add: same_grid_def op2D_def in_grid_def)

lemma op2D_acc:
  assumes "w \<le> m" "h \<le> m" "same_grid w h k (\<lambda>i j. 0)" "same_grid w h a x"
  shows "same_grid w h (op2D a a k 1 b m) x"
  using assms by (simp add: same_grid_def op2D_def in_grid_def)

lemma op2D_dt0 [simp]: "op2D a a k 1 0 m = a"
  by (simp add: op2D_def fun_eq_iff)

lemma tmp_zero_velocity:
  assumes "0 \<le> n" "zero_velocity n u" "zero_deriv n cn k"
  shows "zero_velocity n (modified_euler_tmp tmp u c k n cn dt)"
    and "zero_velocity n (runge_kutta_tmp1 tmp u c k n cn dt)"
    and "zero_velocity n (runge_kutta_tmp2 tmp u c k n cn dt)"
    and "zero_velocity n (runge_kutta_tmp3 tmp u c k n cn dt)"
proof -
  have a: "same_grid (n + 1) n (op2D o0 (u 0) (k 0) ca b (n + 1)) (\<lambda>i j. 0)" for o0 ca b
    using assms by (intro op2D_zero) (simp_all add: zero_velocity_def zero_deriv_def)
  have b: "same_grid n (n + 1) (op2D o1 (u 1) (k 1) ca b (n + 1)) (\<lambda>i j. 0)" for o1 ca b
    using assms by (intro op2D_zero) (simp_all add: zero_velocity_def zero_deriv_def)
  show "zero_velocity n (modified_euler_tmp tmp u c k n cn dt)"
    unfolding zero_velocity_def modified_euler_tmp_def Let_def using a b by simp
  show "zero_velocity n (runge_kutta_tmp1 tmp u c k n cn dt)"
    unfolding zero_velocity_def runge_kutta_tmp1_def Let_def using a b by simp
  show "zero_velocity n (runge_kutta_tmp2 tmp u c k n cn dt)"
    unfolding zero_velocity_def runge_kutta_tmp2_def Let_def using a b by simp
  show "zero_velocity n (runge_kutta_tmp3 tmp u c k n cn dt)"
    unfolding zero_velocity_def runge_kutta_tmp3_def Let_def using a b by simp
qed

lemma forward_euler_update_zero:
  assumes "0 \<le> n" "zero_deriv n cn k0"
  shows "same_fields n cn (forward_euler_update u c k0 n cn dt) (u, c)"
proof -
  have k: "same_grid (n + 1) n (k0 0) (\<lambda>i j. 0)" "same_grid n (n + 1) (k0 1) (\<lambda>i j. 0)"
    "same_grid cn cn (k0 2) (\<lambda>i j. 0)" using assms(2) by (simp_all add: zero_deriv_def)
  have le: "n + 1 \<le> n + 1" "n \<le> n + 1" "cn \<le> cn" by simp_all
  show ?thesis
    unfolding same_fields_def forward_euler_update_def Let_def
    by (simp del: One_nat_def add: op2D_acc[OF le(1) le(2) k(1)] op2D_acc[OF le(2) le(1) k(2)]
        op2D_acc[OF le(3) le(3) k(3)])
qed

lemma modified_euler_update_zero:
  assumes "0 \<le> n" "zero_deriv n cn k0" "zero_deriv n cn k1"
  shows "same_fields n cn (modified_euler_update u c k0 k1 n cn dt) (u, c)"
proof -
  have k: "same_grid (n + 1) n (k0 0) (\<lambda>i j. 0)" "same_grid n (n + 1) (k0 1) (\<lambda>i j. 0)"
    "same_grid cn cn (k0 2) (\<lambda>i j. 0)" using assms(2) by (simp_all add: zero_deriv_def)
  have k': "same_grid (n + 1) n (k1 0) (\<lambda>i j. 0)" "same_grid n (n + 1) (k1 1) (\<lambda>i j. 0)"
    "same_grid cn cn (k1 2) (\<lambda>i j. 0)" using assms(3) by (simp_all add: zero_deriv_def)
  have le: "n + 1 \<le> n + 1" "n \<le> n + 1" "cn \<le> cn" by simp_all
  show ?thesis
    unfolding same_fields_def modified_euler_update_def Let_def
    by (simp del: One_nat_def add: op2D_acc[OF le(1) le(2) k(1)] op2D_acc[OF le(2) le(1) k(2)]
        op2D_acc[OF le(3) le(3) k(3)] op2D_acc[OF le(1) le(2) k'(1)]
        op2D_acc[OF le(2) le(1) k'(2)] op2D_acc[OF le(3) le(3) k'(3)])
qed

lemma runge_kutta_update_zero:
  assumes "0 \<le> n" "zero_deriv n cn k0" "zero_deriv n cn k1" "zero_deriv n cn k2"
    "zero_deriv n cn k3"
  shows "same_fields n cn (runge_kutta_update u c k0 k1 k2 k3 n cn dt) (u, c)"
proof -
  have k: "same_grid (n + 1) n (k 0) (\<lambda>i j. 0)" "same_grid n (n + 1) (k 1) (\<lambda>i j. 0)"
    "same_grid cn cn (k 2) (\<lambda>i j. 0)" if "zero_deriv n cn k" for k
    using that by (simp_all add: zero_deriv_def)
  have le: "n + 1 \<le> n + 1" "n \<le> n + 1" "cn \<le> cn" by simp_all
  note r = op2D_acc[OF le(1) le(2) k(1)] op2D_acc[OF le(2) le(1) k(2)]
        op2D_acc[OF le(3) le(3) k(3)]
  show ?thesis
    unfolding same_fields_def runge_kutta_update_def Let_def
    by (simp del: One_nat_def add: r[OF assms(2)] r[OF assms(3)] r[OF assms(4)] r[OF assms(5)])
qed

lemma update_dt0:
  "forward_euler_update u c k0 n cn 0 = (u, c)"
  "modified_euler_update u c k0 k1 n cn 0 = (u, c)"
  "runge_kutta_update u c k0 k1 k2 k3 n cn 0 = (u, c)"
  by (simp_all add: forward_euler_update_def modified_euler_update_def runge_kutta_update_def)

section \<open>Facts about a zero velocity\<close>

lemma advect_step_euler:
  "method < 3 \<Longrightarrow>
   advect_step_v g st method u c n cn out dt = (g, advect_diff_v g st method u c n cn out dt)"
  by (simp add: advect_step_v_def)

lemma advect_step_semilag:
  "\<not> method < 3 \<Longrightarrow>
   advect_step_v g st method u c n cn out dt = advect_semiLagrangian_v g st method u c n cn out dt"
  by (simp add: advect_step_v_def)

lemma eulerian_zero_velocity:
  assumes "method < 3" "2 \<le> n" "1 \<le> cn" "zero_velocity n u"
  shows "same_fields n cn (advect_v st method interp integrator u c n cn dt) (u, c)"
proof -
  define g where "g = \<lparr>gu = u, gc = c, gn = n, gcn = cn,
      interp_func = (if interp = 0 then Linear
                     else if interp = 1 then Spline else MonotonicCubic)\<rparr>"
  have gg: "gn g = n" "zero_velocity n (gu g)" using assms(4) by (simp_all add: g_def)
  have n0: "0 \<le> n" using assms(2) by simp
  have ad: "zero_deriv n cn (advect_diff_v g st method v cc n cn oo dt)"
    if "zero_velocity n v" for v cc oo
    by (rule advect_diff_zero[OF assms(2,3) gg that])
  have fe: "same_fields n cn (forward_euler_v g st method u c n cn dt) (u, c)"
    unfolding forward_euler_v_def Let_def advect_step_euler[OF assms(1)] snd_conv
    by (intro forward_euler_update_zero ad n0 assms(4))
  have me: "same_fields n cn (modified_euler_v g st method u c n cn dt) (u, c)"
    unfolding modified_euler_v_def Let_def advect_step_euler[OF assms(1)] snd_conv fst_conv
    by (intro modified_euler_update_zero ad tmp_zero_velocity n0 assms(4))
  have rk: "same_fields n cn (runge_kutta_v g st method u c n cn dt) (u, c)"
    unfolding runge_kutta_v_def Let_def advect_step_euler[OF assms(1)] snd_conv fst_conv
    by (intro runge_kutta_update_zero ad tmp_zero_velocity n0 assms(4))
  have "advect_v st method interp integrator u c n cn dt =
      (if integrator = 0 then forward_euler_v g st method u c n cn dt
       else if integrator = 1 then modified_euler_v g st method u c n cn dt
       else if integrator = 2 then runge_kutta_v g st method u c n cn dt
       else (u, c))"
    unfolding advect_v_def Let_def g_def using assms(1) by simp
  then show ?thesis using fe me rk by (simp add: same_fields_def)
qed

lemma sl_ux_zero:
  assumes "1 \<le> n" "gn g = n" "zero_velocity n (gu g)" "zero_velocity n u"
  shows "same_grid (n + 1) n (sl_ux g st u n 0) (\<lambda>i j. 0)"
    and "same_grid (n + 1) n (sl_ux g st u n 1) (\<lambda>i j. 0)"
proof -
  have w: "0 < n + 1" using assms(1) by simp
  have zg: "zero_velocity (gn g) (gu g)" "1 \<le> gn g" using assms(1,2,3) by simp_all
  have r: "u_ref g dir i j = 0" for dir i j by (rule u_ref_zero[OF zg(2) zg(1)])
  have "sl_ux g st u n 0 = for_cells (n + 1) n (\<lambda>i j. u 0 i j) (st_ux st 0)"
    by (simp add: sl_ux_def FOR_EVERY_X_FLOW_def)
  moreover have "same_grid (n + 1) n (for_cells (n + 1) n (\<lambda>i j. u 0 i j) (st_ux st 0)) (\<lambda>i j. 0)"
    by (rule for_cells_zero[OF w]) (use assms(4) in \<open>simp add: zero_velocity_def same_grid_def\<close>)
  ultimately show "same_grid (n + 1) n (sl_ux g st u n 0) (\<lambda>i j. 0)" by simp
  have "sl_ux g st u n 1 = for_cells (n + 1) n (\<lambda>i j. 0) (st_ux st 1)"
    by (simp add: sl_ux_def FOR_EVERY_X_FLOW_def r)
  moreover have "same_grid (n + 1) n (for_cells (n + 1) n (\<lambda>i j. 0) (st_ux st 1)) (\<lambda>i j. 0)"
    by (rule for_cells_zero[OF w]) simp
  ultimately show "same_grid (n + 1) n (sl_ux g st u n 1) (\<lambda>i j. 0)" by simp
qed

lemma sl_uy_zero:
  assumes "1 \<le> n" "gn g = n" "zero_velocity n (gu g)" "zero_velocity n u"
  shows "same_grid n (n + 1) (sl_uy g st u n 0) (\<lambda>i j. 0)"
    and "same_grid n (n + 1) (sl_uy g st u n 1) (\<lambda>i j. 0)"
proof -
  have w: "0 < n" using assms(1) by simp
  have zg: "zero_velocity (gn g) (gu g)" "1 \<le> gn g" using assms(1,2,3) by simp_all
  have r: "u_ref g dir i j = 0" for dir i j by (rule u_ref_zero[OF zg(2) zg(1)])
  have "sl_uy g st u n 0 = for_cells n (n + 1) (\<lambda>i j. 0) (st_uy st 0)"
    by (simp add: sl_uy_def FOR_EVERY_Y_FLOW_def r)
  moreover have "same_grid n (n + 1) (for_cells n (n + 1) (\<lambda>i j. 0) (st_uy st 0)) (\<lambda>i j. 0)"
    by (rule for_cells_zero[OF w]) simp
  ultimately show "same_grid n (n + 1) (sl_uy g st u n 0) (\<lambda>i j. 0)" by simp
  have "sl_uy g st u n 1 = for_cells n (n + 1) (\<lambda>i j. u 1 i j) (st_uy st 1)"
    by (simp add: sl_uy_def FOR_EVERY_Y_FLOW_def)
  moreover have "same_grid n (n + 1) (for_cells n (n + 1) (\<lambda>i j. u 1 i j) (st_uy st 1)) (\<lambda>i j. 0)"
    by (rule for_cells_zero[OF w]) (use assms(4) in \<open>simp add: zero_velocity_def same_grid_def\<close>)
  ultimately show "same_grid n (n + 1) (sl_uy g st u n 1) (\<lambda>i j. 0)" by simp
qed

lemma sl_uc_zero:
  assumes "2 \<le> n" "1 \<le> cn" "is_kernel (interp_v (interp_func g))" "zero_velocity n u"
  shows "same_grid cn cn (sl_uc_v g st (sl_up st u n) n cn 0) (\<lambda>i j. 0)"
    and "same_grid cn cn (sl_uc_v g st (sl_up st u n) n cn 1) (\<lambda>i j. 0)"
proof -
  have w: "0 < cn" "1 \<le> n" using assms(1,2) by simp_all
  have up0: "same_grid n n (sl_up st u n 0) (\<lambda>i j. 0)"
    using up_zero(1)[OF w(2) assms(4), of "st_up st 0"] by (simp add: sl_up_def)
  have up1: "same_grid n n (sl_up st u n 1) (\<lambda>i j. 0)"
    using up_zero(2)[OF w(2) assms(4), of "st_up st 1"] by (simp add: sl_up_def)
  have k0: "interp_v (interp_func g) (sl_up st u n 0) n n x y = 0" for x y
    by (rule kernel_zero[OF assms(3) assms(1) assms(1) up0])
  have k1: "interp_v (interp_func g) (sl_up st u n 1) n n x y = 0" for x y
    by (rule kernel_zero[OF assms(3) assms(1) assms(1) up1])
  have "sl_uc_v g st (sl_up st u n) n cn 0 = for_cells cn cn (\<lambda>i j. 0) (st_uc st 0)"
    unfolding sl_uc_v_def FOR_EVERY_CELL_def Let_def k0 by simp
  moreover have "same_grid cn cn (for_cells cn cn (\<lambda>i j. 0) (st_uc st 0)) (\<lambda>i j. 0)"
    by (rule for_cells_zero[OF w(1)]) simp
  ultimately show "same_grid cn cn (sl_uc_v g st (sl_up st u n) n cn 0) (\<lambda>i j. 0)" by simp
  have "sl_uc_v g st (sl_up st u n) n cn 1 = for_cells cn cn (\<lambda>i j. 0) (st_uc st 1)"
    unfolding sl_uc_v_def FOR_EVERY_CELL_def Let_def k1 by simp
  moreover have "same_grid cn cn (for_cells cn cn (\<lambda>i j. 0) (st_uc st 1)) (\<lambda>i j. 0)"
    by (rule for_cells_zero[OF w(1)]) simp
  ultimately show "same_grid cn cn (sl_uc_v g st (sl_up st u n) n cn 1) (\<lambda>i j. 0)" by simp
qed

lemma still_grid:
  assumes "0 < w" "is_kernel (interp_v (interp_func g))"
    and "dt = 0 \<or> (same_grid w h (U 0) (\<lambda>i j. 0) \<and> same_grid w h (U 1) (\<lambda>i j. 0))"
  shows "same_grid w h (semiLagrangian_v g d d0 w h U dt) d0"
    and "same_grid w h (maccormack_v g d d0 w h U dt) d0"
proof -
  have "semiLagrangian_v g d d0 w h U dt i j = d0 i j" if "in_grid w h i j" for i j
  proof -
    have "dt = 0 \<or> (U 0 i j = 0 \<and> U 1 i j = 0)"
      using assms(3) that by (auto simp: same_grid_def)
    then show ?thesis by (rule semiLagrangian_still[OF assms(1) that assms(2)])
  qed
  then show "same_grid w h (semiLagrangian_v g d d0 w h U dt) d0" by (simp add: same_grid_def)
  have "maccormack_v g d d0 w h U dt i j = d0 i j" if "in_grid w h i j" for i j
    by (rule maccormack_still[OF assms(1) that assms(2) assms(3)])
  then show "same_grid w h (maccormack_v g d d0 w h U dt) d0" by (simp add: same_grid_def)
qed

lemma is_kernel_simps [simp]:
  "is_kernel linear_interpolate_v" "is_kernel spline_interpolate_v" "is_kernel monotonic_cubic_v"
  by (simp_all add: is_kernel_def)

lemma advect_semiLagrangian_still:
  assumes "1 \<le> n" "1 \<le> cn" "is_kernel (interp_v (interp_func g0))"
    and "dt = 0 \<or> (2 \<le> n \<and> gn g0 = n \<and> zero_velocity n (gu g0) \<and> zero_velocity n u)"
  shows "same_fields n cn
           (snd (advect_semiLagrangian_v g0 st method u c n cn out dt), snd (advect_semiLagrangian_v g0 st method u c n cn out dt) 2)
           (u, c)"
proof -
  define g where "g = (if method = 4 then g0\<lparr>interp_func := Spline\<rparr> else g0)"
  have gk: "is_kernel (interp_v (interp_func g))" using assms(3) by (simp add: g_def)
  have gg: "gn g = gn g0" "gu g = gu g0" by (simp_all add: g_def)
  have w: "0 < n + 1" "0 < n" "0 < cn" using assms(1,2) by simp_all
  have cx: "dt = 0 \<or> (same_grid (n + 1) n (sl_ux g st u n 0) (\<lambda>i j. 0)
      \<and> same_grid (n + 1) n (sl_ux g st u n 1) (\<lambda>i j. 0))"
    using assms(4) sl_ux_zero[OF assms(1), of g u st] gg by auto
  have cy: "dt = 0 \<or> (same_grid n (n + 1) (sl_uy g st u n 0) (\<lambda>i j. 0)
      \<and> same_grid n (n + 1) (sl_uy g st u n 1) (\<lambda>i j. 0))"
    using assms(4) sl_uy_zero[OF assms(1), of g u st] gg by auto
  have cc: "dt = 0 \<or> (same_grid cn cn (sl_uc_v g st (sl_up st u n) n cn 0) (\<lambda>i j. 0)
      \<and> same_grid cn cn (sl_uc_v g st (sl_up st u n) n cn 1) (\<lambda>i j. 0))"
    using assms(4) sl_uc_zero[OF _ assms(2) gk, of n u st] by auto
  have eq: "snd (advect_semiLagrangian_v g0 st method u c n cn out dt) =
      (if method = 4 then
         out(0 := maccormack_v g (out 0) (u 0) (n + 1) n (sl_ux g st u n) dt,
             1 := maccormack_v g (out 1) (u 1) n (n + 1) (sl_uy g st u n) dt,
             2 := maccormack_v g (out 2) c cn cn (sl_uc_v g st (sl_up st u n) n cn) dt)
       else
         out(0 := semiLagrangian_v g (out 0) (u 0) (n + 1) n (sl_ux g st u n) dt,
             1 := semiLagrangian_v g (out 1) (u 1) n (n + 1) (sl_uy g st u n) dt,
             2 := semiLagrangian_v g (out 2) c cn cn (sl_uc_v g st (sl_up st u n) n cn) dt))"
    by (simp add: advect_semiLagrangian_v_def Let_def g_def)
  show ?thesis
    unfolding eq same_fields_def
    using still_grid[OF w(1) gk cx] still_grid[OF w(2) gk cy] still_grid[OF w(3) gk cc]
    by (simp del: One_nat_def)
qed

lemma copy2D_same:
  assumes "w \<le> m" "h \<le> m" "same_grid w h src x"
  shows "same_grid w h (copy2D dst src m) x"
  using assms by (simp add: same_grid_def copy2D_def in_grid_def)

lemma semilag_unchanged:
  assumes "\<not> method < 3" "1 \<le> n" "1 \<le> cn"
    and "dt = 0 \<or> (2 \<le> n \<and> zero_velocity n u)"
  shows "same_fields n cn (advect_v st method interp integrator u c n cn dt) (u, c)"
proof -
  define g where "g = \<lparr>gu = u, gc = c, gn = n, gcn = cn,
      interp_func = (if interp = 0 then Linear
                     else if interp = 1 then Spline else MonotonicCubic)\<rparr>"
  define k0 where "k0 = snd (advect_semiLagrangian_v g st method u c n cn (st_k st 0) dt)"
  have gk: "is_kernel (interp_v (interp_func g))" by (simp add: g_def)
  have c: "dt = 0 \<or> (2 \<le> n \<and> gn g = n \<and> zero_velocity n (gu g) \<and> zero_velocity n u)"
    using assms(4) by (auto simp: g_def)
  have s: "same_fields n cn (k0, k0 2) (u, c)"
    unfolding k0_def by (rule advect_semiLagrangian_still[OF assms(2,3) gk c])
  have eq: "advect_v st method interp integrator u c n cn dt =
      (u(0 := copy2D (u 0) (k0 0) (n + 1), 1 := copy2D (u 1) (k0 1) (n + 1)),
       copy2D c (k0 2) cn)"
    unfolding advect_v_def Let_def k0_def g_def advect_step_semilag[OF assms(1)]
    using assms(1) by simp
  have le: "n + 1 \<le> n + 1" "n \<le> n + 1" "cn \<le> cn" by simp_all
  show ?thesis
    unfolding eq same_fields_def using s
    by (simp del: One_nat_def add: same_fields_def copy2D_same[OF le(1) le(2)]
        copy2D_same[OF le(2) le(1)] copy2D_same[OF le(3) le(3)])
qed

lemma eulerian_dt0:
  assumes "method < 3"
  shows "advect_v st method interp integrator u c n cn 0 = (u, c)"
  unfolding advect_v_def Let_def forward_euler_v_def modified_euler_v_def runge_kutta_v_def
  using assms by (simp add: update_dt0)

lemma op2D_apply:
  "in_grid m m i j \<Longrightarrow> op2D out a k ca b m i j = ca * a i j + b * k i j"
  by (simp add: op2D_def in_grid_def)

section \<open>Facts about invalid selectors\<close>

lemma advect_diff_other:
  assumes "method < 0" "1 \<le> n" "1 \<le> cn"
  shows "zero_deriv n cn (advect_diff_v g st method u c n cn out dt)"
proof -
  have n: "0 \<le> n" "0 < n" "0 < cn" using assms(2,3) by simp_all
  have a: "advdiff method v d0 d1 d2 d3 d4 d5 d6 = 0" for v d0 d1 d2 d3 d4 d5 d6
    using assms(1) by (rule advdiff_other)
  have "advect_diff_v g st method u c n cn out dt 0 i j = 0" if "in_grid (n + 1) n i j" for i j
    unfolding advect_diff_0[OF n(1) that] a by simp
  moreover have "advect_diff_v g st method u c n cn out dt 1 i j = 0" if "in_grid n (n + 1) i j" for i j
    unfolding advect_diff_1[OF n(2) that] a by simp
  moreover have "advect_diff_v g st method u c n cn out dt 2 i j = 0" if "in_grid cn cn i j" for i j
    unfolding advect_diff_2[OF n(3) that] a by simp
  ultimately show ?thesis by (simp add: zero_deriv_def same_grid_def)
qed

lemma negative_method_unchanged:
  assumes "method < 0" "1 \<le> n" "1 \<le> cn"
  shows "same_fields n cn (advect_v st method interp integrator u c n cn dt) (u, c)"
proof -
  define g where "g = \<lparr>gu = u, gc = c, gn = n, gcn = cn,
      interp_func = (if interp = 0 then Linear
                     else if interp = 1 then Spline else MonotonicCubic)\<rparr>"
  have m: "method < 3" using assms(1) by simp
  have n0: "0 \<le> n" using assms(2) by simp
  have ad: "zero_deriv n cn (advect_diff_v g st method v cc n cn oo dt)" for v cc oo
    by (rule advect_diff_other[OF assms])
  have fe: "same_fields n cn (forward_euler_v g st method u c n cn dt) (u, c)"
    unfolding forward_euler_v_def Let_def advect_step_euler[OF m] snd_conv
    by (intro forward_euler_update_zero ad n0)
  have me: "same_fields n cn (modified_euler_v g st method u c n cn dt) (u, c)"
    unfolding modified_euler_v_def Let_def advect_step_euler[OF m] snd_conv fst_conv
    by (intro modified_euler_update_zero ad n0)
  have rk: "same_fields n cn (runge_kutta_v g st method u c n cn dt) (u, c)"
    unfolding runge_kutta_v_def Let_def advect_step_euler[OF m] snd_conv fst_conv
    by (intro runge_kutta_update_zero ad n0)
  have "advect_v st method interp integrator u c n cn dt =
      (if integrator = 0 then forward_euler_v g st method u c n cn dt
       else if integrator = 1 then modified_euler_v g st method u c n cn dt
       else if integrator = 2 then runge_kutta_v g st method u c n cn dt
       else (u, c))"
    unfolding advect_v_def Let_def g_def using m by simp
  then show ?thesis using fe me rk by (simp add: same_fields_def)
qed

section \<open>Facts about uniform fields\<close>

lemma upwind_flat: "d2 = d3 \<Longrightarrow> d3 = d4 \<Longrightarrow> advdiff 0 v d0 d1 d2 d3 d4 d5 d6 = 0"
  by (simp add: advdiff_def)

lemma u_ref_uniform:
  assumes "1 \<le> gn g"
  shows "same_grid (gn g + 1) (gn g) (gu g 0) (\<lambda>i j. a) \<Longrightarrow> u_ref g 0 i j = a"
    and "same_grid (gn g) (gn g + 1) (gu g 1) (\<lambda>i j. a) \<Longrightarrow> u_ref g 1 i j = a"
proof -
  assume s: "same_grid (gn g + 1) (gn g) (gu g 0) (\<lambda>i j. a)"
  obtain i' j' where "in_grid (gn g + 1) (gn g) i' j'" "u_ref g 0 i j = gu g 0 i' j'"
    using u_ref_in_grid(1)[OF assms] by blast
  then show "u_ref g 0 i j = a" using s by (simp add: same_grid_def)
next
  assume s: "same_grid (gn g) (gn g + 1) (gu g 1) (\<lambda>i j. a)"
  have "(1::int) \<noteq> 0" by simp
  then obtain i' j' where "in_grid (gn g) (gn g + 1) i' j'" "u_ref g 1 i j = gu g 1 i' j'"
    using u_ref_in_grid(2)[OF assms] by blast
  then show "u_ref g 1 i j = a" using s by (simp add: same_grid_def)
qed

lemma c_ref_uniform:
  assumes "same_grid (gcn g) (gcn g) (gc g) (\<lambda>i j. a)" "in_grid (gcn g) (gcn g) i j"
  shows "c_ref g i j = a"
  using assms by (auto simp: c_ref_def same_grid_def in_grid_def)

section \<open>Facts about the kernels beyond the last column\<close>

lemma clamp_idem: "max 0 (min w (max 0 (min w x))) = max (0::real) (min w x)"
  by (simp add: min_def max_def)

lemma gather16_rows:
  "gather16_v d w h x y =
     [d (stencil_index w x 0) (stencil_index h y 0), d (stencil_index w x 1) (stencil_index h y 0),
      d (stencil_index w x 2) (stencil_index h y 0), d (stencil_index w x 3) (stencil_index h y 0),
      d (stencil_index w x 0) (stencil_index h y 1), d (stencil_index w x 1) (stencil_index h y 1),
      d (stencil_index w x 2) (stencil_index h y 1), d (stencil_index w x 3) (stencil_index h y 1),
      d (stencil_index w x 0) (stencil_index h y 2), d (stencil_index w x 1) (stencil_index h y 2),
      d (stencil_index w x 2) (stencil_index h y 2), d (stencil_index w x 3) (stencil_index h y 2),
      d (stencil_index w x 0) (stencil_index h y 3), d (stencil_index w x 1) (stencil_index h y 3),
      d (stencil_index w x 2) (stencil_index h y 3), d (stencil_index w x 3) (stencil_index h y 3)]"
  by (simp add: gather16_v_def stencil_index_def)

lemma edge_index:
  assumes "1 \<le> w" "real_of_int (w - 1) \<le> x"
  shows "stencil_index w (max 0 (min (real_of_int w) x)) 1 = w - 1"
    and "stencil_index w (max 0 (min (real_of_int w) x)) 2 = w - 1"
    and "stencil_index w (max 0 (min (real_of_int w) x)) 3 = w - 1"
proof -
  define xc where "xc = max 0 (min (real_of_int w) x)"
  have "real_of_int (w - 1) \<le> xc" "0 \<le> xc" using assms by (simp_all add: xc_def)
  then have "w - 1 \<le> c_int xc" by (simp add: c_int_nonneg le_floor_iff)
  then show "stencil_index w (max 0 (min (real_of_int w) x)) 1 = w - 1"
    and "stencil_index w (max 0 (min (real_of_int w) x)) 2 = w - 1"
    and "stencil_index w (max 0 (min (real_of_int w) x)) 3 = w - 1"
    using assms(1) unfolding xc_def[symmetric] stencil_index_def by simp_all
qed

lemma spline_cubic_flat: "a ! 1 = a ! 2 \<Longrightarrow> spline_cubic a t = a ! 1"
  by (simp add: spline_cubic_def Let_def)

lemma monotonic_cubic_4_flat: "a ! 1 = a ! 2 \<Longrightarrow> monotonic_cubic_4 a t = a ! 1"
  by (simp add: monotonic_cubic_4_def Let_def)

lemma spline_cubic_cong:
  assumes "a ! 0 = b ! 0" "a ! 1 = b ! 1" "a ! 2 = b ! 2" "a ! 3 = b ! 3"
  shows "spline_cubic a t = spline_cubic b t"
  unfolding spline_cubic_def assms ..

lemma monotonic_cubic_4_cong:
  assumes "a ! 0 = b ! 0" "a ! 1 = b ! 1" "a ! 2 = b ! 2" "a ! 3 = b ! 3"
  shows "monotonic_cubic_4 a t = monotonic_cubic_4 b t"
  unfolding monotonic_cubic_4_def assms ..

text \<open>
  Beyond the last column every row of the neighbourhood is flat between its two central
  samples, so a 1D kernel that returns the central sample on such a row makes the 2D
  kernel independent of \<open>x\<close>.
\<close>

lemma right_edge_rows:
  assumes flat: "\<And>a t. a ! 1 = a ! 2 \<Longrightarrow> f1 a t = a ! 1"
    and "1 \<le> w" "real_of_int (w - 1) \<le> x"
  shows "map (\<lambda>j. f1 (drop (4 * j) (gather16_v d w h (max 0 (min (real_of_int w) x)) yc)) t) [0, 1, 2, 3]
       = [d (w - 1) (stencil_index h yc 0), d (w - 1) (stencil_index h yc 1),
          d (w - 1) (stencil_index h yc 2), d (w - 1) (stencil_index h yc 3)]"
  unfolding gather16_rows edge_index[OF assms(2,3)]
  by (simp add: flat)

lemma top_edge_rows:
  assumes flat: "\<And>a t. a ! 1 = a ! 2 \<Longrightarrow> f1 a t = a ! 1"
    and cong: "\<And>a b t. a ! 0 = b ! 0 \<Longrightarrow> a ! 1 = b ! 1 \<Longrightarrow> a ! 2 = b ! 2 \<Longrightarrow> a ! 3 = b ! 3 \<Longrightarrow>
        f1 a t = f1 b t"
    and "1 \<le> h" "real_of_int (h - 1) \<le> y"
  shows "f1 (map (\<lambda>j. f1 (drop (4 * j) (gather16_v d w h xc (max 0 (min (real_of_int h) y)))) t)
            [0, 1, 2, 3]) s
       = f1 [d (stencil_index w xc 0) (h - 1), d (stencil_index w xc 1) (h - 1),
             d (stencil_index w xc 2) (h - 1), d (stencil_index w xc 3) (h - 1)] t"
proof -
  define F where "F = gather16_v d w h xc (max 0 (min (real_of_int h) y))"
  define R where "R = [d (stencil_index w xc 0) (h - 1), d (stencil_index w xc 1) (h - 1),
             d (stencil_index w xc 2) (h - 1), d (stencil_index w xc 3) (h - 1)]"
  have r1: "f1 (drop 4 F) t = f1 R t"
    unfolding F_def R_def gather16_rows edge_index[OF assms(3,4)] by (intro cong) simp_all
  have r2: "f1 (drop 8 F) t = f1 R t"
    unfolding F_def R_def gather16_rows edge_index[OF assms(3,4)] by (intro cong) simp_all
  have "f1 (map (\<lambda>j. f1 (drop (4 * j) F) t) [0, 1, 2, 3]) s
      = map (\<lambda>j. f1 (drop (4 * j) F) t) [0, 1, 2, 3] ! 1"
    by (rule flat) (simp add: r1 r2)
  also have "\<dots> = f1 R t" using r1 by simp
  finally show ?thesis unfolding F_def R_def .
qed


lemma kernel_clamps:
  assumes "is_kernel f"
  shows "f d w h x y = f d w h (max 0 (min (real_of_int w) x)) (max 0 (min (real_of_int h) y))"
proof -
  have "linear_interpolate_v d w h x y
      = linear_interpolate_v d w h (max 0 (min (real_of_int w) x)) (max 0 (min (real_of_int h) y))"
    unfolding linear_interpolate_v_def Let_def clamp_idem ..
  moreover have "spline_interpolate_v d w h x y
      = spline_interpolate_v d w h (max 0 (min (real_of_int w) x)) (max 0 (min (real_of_int h) y))"
    unfolding spline_interpolate_v_def Let_def clamp_idem ..
  moreover have "monotonic_cubic_v d w h x y
      = monotonic_cubic_v d w h (max 0 (min (real_of_int w) x)) (max 0 (min (real_of_int h) y))"
    unfolding monotonic_cubic_v_def Let_def clamp_idem ..
  ultimately show ?thesis using assms unfolding is_kernel_def by blast
qed

lemma cubic_right_edge:
  assumes "1 \<le> w" "real_of_int (w - 1) \<le> x"
  shows "spline_interpolate_v d w h x y = spline_interpolate_v d w h (real_of_int (w - 1)) y"
    and "monotonic_cubic_v d w h x y = monotonic_cubic_v d w h (real_of_int (w - 1)) y"
proof -
  have e: "real_of_int (w - 1) \<le> real_of_int (w - 1)" by simp
  have s: "map (\<lambda>j. spline_cubic (drop (4 * j) (gather16_v d w h (max 0 (min (real_of_int w) x)) yc)) t) [0, 1, 2, 3]
      = map (\<lambda>j. spline_cubic (drop (4 * j) (gather16_v d w h (max 0 (min (real_of_int w) (real_of_int (w - 1)))) yc)) t') [0, 1, 2, 3]"
    for yc t t'
    by (simp only: right_edge_rows[of spline_cubic, OF spline_cubic_flat assms]
        right_edge_rows[of spline_cubic, OF spline_cubic_flat assms(1) e])
  have m: "map (\<lambda>j. monotonic_cubic_4 (drop (4 * j) (gather16_v d w h (max 0 (min (real_of_int w) x)) yc)) t) [0, 1, 2, 3]
      = map (\<lambda>j. monotonic_cubic_4 (drop (4 * j) (gather16_v d w h (max 0 (min (real_of_int w) (real_of_int (w - 1)))) yc)) t') [0, 1, 2, 3]"
    for yc t t'
    by (simp only: right_edge_rows[of monotonic_cubic_4, OF monotonic_cubic_4_flat assms]
        right_edge_rows[of monotonic_cubic_4, OF monotonic_cubic_4_flat assms(1) e])
  show "spline_interpolate_v d w h x y = spline_interpolate_v d w h (real_of_int (w - 1)) y"
    unfolding spline_interpolate_v_def Let_def by (rule arg_cong2[of _ _ _ _ spline_cubic, OF s refl])
  show "monotonic_cubic_v d w h x y = monotonic_cubic_v d w h (real_of_int (w - 1)) y"
    unfolding monotonic_cubic_v_def Let_def by (rule arg_cong2[of _ _ _ _ monotonic_cubic_4, OF m refl])
qed

lemma cubic_top_edge:
  assumes "1 \<le> h" "real_of_int (h - 1) \<le> y"
  shows "spline_interpolate_v d w h x y = spline_interpolate_v d w h x (real_of_int (h - 1))"
    and "monotonic_cubic_v d w h x y = monotonic_cubic_v d w h x (real_of_int (h - 1))"
proof -
  have e: "real_of_int (h - 1) \<le> real_of_int (h - 1)" by simp
  show "spline_interpolate_v d w h x y = spline_interpolate_v d w h x (real_of_int (h - 1))"
    unfolding spline_interpolate_v_def Let_def
    by (simp only: top_edge_rows[of spline_cubic, OF spline_cubic_flat spline_cubic_cong assms]
        top_edge_rows[of spline_cubic, OF spline_cubic_flat spline_cubic_cong assms(1) e])
  show "monotonic_cubic_v d w h x y = monotonic_cubic_v d w h x (real_of_int (h - 1))"
    unfolding monotonic_cubic_v_def Let_def
    by (simp only: top_edge_rows[of monotonic_cubic_4, OF monotonic_cubic_4_flat monotonic_cubic_4_cong assms]
        top_edge_rows[of monotonic_cubic_4, OF monotonic_cubic_4_flat monotonic_cubic_4_cong assms(1) e])
qed

section \<open>Facts about the MacCormack clamp\<close>

lemma maccormack_bounds:
  assumes "2 \<le> width" and "2 \<le> height" and "in_grid width height i j"
  shows "within4 g d0 width height u dt i j (maccormack_v g d d0 width height u dt i j)"
proof -
  define x where "x = mac_x g width u dt i j"
  define y where "y = mac_y g height u dt i j"
  have xb: "0 \<le> x" "x \<le> real_of_int (width - 1)"
    using assms(1) by (auto simp: x_def mac_x_def)
  have yb: "0 \<le> y" "y \<le> real_of_int (height - 1)"
    using assms(2) by (auto simp: y_def mac_y_def)
  have surround: "real_of_int (mac_i0 w r) \<le> r \<and> r \<le> real_of_int (mac_i0 w r + 1)
      \<and> 0 \<le> mac_i0 w r \<and> mac_i0 w r + 1 < w"
    if "0 \<le> r" "r \<le> real_of_int (w - 1)" "2 \<le> w" for w r
  proof -
    have "\<lfloor>r\<rfloor> \<le> \<lfloor>real_of_int (w - 1)\<rfloor>" using that(2) by (rule floor_mono)
    then have f: "c_int r = \<lfloor>r\<rfloor>" "0 \<le> \<lfloor>r\<rfloor>" "\<lfloor>r\<rfloor> \<le> w - 1"
      using that by (simp_all add: c_int_nonneg)
    show ?thesis
    proof (cases "\<lfloor>r\<rfloor> \<le> w - 2")
      case True
      then have "mac_i0 w r = \<lfloor>r\<rfloor>" using f by (simp add: mac_i0_def)
      then show ?thesis using True f by (simp; linarith)
    next
      case False
      then have "\<lfloor>r\<rfloor> = w - 1" using f by simp
      then have "r = real_of_int (w - 1)" using that(2) by linarith
      moreover have "mac_i0 w r = w - 2" using False f that(3) by (simp add: mac_i0_def)
      ultimately show ?thesis using that(3) by simp
    qed
  qed
  have sx: "real_of_int (mac_i0 width x) \<le> x \<and> x \<le> real_of_int (mac_i0 width x + 1)
      \<and> 0 \<le> mac_i0 width x \<and> mac_i0 width x + 1 < width"
    using surround[OF xb assms(1)] .
  have sy: "real_of_int (mac_j0 height y) \<le> y \<and> y \<le> real_of_int (mac_j0 height y + 1)
      \<and> 0 \<le> mac_j0 height y \<and> mac_j0 height y + 1 < height"
    using surround[OF yb assms(2)] by (simp add: mac_i0_def mac_j0_def)
  have w: "0 < width" using assms(1) by simp
  define a where "a = d0 (mac_i0 width x) (mac_j0 height y)"
  define b where "b = d0 (mac_i0 width x + 1) (mac_j0 height y)"
  define c where "c = d0 (mac_i0 width x) (mac_j0 height y + 1)"
  define e where "e = d0 (mac_i0 width x + 1) (mac_j0 height y + 1)"
  define r where "r = interp_v (interp_func g) d0 width height x y + (1 / 2) * (d0 i j
      - interp_v (interp_func g) d0 width height
          (x + dt * real_of_int (gn g) * interp_v (interp_func g) (u 0) width height x y)
          (y + dt * real_of_int (gn g) * interp_v (interp_func g) (u 1) width height x y))"
  have eq: "maccormack_v g d d0 width height u dt i j
      = max (min r (max (max (max a b) c) e)) (min (min (min a b) c) e)"
    unfolding maccormack_v_def for_cells_apply[OF w] Let_def a_def b_def c_def e_def r_def
      x_def y_def
    using assms(3) by simp
  have lo: "Min {a, b, c, e} \<le> maccormack_v g d d0 width height u dt i j"
    unfolding eq by (rule clamp4_lo)
  have hi: "maccormack_v g d d0 width height u dt i j \<le> Max {a, b, c, e}"
    unfolding eq by (rule clamp4_hi)
  show ?thesis
    unfolding within4_def Let_def x_def[symmetric] y_def[symmetric]
    using lo hi sx sy unfolding a_def b_def c_def e_def by (simp add: in_grid_def)
qed

section \<open>Facts about the checked reads\<close>

lemma those_map_Some: "those (map Some xs) = Some xs"
  by (induction xs) simp_all

lemma read2D_in: "in_grid width height i j \<Longrightarrow> read2D d width height i j = Some (d i j)"
  by (simp add: read2D_def)

lemma read2D_out: "\<not> in_grid width height i j \<Longrightarrow> read2D d width height i j = None"
  by (simp add: read2D_def)

lemma index_pair:
  "0 \<le> (k::int) \<Longrightarrow> k \<le> m - 2 \<Longrightarrow> 0 \<le> k \<and> k < m \<and> 0 \<le> k + 1 \<and> k + 1 < m"
  by simp

lemma linear_index:
  assumes "2 \<le> w"
  shows "0 \<le> c_int (min (max 0 (min (real_of_int w) x)) (real_of_int (w - 2)))
       \<and> c_int (min (max 0 (min (real_of_int w) x)) (real_of_int (w - 2))) < w
       \<and> 0 \<le> c_int (min (max 0 (min (real_of_int w) x)) (real_of_int (w - 2))) + 1
       \<and> c_int (min (max 0 (min (real_of_int w) x)) (real_of_int (w - 2))) + 1 < w"
proof -
  have "(0::real) \<le> real_of_int (w - 2)" using assms by simp
  then have a: "0 \<le> min (max 0 (min (real_of_int w) x)) (real_of_int (w - 2))"
    by (intro min.boundedI max.cobounded1)
  have b: "min (max 0 (min (real_of_int w) x)) (real_of_int (w - 2)) \<le> real_of_int (w - 2)"
    by (rule min.cobounded2)
  show ?thesis by (rule index_pair[OF c_int_bounds[OF a b]])
qed

lemma linear_index_small:
  assumes "w < 2"
  shows "c_int (min (max 0 (min (real_of_int w) x)) (real_of_int (w - 2))) < 0"
proof -
  have "real_of_int (w - 2) \<le> 0" using assms by simp
  also have "(0::real) \<le> max 0 (min (real_of_int w) x)" by (rule max.cobounded1)
  finally have e: "min (max 0 (min (real_of_int w) x)) (real_of_int (w - 2)) = real_of_int (w - 2)"
    by (rule min.absorb2)
  show ?thesis unfolding e c_int_of_int using assms by simp
qed

lemma four_reads:
  assumes "in_grid w h i j" "in_grid w h (i + 1) (j + 1)"
  shows "do {
        d00 \<leftarrow> read2D d w h i j;
        d10 \<leftarrow> read2D d w h (i + 1) j;
        d01 \<leftarrow> read2D d w h i (j + 1);
        d11 \<leftarrow> read2D d w h (i + 1) (j + 1);
        f d00 d10 d01 d11
      } = f (d i j) (d (i + 1) j) (d i (j + 1)) (d (i + 1) (j + 1))"
  using assms by (simp add: read2D_def in_grid_def)

lemma linear_interpolate_value:
  assumes "2 \<le> width" "2 \<le> height"
  shows "linear_interpolate d width height x y = Some (linear_interpolate_v d width height x y)"
  unfolding linear_interpolate_def linear_interpolate_v_def Let_def
  by (rule four_reads; unfold in_grid_def)
     (use linear_index[OF assms(1), of x] linear_index[OF assms(2), of y] in blast)+

lemma linear_interpolate_small:
  assumes "width < 2 \<or> height < 2"
  shows "linear_interpolate d width height x y = None"
proof -
  have "\<not> in_grid width height
      (c_int (min (max 0 (min (real_of_int width) x)) (real_of_int (width - 2))))
      (c_int (min (max 0 (min (real_of_int height) y)) (real_of_int (height - 2))))"
    unfolding in_grid_def
    using assms linear_index_small[of width x] linear_index_small[of height y]
    by (metis not_le)
  then have r: "read2D d width height
      (c_int (min (max 0 (min (real_of_int width) x)) (real_of_int (width - 2))))
      (c_int (min (max 0 (min (real_of_int height) y)) (real_of_int (height - 2)))) = None"
    by (rule read2D_out)
  show ?thesis unfolding linear_interpolate_def Let_def r by simp
qed

lemma stencil_in_grid:
  assumes "1 \<le> width" "1 \<le> height"
  shows "in_grid width height (min (width - 1) (max 0 a)) (min (height - 1) (max 0 b))"
proof -
  have "0 \<le> min (width - 1) (max 0 a)" using assms(1) by (intro min.boundedI max.cobounded1) simp
  moreover have "min (width - 1) (max 0 a) \<le> width - 1" by (rule min.cobounded1)
  moreover have "0 \<le> min (height - 1) (max 0 b)" using assms(2) by (intro min.boundedI max.cobounded1) simp
  moreover have "min (height - 1) (max 0 b) \<le> height - 1" by (rule min.cobounded1)
  ultimately show ?thesis unfolding in_grid_def by linarith
qed

lemma gather16_value:
  assumes "1 \<le> width" "1 \<le> height"
  shows "gather16 d width height x y = Some (gather16_v d width height x y)"
  unfolding gather16_def gather16_v_def Let_def
  by (simp add: read2D_in[OF stencil_in_grid[OF assms]])

lemma spline_interpolate_value:
  assumes "1 \<le> width" "1 \<le> height"
  shows "spline_interpolate d width height x y = Some (spline_interpolate_v d width height x y)"
  unfolding spline_interpolate_def spline_interpolate_v_def Let_def gather16_value[OF assms]
  by simp

lemma monotonic_cubic_value:
  assumes "1 \<le> width" "1 \<le> height"
  shows "monotonic_cubic d width height x y = Some (monotonic_cubic_v d width height x y)"
  unfolding monotonic_cubic_def monotonic_cubic_v_def Let_def gather16_value[OF assms]
  by simp

lemma call_interp_value:
  assumes "2 \<le> width" "2 \<le> height"
  shows "call_interp k d width height x y = Some (interp_v k d width height x y)"
proof -
  have a: "1 \<le> width" "1 \<le> height" using assms by simp_all
  show ?thesis
    by (cases k) (simp_all add: call_interp_def linear_interpolate_value[OF assms]
        spline_interpolate_value[OF a] monotonic_cubic_value[OF a])
qed

lemma cubic_interp_value:
  assumes "1 \<le> width" "1 \<le> height" "k \<noteq> Linear"
  shows "call_interp k d width height x y = Some (interp_v k d width height x y)"
  using assms(3)
  by (cases k) (simp_all add: call_interp_def
        spline_interpolate_value[OF assms(1,2)] monotonic_cubic_value[OF assms(1,2)])

lemma fold_opt_Some:
  assumes "\<forall>n\<in>set xs. body (n mod w) (n div w) = Some (f (n mod w) (n div w))"
  shows "fold (\<lambda>n r. do {
             g \<leftarrow> r;
             v \<leftarrow> body (n mod w) (n div w);
             Some (store g (n mod w) (n div w) v)
           }) xs (Some d)
        = Some (fold (\<lambda>n g. store g (n mod w) (n div w) (f (n mod w) (n div w))) xs d)"
  using assms by (induction xs arbitrary: d) simp_all

lemma fold_opt_None:
  "fold (\<lambda>n r. do {
             g \<leftarrow> r;
             v \<leftarrow> body (n mod w) (n div w);
             Some (store g (n mod w) (n div w) v)
           }) xs None = None"
  by (induction xs) simp_all

lemma fold_opt_fails:
  assumes "n \<in> set xs" "body (n mod w) (n div w) = None"
  shows "fold (\<lambda>n r. do {
             g \<leftarrow> r;
             v \<leftarrow> body (n mod w) (n div w);
             Some (store g (n mod w) (n div w) v)
           }) xs r = None"
  using assms
proof (induction xs arbitrary: r)
  case Nil
  then show ?case by simp
next
  case (Cons a xs)
  show ?case
  proof (cases "a = n")
    case True
    then show ?thesis using Cons.prems(2) by (cases r) (simp_all add: fold_opt_None)
  next
    case False
    then have "n \<in> set xs" using Cons.prems(1) by simp
    then show ?thesis using Cons.IH Cons.prems(2) by simp
  qed
qed

lemma counter_in_grid:
  assumes "0 < width" "n \<in> set [0 .. width * height - 1]"
  shows "in_grid width height (n mod width) (n div width)"
proof -
  have "\<exists>m\<in>{0 .. width * height - 1}. m mod width = n mod width \<and> m div width = n div width"
    using assms(2) by auto
  then show ?thesis unfolding in_grid_def cell_counter[OF assms(1)] .
qed

lemma for_cells_opt_Some:
  assumes "0 < width" "\<And>i j. in_grid width height i j \<Longrightarrow> body i j = Some (f i j)"
  shows "for_cells_opt width height body d = Some (for_cells width height f d)"
  unfolding for_cells_opt_def for_cells_def Let_def
  by (rule fold_opt_Some) (use assms(2) counter_in_grid[OF assms(1)] in blast)

lemma for_cells_opt_None:
  assumes "0 < width" "in_grid width height i j" "body i j = None"
  shows "for_cells_opt width height body d = None"
proof -
  have "\<exists>n\<in>{0 .. width * height - 1}. n mod width = i \<and> n div width = j"
    unfolding cell_counter[OF assms(1)] using assms(2) by (simp add: in_grid_def)
  then obtain n where n: "n \<in> set [0 .. width * height - 1]" "n mod width = i" "n div width = j"
    by auto
  have b: "body (n mod width) (n div width) = None" using n(2,3) assms(3) by simp
  show ?thesis unfolding for_cells_opt_def Let_def
    by (rule fold_opt_fails[where body = body and w = width, OF n(1) b])
qed

lemma mac_index:
  assumes "2 \<le> w"
  shows "0 \<le> mac_i0 w x \<and> mac_i0 w x < w \<and> 0 \<le> mac_i0 w x + 1 \<and> mac_i0 w x + 1 < w"
    and "0 \<le> mac_j0 w x \<and> mac_j0 w x < w \<and> 0 \<le> mac_j0 w x + 1 \<and> mac_j0 w x + 1 < w"
proof -
  have a: "0 \<le> min (w - 2) (max 0 (c_int x))" using assms by (intro min.boundedI max.cobounded1) simp
  have b: "min (w - 2) (max 0 (c_int x)) \<le> w - 2" by (rule min.cobounded1)
  show "0 \<le> mac_i0 w x \<and> mac_i0 w x < w \<and> 0 \<le> mac_i0 w x + 1 \<and> mac_i0 w x + 1 < w"
    unfolding mac_i0_def by (rule index_pair[OF a b])
  show "0 \<le> mac_j0 w x \<and> mac_j0 w x < w \<and> 0 \<le> mac_j0 w x + 1 \<and> mac_j0 w x + 1 < w"
    unfolding mac_j0_def by (rule index_pair[OF a b])
qed

lemma mac_index_small:
  assumes "w < 2"
  shows "mac_i0 w x < 0" and "mac_j0 w x < 0"
proof -
  have "min (w - 2) (max 0 (c_int x)) \<le> w - 2" by (rule min.cobounded1)
  then show "mac_i0 w x < 0" and "mac_j0 w x < 0"
    unfolding mac_i0_def mac_j0_def using assms by simp_all
qed

lemma maccormack_value:
  assumes "2 \<le> width" "2 \<le> height"
  shows "maccormack g d d0 width height u dt = Some (maccormack_v g d d0 width height u dt)"
proof -
  have w: "0 < width" using assms(1) by simp
  have g: "in_grid width height (mac_i0 width x) (mac_j0 height y)"
    "in_grid width height (mac_i0 width x + 1) (mac_j0 height y + 1)" for x y
    unfolding in_grid_def using mac_index(1)[OF assms(1), of x] mac_index(2)[OF assms(2), of y]
    by blast+
  show ?thesis unfolding maccormack_def maccormack_v_def
    by (rule for_cells_opt_Some[OF w])
       (simp add: Let_def call_interp_value[OF assms] four_reads[OF g])
qed

lemma semiLagrangian_value:
  assumes "2 \<le> width" "2 \<le> height"
  shows "semiLagrangian g d d0 width height u dt = Some (semiLagrangian_v g d d0 width height u dt)"
proof -
  have w: "0 < width" using assms(1) by simp
  show ?thesis unfolding semiLagrangian_def semiLagrangian_v_def
    by (rule for_cells_opt_Some[OF w]) (simp add: call_interp_value[OF assms])
qed

lemma sl_uc_value:
  assumes "2 \<le> n" "1 \<le> cn"
  shows "sl_uc g st up n cn = Some (sl_uc_v g st up n cn)"
proof -
  have w: "0 < cn" using assms(2) by simp
  have a: "FOR_EVERY_CELL_opt cn (\<lambda>i j.
             let x = real_of_int (i * n) / real_of_int cn;
                 y = real_of_int (j * n) / real_of_int cn
             in call_interp (interp_func g) (up k) n n x y) d
      = Some (FOR_EVERY_CELL cn (\<lambda>i j.
             let x = real_of_int (i * n) / real_of_int cn;
                 y = real_of_int (j * n) / real_of_int cn
             in interp_v (interp_func g) (up k) n n x y) d)" for k d
    unfolding FOR_EVERY_CELL_opt_def FOR_EVERY_CELL_def
    by (rule for_cells_opt_Some[OF w]) (simp add: Let_def call_interp_value[OF assms(1) assms(1)])
  show ?thesis unfolding sl_uc_def sl_uc_v_def a by simp
qed

lemma advect_diff_value:
  assumes "2 \<le> n" "1 \<le> cn"
  shows "advect_diff g st meth u c n cn out dt = Some (advect_diff_v g st meth u c n cn out dt)"
proof -
  have w: "0 < cn" using assms(2) by simp
  show ?thesis unfolding advect_diff_def advect_diff_v_def Let_def FOR_EVERY_CELL_opt_def
    by (subst for_cells_opt_Some[OF w, where f = "\<lambda>i j.
            0 + advdiff meth (linear_interpolate_v
                   (FOR_EVERY_CELL n (\<lambda>i j. (1 / 2) * u 0 i j + (1 / 2) * u 0 (i + 1) j)
                     (st_diff_up st 0)) n n
                   (real_of_int (i * n) / real_of_int cn) (real_of_int (j * n) / real_of_int cn))
                 (c_ref g (i - 3) j) (c_ref g (i - 2) j) (c_ref g (i - 1) j)
                 (c_ref g i j) (c_ref g (i + 1) j) (c_ref g (i + 2) j) (c_ref g (i + 3) j)
                 * real_of_int cn
              + advdiff meth (linear_interpolate_v
                   (FOR_EVERY_CELL n (\<lambda>i j. (1 / 2) * u 1 i j + (1 / 2) * u 1 i (j + 1))
                     (st_diff_up st 1)) n n
                   (real_of_int (i * n) / real_of_int cn) (real_of_int (j * n) / real_of_int cn))
                 (c_ref g i (j - 3)) (c_ref g i (j - 2)) (c_ref g i (j - 1))
                 (c_ref g i j) (c_ref g i (j + 1)) (c_ref g i (j + 2)) (c_ref g i (j + 3))
                 * real_of_int cn"])
       (simp_all add: linear_interpolate_value[OF assms(1) assms(1)] FOR_EVERY_CELL_def)
qed

lemma advect_semiLagrangian_value:
  assumes "2 \<le> n" "2 \<le> cn"
  shows "advect_semiLagrangian g0 st meth u c n cn out dt
       = Some (advect_semiLagrangian_v g0 st meth u c n cn out dt)"
proof -
  have n1: "2 \<le> n + 1" and c1: "1 \<le> cn" using assms by simp_all
  show ?thesis unfolding advect_semiLagrangian_def advect_semiLagrangian_v_def Let_def
    by (simp add: sl_uc_value[OF assms(1) c1] semiLagrangian_value[OF n1 assms(1)]
        semiLagrangian_value[OF assms(1) n1] semiLagrangian_value[OF assms(2) assms(2)]
        maccormack_value[OF n1 assms(1)] maccormack_value[OF assms(1) n1]
        maccormack_value[OF assms(2) assms(2)])
qed

lemma advect_step_value:
  assumes "2 \<le> n" "if meth < 3 then 1 \<le> cn else 2 \<le> cn"
  shows "advect_step g st meth u c n cn out dt = Some (advect_step_v g st meth u c n cn out dt)"
proof (cases "meth < 3")
  case True
  then have "1 \<le> cn" using assms(2) by simp
  then show ?thesis using True
    by (simp add: advect_step_def advect_step_v_def advect_diff_value[OF assms(1)])
next
  case False
  then have "2 \<le> cn" using assms(2) by simp
  then show ?thesis using False
    by (simp add: advect_step_def advect_step_v_def advect_semiLagrangian_value[OF assms(1)])
qed

lemma forward_euler_value:
  "forward_euler (\<lambda>g u c out. Some (advect_step_v g st meth u c n cn out dt)) g st u c n cn dt
     = Some (forward_euler_v g st meth u c n cn dt)"
  by (simp add: forward_euler_def forward_euler_v_def Let_def case_prod_beta)

lemma modified_euler_value:
  "modified_euler (\<lambda>g u c out. Some (advect_step_v g st meth u c n cn out dt)) g st u c n cn dt
     = Some (modified_euler_v g st meth u c n cn dt)"
  by (simp add: modified_euler_def modified_euler_v_def Let_def case_prod_beta)

lemma runge_kutta_value:
  "runge_kutta (\<lambda>g u c out. Some (advect_step_v g st meth u c n cn out dt)) g st u c n cn dt
     = Some (runge_kutta_v g st meth u c n cn dt)"
  by (simp add: runge_kutta_def runge_kutta_v_def Let_def case_prod_beta)

lemma advect_value:
  assumes "2 \<le> n" "if meth < 3 then 1 \<le> cn else 2 \<le> cn"
  shows "advect st meth interp integrator u c n cn dt
       = Some (advect_v st meth interp integrator u c n cn dt)"
proof -
  show ?thesis unfolding advect_def advect_v_def Let_def
    by (simp add: forward_euler_value modified_euler_value runge_kutta_value
        advect_step_value[OF assms] case_prod_beta)
qed


lemma maccormack_small:
  assumes "0 < width" "0 < height" "width < 2 \<or> height < 2"
  shows "maccormack g d d0 width height u dt = None"
proof -
  have i: "in_grid width height 0 0" using assms(1,2) by (simp add: in_grid_def)
  have n: "\<not> in_grid width height (mac_i0 width x) (mac_j0 height y)" for x y
    unfolding in_grid_def using assms(3) mac_index_small(1)[of width x] mac_index_small(2)[of height y]
    by (metis not_le)
  show ?thesis unfolding maccormack_def
    by (rule for_cells_opt_None[OF assms(1) i])
       (simp add: Let_def bind_eq_None_conv read2D_out[OF n])
qed

lemma advect_maccormack_small:
  assumes "1 \<le> n" "1 \<le> cn" "n < 2 \<or> cn < 2"
  shows "advect st 4 interp integrator u c n cn dt = None"
proof -
  show ?thesis
  proof (cases "cn < 2")
    case True
    have "maccormack g d d0 cn cn v dt = None" for g d d0 v
      by (rule maccormack_small) (use assms(2) True in simp_all)
    then show ?thesis
      by (simp add: advect_def advect_step_def advect_semiLagrangian_def Let_def
          bind_eq_None_conv)
  next
    case False
    then have "n < 2" using assms(3) by simp
    then have "maccormack g d d0 (n + 1) n v dt = None" for g d d0 v
      by (intro maccormack_small) (use assms(1) in simp_all)
    then show ?thesis
      by (simp add: advect_def advect_step_def advect_semiLagrangian_def Let_def
          bind_eq_None_conv)
  qed
qed

lemma advect_diff_small:
  assumes "n < 2" "1 \<le> cn"
  shows "advect_diff g st meth u c n cn out dt = None"
proof -
  have w: "0 < cn" using assms(2) by simp
  have i: "in_grid cn cn 0 0" using assms(2) by (simp add: in_grid_def)
  have l: "linear_interpolate d n n x y = None" for d x y
    by (rule linear_interpolate_small) (use assms(1) in simp)
  have "FOR_EVERY_CELL_opt cn (\<lambda>i j. let x = X i j; y = Y i j in
       do { v0 \<leftarrow> linear_interpolate d n n x y; F i j v0 }) d' = None" for X Y d F d'
    unfolding FOR_EVERY_CELL_opt_def
    by (rule for_cells_opt_None[OF w i]) (simp add: Let_def l)
  then show ?thesis unfolding advect_diff_def Let_def by simp
qed

lemma advect_eulerian_small:
  assumes "meth < 3" "n < 2" "1 \<le> cn" "integrator = 0 \<or> integrator = 1 \<or> integrator = 2"
  shows "advect st meth interp integrator u c n cn dt = None"
  using assms(1,4)
  by (auto simp: advect_def advect_step_def Let_def forward_euler_def modified_euler_def
      runge_kutta_def advect_diff_small[OF assms(2,3)])

section \<open>Facts about the timestep when every read is in range\<close>


lemma maccormack_clamped_v:
  assumes "2 \<le> n" and "2 \<le> cn"
  shows "(let g = \<lparr>gu = u, gc = c, gn = n, gcn = cn, interp_func = Spline\<rparr>;
              new = advect_v st 4 interp integrator u c n cn dt
          in (\<forall>i j. in_grid (n + 1) n i j \<longrightarrow>
                within4 g (u 0) (n + 1) n (sl_ux g st u n) dt i j (fst new 0 i j))
           \<and> (\<forall>i j. in_grid n (n + 1) i j \<longrightarrow>
                within4 g (u 1) n (n + 1) (sl_uy g st u n) dt i j (fst new 1 i j))
           \<and> (\<forall>i j. in_grid cn cn i j \<longrightarrow>
                within4 g c cn cn (sl_uc_v g st (sl_up st u n) n cn) dt i j (snd new i j)))"
proof -
  define g where "g = \<lparr>gu = u, gc = c, gn = n, gcn = cn, interp_func = Spline\<rparr>"
  define k where "k = st_k st 0"
  have eq: "advect_v st 4 interp integrator u c n cn dt =
      (u(0 := copy2D (u 0) (maccormack_v g (k 0) (u 0) (n + 1) n (sl_ux g st u n) dt) (n + 1),
         1 := copy2D (u 1) (maccormack_v g (k 1) (u 1) n (n + 1) (sl_uy g st u n) dt) (n + 1)),
       copy2D c (maccormack_v g (k 2) c cn cn (sl_uc_v g st (sl_up st u n) n cn) dt) cn)"
    by (simp add: advect_v_def advect_step_v_def advect_semiLagrangian_v_def Let_def g_def k_def)
  have w: "2 \<le> n + 1" using assms(1) by simp
  have a: "within4 g (u 0) (n + 1) n (sl_ux g st u n) dt i j
      (fst (advect_v st 4 interp integrator u c n cn dt) 0 i j)" if "in_grid (n + 1) n i j" for i j
  proof -
    have "fst (advect_v st 4 interp integrator u c n cn dt) 0 i j
        = maccormack_v g (k 0) (u 0) (n + 1) n (sl_ux g st u n) dt i j"
      unfolding eq using that by (simp add: copy2D_def in_grid_def)
    then show ?thesis using maccormack_bounds[OF w assms(1) that] by simp
  qed
  have b: "within4 g (u 1) n (n + 1) (sl_uy g st u n) dt i j
      (fst (advect_v st 4 interp integrator u c n cn dt) 1 i j)" if "in_grid n (n + 1) i j" for i j
  proof -
    have "fst (advect_v st 4 interp integrator u c n cn dt) 1 i j
        = maccormack_v g (k 1) (u 1) n (n + 1) (sl_uy g st u n) dt i j"
      unfolding eq using that by (simp add: copy2D_def in_grid_def)
    then show ?thesis using maccormack_bounds[OF assms(1) w that] by simp
  qed
  have c: "within4 g c cn cn (sl_uc_v g st (sl_up st u n) n cn) dt i j
      (snd (advect_v st 4 interp integrator u c n cn dt) i j)" if "in_grid cn cn i j" for i j
  proof -
    have "snd (advect_v st 4 interp integrator u c n cn dt) i j
        = maccormack_v g (k 2) c cn cn (sl_uc_v g st (sl_up st u n) n cn) dt i j"
      unfolding eq using that by (simp add: copy2D_def in_grid_def)
    then show ?thesis using maccormack_bounds[OF assms(2) assms(2) that] by simp
  qed
  show ?thesis unfolding Let_def g_def[symmetric] using a b c by blast
qed

lemma zero_velocity_unchanged_v:
  assumes "2 \<le> n" and "1 \<le> cn" and "zero_velocity n u"
  shows "same_fields n cn (advect_v st method interp integrator u c n cn dt) (u, c)"
proof (cases "method < 3")
  case True
  then show ?thesis by (rule eulerian_zero_velocity[OF _ assms])
next
  case False
  have "1 \<le> n" using assms(1) by simp
  moreover have "dt = 0 \<or> (2 \<le> n \<and> zero_velocity n u)" using assms(1,3) by simp
  ultimately show ?thesis using False assms(2) by (intro semilag_unchanged)
qed

lemma zero_dt_unchanged_v:
  assumes "1 \<le> n" and "1 \<le> cn"
  shows "same_fields n cn (advect_v st method interp integrator u c n cn 0) (u, c)"
proof (cases "method < 3")
  case True
  then show ?thesis by (simp add: eulerian_dt0 same_fields_def)
next
  case False
  then show ?thesis using assms by (intro semilag_unchanged) simp_all
qed

lemma invalid_method_advects_v:
  "(5::int) \<notin> {0..4} \<and> c_ramp 1 0 = 10
   \<and> snd (advect_v st_first 5 0 0 u_right c_ramp 2 2 (1 / 2)) 1 0 = 0"
proof -
  have cell: "for_cells 2 2 body d i j = (if in_grid 2 2 i j then body i j else d i j)" for body d i j
    by (simp add: for_cells_apply)
  define g where "g = \<lparr>gu = u_right, gc = c_ramp, gn = 2, gcn = 2, interp_func = Linear\<rparr>"
  have uc0: "sl_uc_v g st_first (sl_up st_first u_right 2) 2 2 0 1 0 = 1"
    by (simp add: sl_uc_v_def sl_up_def FOR_EVERY_CELL_def cell in_grid_def g_def
        linear_interpolate_v_def c_int_def u_right_def)
  have uc1: "sl_uc_v g st_first (sl_up st_first u_right 2) 2 2 1 1 0 = 0"
    by (simp add: sl_uc_v_def sl_up_def FOR_EVERY_CELL_def cell in_grid_def g_def
        linear_interpolate_v_def c_int_def u_right_def)
  have sl: "semiLagrangian_v g d c_ramp 2 2 (sl_uc_v g st_first (sl_up st_first u_right 2) 2 2) (1 / 2) 1 0 = 0"
    for d
    unfolding semiLagrangian_v_def cell uc0 uc1
    by (simp add: in_grid_def g_def linear_interpolate_v_def c_int_def c_ramp_def)
  have "snd (advect_v st_first 5 0 0 u_right c_ramp 2 2 (1 / 2)) 1 0 = 0"
    unfolding advect_v_def advect_step_v_def advect_semiLagrangian_v_def Let_def
    using sl by (simp add: copy2D_def g_def del: One_nat_def)
  then show ?thesis by (simp add: c_ramp_def)
qed

lemma upwind_uniform_border_v:
  "same_grid 2 2 c_one (\<lambda>i j. 1)
   \<and> advect_diff_v \<lparr>gu = (\<lambda>d i j. 1), gc = c_one, gn = 2, gcn = 2, interp_func = Linear\<rparr>
        st_first 0 (\<lambda>d i j. 1) c_one 2 2 (st_k st_first 0) (1 / 10) 2 0 0 = - 4"
proof -
  have up: "FOR_EVERY_CELL 2 body d i j = (if in_grid 2 2 i j then body i j else d i j)" for body d i j
    by (simp add: FOR_EVERY_CELL_def for_cells_apply)
  show ?thesis
    by (simp add: advect_diff_2 in_grid_def linear_interpolate_v_def up c_int_def
        advdiff_def c_ref_def c_one_def same_grid_def)
qed

lemma upwind_uniform_v:
  assumes "1 \<le> n" and "1 \<le> cn" and "gn g = n" and "gcn g = cn"
  shows "(same_grid (n + 1) n (gu g 0) (\<lambda>i j. a) \<longrightarrow>
            (\<forall>i j. in_grid (n + 1) n i j \<longrightarrow> advect_diff_v g st 0 u c n cn out dt 0 i j = 0))
       \<and> (same_grid n (n + 1) (gu g 1) (\<lambda>i j. a) \<longrightarrow>
            (\<forall>i j. in_grid n (n + 1) i j \<longrightarrow> advect_diff_v g st 0 u c n cn out dt 1 i j = 0))
       \<and> (same_grid cn cn (gc g) (\<lambda>i j. a) \<longrightarrow>
            (\<forall>i j. in_grid cn cn (i - 1) (j - 1) \<and> in_grid cn cn (i + 1) (j + 1) \<longrightarrow>
               advect_diff_v g st 0 u c n cn out dt 2 i j = 0))"
proof (intro conjI impI allI)
  fix i j
  assume s: "same_grid (n + 1) n (gu g 0) (\<lambda>i j. a)" and ij: "in_grid (n + 1) n i j"
  have r: "u_ref g 0 i' j' = a" for i' j'
    using u_ref_uniform(1)[of g a] s assms(1,3) by simp
  have n0: "0 \<le> n" using assms(1) by simp
  show "advect_diff_v g st 0 u c n cn out dt 0 i j = 0"
    unfolding advect_diff_0[OF n0 ij] r by (simp add: upwind_flat)
next
  fix i j
  assume s: "same_grid n (n + 1) (gu g 1) (\<lambda>i j. a)" and ij: "in_grid n (n + 1) i j"
  have r: "u_ref g 1 i' j' = a" for i' j'
    using u_ref_uniform(2)[of g a] s assms(1,3) by simp
  have n0: "0 < n" using assms(1) by simp
  show "advect_diff_v g st 0 u c n cn out dt 1 i j = 0"
    unfolding advect_diff_1[OF n0 ij] r by (simp add: upwind_flat)
next
  fix i j
  assume s: "same_grid cn cn (gc g) (\<lambda>i j. a)"
    and ij: "in_grid cn cn (i - 1) (j - 1) \<and> in_grid cn cn (i + 1) (j + 1)"
  have s': "same_grid (gcn g) (gcn g) (gc g) (\<lambda>i j. a)" using s assms(4) by simp
  have g: "in_grid (gcn g) (gcn g) (i - 1) j" "in_grid (gcn g) (gcn g) i j"
    "in_grid (gcn g) (gcn g) (i + 1) j" "in_grid (gcn g) (gcn g) i (j - 1)"
    "in_grid (gcn g) (gcn g) i (j + 1)" "in_grid cn cn i j"
    using ij assms(4) by (simp_all add: in_grid_def)
  have cn0: "0 < cn" using assms(2) by simp
  show "advect_diff_v g st 0 u c n cn out dt 2 i j = 0"
    unfolding advect_diff_2[OF cn0 g(6)]
      c_ref_uniform[OF s' g(1)] c_ref_uniform[OF s' g(2)] c_ref_uniform[OF s' g(3)]
      c_ref_uniform[OF s' g(4)] c_ref_uniform[OF s' g(5)]
    by (simp add: upwind_flat)
qed


lemma linear_extrapolates_v:
  "real_of_int (2 - 1) < 2
   \<and> linear_interpolate_v c_ramp 2 2 2 0 = 20
   \<and> linear_interpolate_v c_ramp 2 2 (real_of_int (2 - 1)) 0 = 10"
  by (simp add: linear_interpolate_v_def c_ramp_def c_int_def)

section \<open>Facts about the timestep from resolution 2 on\<close>

lemma zero_velocity_unchanged:
  assumes "2 \<le> n" and "2 \<le> cn" and "zero_velocity n u"
  shows "\<exists>new. advect st meth interp integrator u c n cn dt = Some new
           \<and> same_fields n cn new (u, c)"
proof -
  have c1: "1 \<le> cn" using assms(2) by simp
  have s: "if meth < 3 then 1 \<le> cn else 2 \<le> cn" using assms(2) by simp
  show ?thesis
    unfolding advect_value[OF assms(1) s]
    using zero_velocity_unchanged_v[OF assms(1) c1 assms(3)] by simp
qed

lemma zero_dt_unchanged:
  assumes "2 \<le> n" and "2 \<le> cn"
  shows "\<exists>new. advect st meth interp integrator u c n cn 0 = Some new
           \<and> same_fields n cn new (u, c)"
proof -
  have c1: "1 \<le> cn" and n1: "1 \<le> n" using assms by simp_all
  have s: "if meth < 3 then 1 \<le> cn else 2 \<le> cn" using assms(2) by simp
  show ?thesis
    unfolding advect_value[OF assms(1) s]
    using zero_dt_unchanged_v[OF n1 c1] by simp
qed

lemma maccormack_clamped:
  assumes "2 \<le> n" and "2 \<le> cn"
  shows "\<exists>new. advect st 4 interp integrator u c n cn dt = Some new
     \<and> (let g = \<lparr>gu = u, gc = c, gn = n, gcn = cn, interp_func = Spline\<rparr>
          in (\<forall>i j. in_grid (n + 1) n i j \<longrightarrow>
                within4 g (u 0) (n + 1) n (sl_ux g st u n) dt i j (fst new 0 i j))
           \<and> (\<forall>i j. in_grid n (n + 1) i j \<longrightarrow>
                within4 g (u 1) n (n + 1) (sl_uy g st u n) dt i j (fst new 1 i j))
           \<and> (\<forall>i j. in_grid cn cn i j \<longrightarrow>
                within4 g c cn cn (sl_uc_v g st (sl_up st u n) n cn) dt i j (snd new i j)))"
proof -
  have s: "if (4::int) < 3 then 1 \<le> cn else 2 \<le> cn" using assms(2) by simp
  show ?thesis
    unfolding advect_value[OF assms(1) s]
    using maccormack_clamped_v[OF assms, of u c st interp integrator dt] by (simp add: Let_def)
qed

lemma stage_tmp_velocity:
  assumes "in_grid (n + 1) (n + 1) i j"
  shows "modified_euler_tmp t u c k n cn dt 0 i j = 1 * u 0 i j + dt * k 0 i j
      \<and> modified_euler_tmp t u c k n cn dt 1 i j = 1 * u 1 i j + dt * k 1 i j"
    and "runge_kutta_tmp1 t u c k n cn dt 0 i j = 1 * u 0 i j + (1 / 2) * dt * k 0 i j
      \<and> runge_kutta_tmp1 t u c k n cn dt 1 i j = 1 * u 1 i j + (1 / 2) * dt * k 1 i j"
    and "runge_kutta_tmp2 t u c k n cn dt 0 i j = 1 * u 0 i j + (1 / 2) * dt * k 0 i j
      \<and> runge_kutta_tmp2 t u c k n cn dt 1 i j = 1 * u 1 i j + (1 / 2) * dt * k 1 i j"
    and "runge_kutta_tmp3 t u c k n cn dt 0 i j = 1 * u 0 i j + dt * k 0 i j
      \<and> runge_kutta_tmp3 t u c k n cn dt 1 i j = 1 * u 1 i j + dt * k 1 i j"
  unfolding modified_euler_tmp_def runge_kutta_tmp1_def runge_kutta_tmp2_def
    runge_kutta_tmp3_def Let_def
  by (simp_all add: op2D_apply[OF assms])

lemma stage_tmp_concentration:
  assumes "in_grid cn cn i j"
  shows "modified_euler_tmp t u c k n cn dt 2 i j = (1 / 2) * c i j + dt * k 2 i j"
    and "runge_kutta_tmp1 t u c k n cn dt 2 i j = (1 / 2) * c i j + (1 / 2) * dt * k 2 i j"
    and "runge_kutta_tmp2 t u c k n cn dt 2 i j = (1 / 2) * c i j + (1 / 2) * dt * k 2 i j"
    and "runge_kutta_tmp3 t u c k n cn dt 2 i j = (1 / 2) * c i j + dt * k 2 i j"
  unfolding modified_euler_tmp_def runge_kutta_tmp1_def runge_kutta_tmp2_def
    runge_kutta_tmp3_def Let_def
  by (simp_all add: op2D_apply[OF assms])

section \<open>Results\<close>

text \<open>
  C4 (fails on the code). The 1D monotonic cubic is claimed to stay within the minimum and
  maximum of its four samples for every offset in [0,1]. The slopes of the code are
  \<open>d1 + p * \<bar>d0\<bar>\<close> and \<open>d1 + p * \<bar>d2\<bar>\<close>: their sign is matched, their magnitude is not
  limited. On the samples -8, 0, 1, 1 at offset 1/2 the code returns 3/2, above the
  maximum 1 of the samples.
\<close>

theorem monotonic_cubic_4_overshoot:
  "monotonic_cubic_4 [- 8, 0, 1, 1] (1 / 2) = 3 / 2
   \<and> \<not> monotonic_cubic_4 [- 8, 0, 1, 1] (1 / 2) \<le> Max (set [- 8, 0, 1, 1 :: real])"
  by (simp add: monotonic_cubic_4_def Let_def)

text \<open>
  C3. For all integers \<open>i\<close> and \<open>j\<close>, \<^verbatim>\<open>c_ref\<close> returns 0 outside \<open>[0,cn-1] \<times> [0,cn-1]\<close> and the
  stored concentration inside; \<^verbatim>\<open>u_ref(0,i,j)\<close> returns the x-velocity at the indices clamped
  to \<open>[0,n] \<times> [0,n-1]\<close> and \<^verbatim>\<open>u_ref(1,i,j)\<close> the y-velocity at the indices clamped to
  \<open>[0,n-1] \<times> [0,n]\<close>. The cell read always lies in the grid of its component, so no read
  is out of range; both samplers are functions of the globals and return a number only,
  so they change no state.
\<close>

theorem samplers_clamp:
  "1 \<le> gn g \<Longrightarrow>
   c_ref g i j = (if in_grid (gcn g) (gcn g) i j then gc g i j else 0)
   \<and> u_ref g 0 i j = gu g 0 (clamp_index 0 (gn g) i) (clamp_index 0 (gn g - 1) j)
   \<and> in_grid (gn g + 1) (gn g) (clamp_index 0 (gn g) i) (clamp_index 0 (gn g - 1) j)
   \<and> u_ref g 1 i j = gu g 1 (clamp_index 0 (gn g - 1) i) (clamp_index 0 (gn g) j)
   \<and> in_grid (gn g) (gn g + 1) (clamp_index 0 (gn g - 1) i) (clamp_index 0 (gn g) j)"
proof -
  assume n: "1 \<le> gn g"
  have cl: "max 0 (min hi k) = clamp_index 0 hi k
      \<and> 0 \<le> clamp_index 0 hi k \<and> clamp_index 0 hi k \<le> hi" if "0 \<le> hi" for hi k :: int
    using that by (simp add: clamp_index_def min_def max_def)
  have a: "0 \<le> gn g" and b: "0 \<le> gn g - 1" using n by simp_all
  have "c_ref g i j = (if in_grid (gcn g) (gcn g) i j then gc g i j else 0)"
    by (auto simp: c_ref_def in_grid_def)
  moreover have "u_ref g 0 i j = gu g 0 (clamp_index 0 (gn g) i) (clamp_index 0 (gn g - 1) j)"
    using cl[OF a, of i] cl[OF b, of j] by (simp add: u_ref_def)
  moreover have "u_ref g 1 i j = gu g 1 (clamp_index 0 (gn g - 1) i) (clamp_index 0 (gn g) j)"
    using cl[OF a, of j] cl[OF b, of i] by (simp add: u_ref_def)
  moreover have "in_grid (gn g + 1) (gn g) (clamp_index 0 (gn g) i) (clamp_index 0 (gn g - 1) j)"
    using cl[OF a, of i] cl[OF b, of j] by (simp add: in_grid_def)
  moreover have "in_grid (gn g) (gn g + 1) (clamp_index 0 (gn g - 1) i) (clamp_index 0 (gn g) j)"
    using cl[OF a, of j] cl[OF b, of i] by (simp add: in_grid_def)
  ultimately show ?thesis by simp
qed

theorem samplers_clamp_witness:
  "1 \<le> gn g_demo \<and> c_ref g_demo 5 (- 3) = 0 \<and> c_ref g_demo 1 0 = 7
   \<and> u_ref g_demo 0 5 (- 3) = 20 \<and> u_ref g_demo 1 5 (- 3) = 10"
  using samplers_clamp[of g_demo 5 "- 3"] samplers_clamp[of g_demo 1 0]
  by (simp add: g_demo_def clamp_index_def in_grid_def)

text \<open>
  C1 (fails on the code). The MacCormack value is claimed to lie between the minimum and
  the maximum of the four cells around the backward-traced point, for every cell of the
  three fields. \<^verbatim>\<open>maccormack\<close> takes the lower-left of the four cells as
  \<^verbatim>\<open>min(width-2,max(0,(int)x))\<close>: on a grid one cell wide or high this is -1, the four cells
  are not cells of the grid and the read \<^verbatim>\<open>d0[i0][j0]\<close> is outside the array. This happens
  at the resolutions \<open>n = 1\<close> (the velocity grids are \<open>2 \<times> 1\<close> and \<open>1 \<times> 2\<close>) and \<open>cn = 1\<close>.
  From \<open>n = 2\<close> and \<open>cn = 2\<close> on the claim holds (lemma \<open>maccormack_clamped\<close>).
\<close>

theorem maccormack_reads_outside:
  "mac_i0 1 x = - 1 \<and> mac_j0 1 y = - 1
   \<and> read2D d0 1 1 (mac_i0 1 x) (mac_j0 1 y) = None
   \<and> advect st 4 interp integrator u c 2 1 dt = None
   \<and> advect st 4 interp integrator u c 1 2 dt = None
   \<and> advect st 4 interp integrator u c 1 1 dt = None"
proof -
  have a: "mac_i0 1 x = - 1" "mac_j0 1 y = - 1" by (simp_all add: mac_i0_def mac_j0_def)
  have b: "read2D d0 1 1 (mac_i0 1 x) (mac_j0 1 y) = None"
    unfolding a by (simp add: read2D_def in_grid_def)
  have c: "advect st 4 interp integrator u c 2 1 dt = None"
    "advect st 4 interp integrator u c 1 2 dt = None"
    "advect st 4 interp integrator u c 1 1 dt = None"
    by (rule advect_maccormack_small; simp)+
  show ?thesis using a b c by simp
qed

text \<open>
  C2 (fails on the code). With a zero velocity one call of \<^verbatim>\<open>advect\<close> is claimed to leave the
  fields unchanged for every selector. At the resolution \<open>n = 1\<close> every Eulerian method
  calls \<^verbatim>\<open>linear_interpolate(up, 1, 1, x, y)\<close>, whose index \<^verbatim>\<open>min(x,width-2)\<close> is -1: it reads
  \<^verbatim>\<open>d[-1]\<close>, outside the array, whatever the velocity; MacCormack reads outside the array at
  \<open>n = 1\<close> and at \<open>cn = 1\<close>. From \<open>n = 2\<close> and \<open>cn = 2\<close> on the claim holds (lemma
  \<open>zero_velocity_unchanged\<close>).
\<close>

theorem zero_velocity_reads_outside:
  "zero_velocity 1 u_zero
   \<and> linear_interpolate d 1 1 x y = None
   \<and> advect st 0 interp 0 u_zero c 1 1 dt = None
   \<and> advect st 1 interp 1 u_zero c 1 2 dt = None
   \<and> advect st 2 interp 2 u_zero c 1 2 dt = None
   \<and> advect st 4 interp integrator u_zero c 2 1 dt = None"
proof -
  have z: "zero_velocity 1 u_zero"
    by (simp add: zero_velocity_def same_grid_def u_zero_def)
  have l: "linear_interpolate d 1 1 x y = None"
    by (rule linear_interpolate_small) simp
  have a: "advect st 0 interp 0 u_zero c 1 1 dt = None"
    "advect st 1 interp 1 u_zero c 1 2 dt = None"
    "advect st 2 interp 2 u_zero c 1 2 dt = None"
    by (rule advect_eulerian_small; simp)+
  have b: "advect st 4 interp integrator u_zero c 2 1 dt = None"
    by (rule advect_maccormack_small; simp)
  show ?thesis using z l a b by simp
qed

text \<open>
  C10 (fails on the code). With \<open>dt = 0\<close> one call of \<^verbatim>\<open>advect\<close> is claimed to leave the fields
  unchanged for every selector. The reads do not depend on \<open>dt\<close>: at the resolution
  \<open>n = 1\<close> the Eulerian methods read \<^verbatim>\<open>d[-1]\<close> in \<^verbatim>\<open>linear_interpolate\<close>, and MacCormack
  reads \<^verbatim>\<open>d0[-1]\<close> at \<open>n = 1\<close> and at \<open>cn = 1\<close>, before the terms scaled by \<open>dt\<close> are formed.
  From \<open>n = 2\<close> and \<open>cn = 2\<close> on the claim holds (lemma \<open>zero_dt_unchanged\<close>).
\<close>

theorem zero_dt_reads_outside:
  "advect st 0 interp 0 u c 1 1 0 = None
   \<and> advect st 2 interp 2 u c 1 3 0 = None
   \<and> advect st 4 interp integrator u c 1 1 0 = None
   \<and> advect st 4 interp integrator u c 3 1 0 = None"
proof -
  have a: "advect st 0 interp 0 u c 1 1 0 = None" "advect st 2 interp 2 u c 1 3 0 = None"
    by (rule advect_eulerian_small; simp)+
  have b: "advect st 4 interp integrator u c 1 1 0 = None"
    "advect st 4 interp integrator u c 3 1 0 = None"
    by (rule advect_maccormack_small; simp)+
  show ?thesis using a b by simp
qed

text \<open>
  C9. For method 4 (MacCormack) the result of \<^verbatim>\<open>advect\<close> does not depend on the
  interpolation selector: \<^verbatim>\<open>advect_semiLagrangian\<close> assigns the clamped cubic spline to
  \<^verbatim>\<open>interp_func\<close> before its first use, so two calls that differ only in \<open>interp\<close> return
  the same fields (or both read outside an array).
\<close>

theorem maccormack_ignores_interp:
  "advect st 4 interp integrator u c n cn dt = advect st 4 interp' integrator u c n cn dt"
  by (simp add: advect_def advect_step_def advect_semiLagrangian_def Let_def)

text \<open>
  C8. For an Eulerian method (method < 3), \<^verbatim>\<open>advect\<close> with integrator 1 is the Modified
  Euler branch and with integrator 2 the Runge-Kutta branch, both over \<^verbatim>\<open>advect_step\<close>.
  Whatever the derivative evaluation \<open>step\<close> computes, the second evaluation of Modified
  Euler is called on the temporary state \<open>tmp\<close> and its concentration \<open>tmp 2\<close>, where \<open>tmp\<close>
  is \<open>u + dt * k0\<close> on both velocity components and \<open>0.5 * c + dt * k0\<close> on the
  concentration; the second, third and fourth evaluations of Runge-Kutta are called on
  \<open>u + 0.5 * dt * k0\<close>, \<open>u + 0.5 * dt * k1\<close>, \<open>u + dt * k2\<close> on the velocity and
  \<open>0.5 * c + 0.5 * dt * k0\<close>, \<open>0.5 * c + 0.5 * dt * k1\<close>, \<open>0.5 * c + dt * k2\<close> on the
  concentration. The temporaries are computed by \<^verbatim>\<open>op2D\<close> on the \<open>(n+1) \<times> (n+1)\<close> block of
  the velocity arrays and the \<open>cn \<times> cn\<close> block of the concentration. (\<^verbatim>\<open>advect_diff\<close> reads
  the concentration through \<^verbatim>\<open>c_ref\<close>, that is from the global \<^verbatim>\<open>gc\<close>, and never its
  parameter \<^verbatim>\<open>c\<close>: lemma \<open>advect_diff_ignores_c\<close>. The statement is therefore about what is
  passed, for every \<open>step\<close>.)
\<close>

theorem stage_temporaries:
  assumes "meth < 3"
  shows
    "advect st meth interp 1 u c n cn dt
       = modified_euler (\<lambda>g u c out. advect_step g st meth u c n cn out dt)
           \<lparr>gu = u, gc = c, gn = n, gcn = cn,
            interp_func = (if interp = 0 then Linear
                           else if interp = 1 then Spline else MonotonicCubic)\<rparr>
           st u c n cn dt
     \<and> advect st meth interp 2 u c n cn dt
       = runge_kutta (\<lambda>g u c out. advect_step g st meth u c n cn out dt)
           \<lparr>gu = u, gc = c, gn = n, gcn = cn,
            interp_func = (if interp = 0 then Linear
                           else if interp = 1 then Spline else MonotonicCubic)\<rparr>
           st u c n cn dt
     \<and> (\<forall>step g g1 k0. step g u c (st_k st 0) = Some (g1, k0) \<longrightarrow>
          (let tmp = modified_euler_tmp (st_tmp st) u c k0 n cn dt
           in modified_euler step g st u c n cn dt
                = do {
                    (g2, k1) \<leftarrow> step g1 tmp (tmp 2) (st_k st 1);
                    Some (modified_euler_update u c k0 k1 n cn dt)
                  }
              \<and> (\<forall>i j. in_grid (n + 1) (n + 1) i j \<longrightarrow>
                    tmp 0 i j = 1 * u 0 i j + dt * k0 0 i j
                    \<and> tmp 1 i j = 1 * u 1 i j + dt * k0 1 i j)
              \<and> (\<forall>i j. in_grid cn cn i j \<longrightarrow>
                    tmp 2 i j = (1 / 2) * c i j + dt * k0 2 i j)))
     \<and> (\<forall>step g g1 k0 g2 k1 g3 k2.
          step g u c (st_k st 0) = Some (g1, k0) \<longrightarrow>
          (let tmp1 = runge_kutta_tmp1 (st_tmp st) u c k0 n cn dt
           in step g1 tmp1 (tmp1 2) (st_k st 1) = Some (g2, k1) \<longrightarrow>
          (let tmp2 = runge_kutta_tmp2 tmp1 u c k1 n cn dt
           in step g2 tmp2 (tmp2 2) (st_k st 2) = Some (g3, k2) \<longrightarrow>
          (let tmp3 = runge_kutta_tmp3 tmp2 u c k2 n cn dt
           in runge_kutta step g st u c n cn dt
                = do {
                    (g4, k3) \<leftarrow> step g3 tmp3 (tmp3 2) (st_k st 3);
                    Some (runge_kutta_update u c k0 k1 k2 k3 n cn dt)
                  }
              \<and> (\<forall>i j. in_grid (n + 1) (n + 1) i j \<longrightarrow>
                    tmp1 0 i j = 1 * u 0 i j + (1 / 2) * dt * k0 0 i j
                    \<and> tmp1 1 i j = 1 * u 1 i j + (1 / 2) * dt * k0 1 i j
                    \<and> tmp2 0 i j = 1 * u 0 i j + (1 / 2) * dt * k1 0 i j
                    \<and> tmp2 1 i j = 1 * u 1 i j + (1 / 2) * dt * k1 1 i j
                    \<and> tmp3 0 i j = 1 * u 0 i j + dt * k2 0 i j
                    \<and> tmp3 1 i j = 1 * u 1 i j + dt * k2 1 i j)
              \<and> (\<forall>i j. in_grid cn cn i j \<longrightarrow>
                    tmp1 2 i j = (1 / 2) * c i j + (1 / 2) * dt * k0 2 i j
                    \<and> tmp2 2 i j = (1 / 2) * c i j + (1 / 2) * dt * k1 2 i j
                    \<and> tmp3 2 i j = (1 / 2) * c i j + dt * k2 2 i j)))))"
proof -
  have a1: "advect st meth interp 1 u c n cn dt
       = modified_euler (\<lambda>g u c out. advect_step g st meth u c n cn out dt)
           \<lparr>gu = u, gc = c, gn = n, gcn = cn,
            interp_func = (if interp = 0 then Linear
                           else if interp = 1 then Spline else MonotonicCubic)\<rparr>
           st u c n cn dt"
    using assms by (simp add: advect_def)
  have a2: "advect st meth interp 2 u c n cn dt
       = runge_kutta (\<lambda>g u c out. advect_step g st meth u c n cn out dt)
           \<lparr>gu = u, gc = c, gn = n, gcn = cn,
            interp_func = (if interp = 0 then Linear
                           else if interp = 1 then Spline else MonotonicCubic)\<rparr>
           st u c n cn dt"
    using assms by (simp add: advect_def)
  have me: "modified_euler step g st u c n cn dt
      = do {
          (g2, k1) \<leftarrow> step g1 (modified_euler_tmp (st_tmp st) u c k0 n cn dt)
             (modified_euler_tmp (st_tmp st) u c k0 n cn dt 2) (st_k st 1);
          Some (modified_euler_update u c k0 k1 n cn dt)
        }"
    if "step g u c (st_k st 0) = Some (g1, k0)" for step g g1 k0
    by (simp add: modified_euler_def that Let_def del: One_nat_def)
  have rk: "runge_kutta step g st u c n cn dt
      = do {
          (g4, k3) \<leftarrow> step g3
             (runge_kutta_tmp3 (runge_kutta_tmp2 (runge_kutta_tmp1 (st_tmp st) u c k0 n cn dt)
                 u c k1 n cn dt) u c k2 n cn dt)
             (runge_kutta_tmp3 (runge_kutta_tmp2 (runge_kutta_tmp1 (st_tmp st) u c k0 n cn dt)
                 u c k1 n cn dt) u c k2 n cn dt 2) (st_k st 3);
          Some (runge_kutta_update u c k0 k1 k2 k3 n cn dt)
        }"
    if "step g u c (st_k st 0) = Some (g1, k0)"
      and "step g1 (runge_kutta_tmp1 (st_tmp st) u c k0 n cn dt)
             (runge_kutta_tmp1 (st_tmp st) u c k0 n cn dt 2) (st_k st 1) = Some (g2, k1)"
      and "step g2 (runge_kutta_tmp2 (runge_kutta_tmp1 (st_tmp st) u c k0 n cn dt) u c k1 n cn dt)
             (runge_kutta_tmp2 (runge_kutta_tmp1 (st_tmp st) u c k0 n cn dt) u c k1 n cn dt 2)
             (st_k st 2) = Some (g3, k2)"
    for step g g1 k0 g2 k1 g3 k2
    by (simp add: runge_kutta_def that Let_def del: One_nat_def)
  have b: "\<forall>step g g1 k0. step g u c (st_k st 0) = Some (g1, k0) \<longrightarrow>
          (let tmp = modified_euler_tmp (st_tmp st) u c k0 n cn dt
           in modified_euler step g st u c n cn dt
                = do {
                    (g2, k1) \<leftarrow> step g1 tmp (tmp 2) (st_k st 1);
                    Some (modified_euler_update u c k0 k1 n cn dt)
                  }
              \<and> (\<forall>i j. in_grid (n + 1) (n + 1) i j \<longrightarrow>
                    tmp 0 i j = 1 * u 0 i j + dt * k0 0 i j
                    \<and> tmp 1 i j = 1 * u 1 i j + dt * k0 1 i j)
              \<and> (\<forall>i j. in_grid cn cn i j \<longrightarrow>
                    tmp 2 i j = (1 / 2) * c i j + dt * k0 2 i j))"
    unfolding Let_def
    by (intro allI impI conjI me)
       (simp_all only: stage_tmp_velocity stage_tmp_concentration)
  have c: "\<forall>step g g1 k0 g2 k1 g3 k2.
          step g u c (st_k st 0) = Some (g1, k0) \<longrightarrow>
          (let tmp1 = runge_kutta_tmp1 (st_tmp st) u c k0 n cn dt
           in step g1 tmp1 (tmp1 2) (st_k st 1) = Some (g2, k1) \<longrightarrow>
          (let tmp2 = runge_kutta_tmp2 tmp1 u c k1 n cn dt
           in step g2 tmp2 (tmp2 2) (st_k st 2) = Some (g3, k2) \<longrightarrow>
          (let tmp3 = runge_kutta_tmp3 tmp2 u c k2 n cn dt
           in runge_kutta step g st u c n cn dt
                = do {
                    (g4, k3) \<leftarrow> step g3 tmp3 (tmp3 2) (st_k st 3);
                    Some (runge_kutta_update u c k0 k1 k2 k3 n cn dt)
                  }
              \<and> (\<forall>i j. in_grid (n + 1) (n + 1) i j \<longrightarrow>
                    tmp1 0 i j = 1 * u 0 i j + (1 / 2) * dt * k0 0 i j
                    \<and> tmp1 1 i j = 1 * u 1 i j + (1 / 2) * dt * k0 1 i j
                    \<and> tmp2 0 i j = 1 * u 0 i j + (1 / 2) * dt * k1 0 i j
                    \<and> tmp2 1 i j = 1 * u 1 i j + (1 / 2) * dt * k1 1 i j
                    \<and> tmp3 0 i j = 1 * u 0 i j + dt * k2 0 i j
                    \<and> tmp3 1 i j = 1 * u 1 i j + dt * k2 1 i j)
              \<and> (\<forall>i j. in_grid cn cn i j \<longrightarrow>
                    tmp1 2 i j = (1 / 2) * c i j + (1 / 2) * dt * k0 2 i j
                    \<and> tmp2 2 i j = (1 / 2) * c i j + (1 / 2) * dt * k1 2 i j
                    \<and> tmp3 2 i j = (1 / 2) * c i j + dt * k2 2 i j))))"
    unfolding Let_def
    by (intro allI impI conjI rk)
       (simp_all only: stage_tmp_velocity stage_tmp_concentration)
  show ?thesis using a1 a2 b c by (intro conjI)
qed

theorem stage_temporaries_witness:
  "(0::int) < 3 \<and> in_grid 3 3 1 1 \<and> in_grid 2 2 1 1
   \<and> probe_step g_demo u_half c_ramp (st_k st_first 0)
       = Some (g_demo, (st_k st_first 0)(0 := u_half 0, 1 := u_half 1, 2 := c_ramp))
   \<and> modified_euler_tmp (st_tmp st_first) u_half c_ramp
         ((st_k st_first 0)(0 := u_half 0, 1 := u_half 1, 2 := c_ramp)) 2 2 1 2 1 1 = 33 / 2
   \<and> modified_euler_tmp (st_tmp st_first) u_half c_ramp
         ((st_k st_first 0)(0 := u_half 0, 1 := u_half 1, 2 := c_ramp)) 2 2 1 0 1 1 = 1
   \<and> map_option (\<lambda>r. snd r 1 1)
         (modified_euler probe_step g_demo st_first u_half c_ramp 2 2 1) = Some (99 / 4)
   \<and> map_option (\<lambda>r. snd r 1 1)
         (runge_kutta probe_step g_demo st_first u_half c_ramp 2 2 1) = Some (275 / 12)
   \<and> advect st_first 0 0 1 u_half c_ramp 2 2 1
       = modified_euler (\<lambda>g u c out. advect_step g st_first 0 u c 2 2 out 1)
           \<lparr>gu = u_half, gc = c_ramp, gn = 2, gcn = 2, interp_func = Linear\<rparr>
           st_first u_half c_ramp 2 2 1"
proof -
  define K0 where "K0 = (st_k st_first 0)(0 := u_half 0, 1 := u_half 1, 2 := c_ramp)"
  define T where "T = modified_euler_tmp (st_tmp st_first) u_half c_ramp K0 2 2 1"
  define T1 where "T1 = runge_kutta_tmp1 (st_tmp st_first) u_half c_ramp K0 2 2 1"
  define K1 where "K1 = (st_k st_first 1)(0 := T1 0, 1 := T1 1, 2 := T1 2)"
  define T2 where "T2 = runge_kutta_tmp2 T1 u_half c_ramp K1 2 2 1"
  define K2 where "K2 = (st_k st_first 2)(0 := T2 0, 1 := T2 1, 2 := T2 2)"
  define T3 where "T3 = runge_kutta_tmp3 T2 u_half c_ramp K2 2 2 1"
  have m: "(0::int) < 3" by simp
  have g1: "in_grid (2 + 1) (2 + 1) 1 1" and g2: "in_grid 2 2 1 1"
    by (simp_all add: in_grid_def)
  have p: "probe_step g_demo u_half c_ramp (st_k st_first 0) = Some (g_demo, K0)"
    by (simp add: probe_step_def K0_def)
  have p1: "probe_step g_demo T1 (T1 2) (st_k st_first 1) = Some (g_demo, K1)"
    by (simp add: probe_step_def K1_def)
  have p2: "probe_step g_demo T2 (T2 2) (st_k st_first 2) = Some (g_demo, K2)"
    by (simp add: probe_step_def K2_def)
  note th = stage_temporaries[OF m, where st = st_first and interp = 0 and u = u_half
      and c = c_ramp and n = 2 and cn = 2 and dt = 1]
  note lnk = th[THEN conjunct1]
  note me0 = th[THEN conjunct2, THEN conjunct2, THEN conjunct1, rule_format]
  note me = me0[where step = probe_step and g = g_demo and ?g1.0 = g_demo and ?k0.0 = K0,
      OF p, unfolded Let_def T_def[symmetric]]
  note rk0 = th[THEN conjunct2, THEN conjunct2, THEN conjunct2, unfolded Let_def, rule_format]
  note rk = rk0[where step = probe_step and g = g_demo and ?g1.0 = g_demo and ?k0.0 = K0
      and ?g2.0 = g_demo and ?k1.0 = K1 and ?g3.0 = g_demo and ?k2.0 = K2,
      unfolded T1_def[symmetric] T2_def[symmetric] T3_def[symmetric], OF p p1 p2]
  have t2: "T 2 1 1 = (1 / 2) * c_ramp 1 1 + 1 * K0 2 1 1"
    using me[THEN conjunct2, THEN conjunct2, rule_format, OF g2] .
  have t0: "T 0 1 1 = 1 * u_half 0 1 1 + 1 * K0 0 1 1"
    using me[THEN conjunct2, THEN conjunct1, rule_format, OF g1, THEN conjunct1] .
  have t2': "T 2 1 1 = 33 / 2" unfolding t2 by (simp add: K0_def c_ramp_def)
  have t0': "T 0 1 1 = 1" unfolding t0 by (simp add: K0_def u_half_def)
  note rc = rk[THEN conjunct2, THEN conjunct2, rule_format, OF g2]
  have r1: "T1 2 1 1 = 11" using rc[THEN conjunct1] by (simp add: K0_def c_ramp_def)
  have r2: "T2 2 1 1 = 11" using rc[THEN conjunct2, THEN conjunct1] r1 by (simp add: K1_def c_ramp_def)
  have r3: "T3 2 1 1 = 33 / 2" using rc[THEN conjunct2, THEN conjunct2] r2 by (simp add: K2_def c_ramp_def)
  have r: "modified_euler probe_step g_demo st_first u_half c_ramp 2 2 1
      = Some (modified_euler_update u_half c_ramp K0
               ((st_k st_first 1)(0 := T 0, 1 := T 1, 2 := T 2)) 2 2 1)"
    unfolding me[THEN conjunct1] by (simp add: probe_step_def del: One_nat_def)
  have v: "snd (modified_euler_update u_half c_ramp K0
               ((st_k st_first 1)(0 := T 0, 1 := T 1, 2 := T 2)) 2 2 1) 1 1 = 99 / 4"
    by (simp add: modified_euler_update_def Let_def op2D_def t2' K0_def c_ramp_def)
  have rr: "runge_kutta probe_step g_demo st_first u_half c_ramp 2 2 1
      = Some (runge_kutta_update u_half c_ramp K0 K1 K2
               ((st_k st_first 3)(0 := T3 0, 1 := T3 1, 2 := T3 2)) 2 2 1)"
    unfolding rk[THEN conjunct1] by (simp add: probe_step_def del: One_nat_def)
  have k: "K0 2 1 1 = 11" "K1 2 1 1 = 11" "K2 2 1 1 = 11"
    using r1 r2 by (simp_all add: K0_def K1_def K2_def c_ramp_def)
  have vv: "snd (runge_kutta_update u_half c_ramp K0 K1 K2
               ((st_k st_first 3)(0 := T3 0, 1 := T3 1, 2 := T3 2)) 2 2 1) 1 1 = 275 / 12"
    by (simp add: runge_kutta_update_def Let_def op2D_def r3 k c_ramp_def)
  have l: "advect st_first 0 0 1 u_half c_ramp 2 2 1
       = modified_euler (\<lambda>g u c out. advect_step g st_first 0 u c 2 2 out 1)
           \<lparr>gu = u_half, gc = c_ramp, gn = 2, gcn = 2, interp_func = Linear\<rparr>
           st_first u_half c_ramp 2 2 1"
    using lnk by simp
  show ?thesis
    using m g1 g2 p t2' t0' r v rr vv l unfolding K0_def T_def by simp
qed

text \<open>
  C6 (fails on the code). An invalid selector is claimed to make \<^verbatim>\<open>advect\<close> a no-op. Method 5
  is outside 0..4, yet \<^verbatim>\<open>advect\<close> takes the branch \<open>method \<ge> 3\<close> and
  \<^verbatim>\<open>advect_semiLagrangian\<close> keeps \<open>order = 1\<close>: the fields are advected by the
  Semi-Lagrangian step. With a unit velocity to the right, \<open>n = cn = 2\<close> and \<open>dt = 1/2\<close>, the
  concentration at cell (1,0) changes from 10 to 0.
\<close>

theorem invalid_method_advects:
  "(5::int) \<notin> {0..4} \<and> c_ramp 1 0 = 10
   \<and> map_option (\<lambda>new. snd new 1 0) (advect st_first 5 0 0 u_right c_ramp 2 2 (1 / 2)) = Some 0"
proof -
  have "advect st_first 5 0 0 u_right c_ramp 2 2 (1 / 2)
      = Some (advect_v st_first 5 0 0 u_right c_ramp 2 2 (1 / 2))"
    by (rule advect_value) simp_all
  then show ?thesis using invalid_method_advects_v by simp
qed

text \<open>
  C6 as amended. An invalid selector never signals a failure, and it is a no-op in two
  cases only: a negative method contributes a zero derivative, so from the resolution
  \<open>n = 2\<close> on (at \<open>n = 1\<close> every Eulerian call reads outside an array, see C2) the fields
  are unchanged at every point of their grids, and an integrator outside 0..2 with a
  method below 3 returns the fields untouched. A method above 4 runs the Semi-Lagrangian
  step as method 3 does, an interpolation selector outside 0..2 selects the monotonic cubic
  as selector 2 does, and for a method of 3 or more the integrator selector is ignored.
\<close>

theorem invalid_selectors:
  "(meth < 0 \<longrightarrow> 2 \<le> n \<longrightarrow> 1 \<le> cn \<longrightarrow>
      (\<exists>new. advect st meth interp integrator u c n cn dt = Some new
         \<and> same_fields n cn new (u, c)))
   \<and> (meth < 3 \<longrightarrow> integrator \<notin> {0, 1, 2} \<longrightarrow>
      advect st meth interp integrator u c n cn dt = Some (u, c))
   \<and> (4 < meth \<longrightarrow>
      advect st meth interp integrator u c n cn dt = advect st 3 interp integrator u c n cn dt)
   \<and> (interp \<notin> {0, 1, 2} \<longrightarrow>
      advect st meth interp integrator u c n cn dt = advect st meth 2 integrator u c n cn dt)
   \<and> (\<not> meth < 3 \<longrightarrow>
      advect st meth interp integrator u c n cn dt = advect st meth interp integrator' u c n cn dt)"
proof -
  have a: "meth < 0 \<longrightarrow> 2 \<le> n \<longrightarrow> 1 \<le> cn \<longrightarrow>
      (\<exists>new. advect st meth interp integrator u c n cn dt = Some new
         \<and> same_fields n cn new (u, c))"
  proof (intro impI)
    assume m: "meth < 0" and n: "2 \<le> n" and cn: "1 \<le> cn"
    have n1: "1 \<le> n" using n by simp
    have s: "if meth < 3 then 1 \<le> cn else 2 \<le> cn" using m cn by simp
    show "\<exists>new. advect st meth interp integrator u c n cn dt = Some new
         \<and> same_fields n cn new (u, c)"
      unfolding advect_value[OF n s] using negative_method_unchanged[OF m n1 cn] by simp
  qed
  have b: "meth < 3 \<longrightarrow> integrator \<notin> {0, 1, 2} \<longrightarrow>
      advect st meth interp integrator u c n cn dt = Some (u, c)"
    by (simp add: advect_def)
  have c: "4 < meth \<longrightarrow>
      advect st meth interp integrator u c n cn dt = advect st 3 interp integrator u c n cn dt"
    by (simp add: advect_def advect_step_def advect_semiLagrangian_def Let_def)
  have d: "interp \<notin> {0, 1, 2} \<longrightarrow>
      advect st meth interp integrator u c n cn dt = advect st meth 2 integrator u c n cn dt"
    by (simp add: advect_def)
  have e: "\<not> meth < 3 \<longrightarrow>
      advect st meth interp integrator u c n cn dt = advect st meth interp integrator' u c n cn dt"
    by (simp add: advect_def)
  show ?thesis using a b c d e by (intro conjI)
qed

theorem invalid_selectors_witness:
  "map_option (\<lambda>new. snd new 1 0) (advect st_first (- 1) 0 0 u_right c_ramp 2 2 (1 / 2)) = Some 10
   \<and> advect st_first 0 0 7 u_right c_ramp 2 2 (1 / 2) = Some (u_right, c_ramp)
   \<and> advect st_first 5 0 0 u_right c_ramp 2 2 (1 / 2)
       = advect st_first 3 0 0 u_right c_ramp 2 2 (1 / 2)
   \<and> advect st_first 0 9 0 u_right c_ramp 2 2 (1 / 2)
       = advect st_first 0 2 0 u_right c_ramp 2 2 (1 / 2)
   \<and> advect st_first 4 0 0 u_right c_ramp 2 2 (1 / 2)
       = advect st_first 4 0 8 u_right c_ramp 2 2 (1 / 2)"
proof -
  note th = invalid_selectors[where st = st_first and u = u_right and c = c_ramp and n = 2
      and cn = 2 and dt = "1 / 2"]
  obtain new where new: "advect st_first (- 1) 0 0 u_right c_ramp 2 2 (1 / 2) = Some new"
    "same_fields 2 2 new (u_right, c_ramp)"
    using th[where meth = "- 1" and interp = 0 and integrator = 0] by auto
  have "snd new 1 0 = c_ramp 1 0"
    using new(2) by (intro same_gridD[of 2 2]) (simp_all add: same_fields_def in_grid_def)
  then have a: "map_option (\<lambda>new. snd new 1 0)
      (advect st_first (- 1) 0 0 u_right c_ramp 2 2 (1 / 2)) = Some 10"
    unfolding new(1) by (simp add: c_ramp_def)
  have b: "advect st_first 0 0 7 u_right c_ramp 2 2 (1 / 2) = Some (u_right, c_ramp)"
    using th[where meth = 0 and interp = 0 and integrator = 7] by simp
  have c: "advect st_first 5 0 0 u_right c_ramp 2 2 (1 / 2)
       = advect st_first 3 0 0 u_right c_ramp 2 2 (1 / 2)"
    using th[where meth = 5 and interp = 0 and integrator = 0] by simp
  have d: "advect st_first 0 9 0 u_right c_ramp 2 2 (1 / 2)
       = advect st_first 0 2 0 u_right c_ramp 2 2 (1 / 2)"
    using th[where meth = 0 and interp = 9 and integrator = 0] by simp
  have e: "advect st_first 4 0 0 u_right c_ramp 2 2 (1 / 2)
       = advect st_first 4 0 8 u_right c_ramp 2 2 (1 / 2)"
    using th[where meth = 4 and interp = 0 and integrator = 0 and integrator' = 8] by simp
  show ?thesis using a b c d e by (intro conjI)
qed

text \<open>
  C7 (fails on the code). The Upwind derivative of a uniform field is claimed to be zero at
  every point of the three grids. \<^verbatim>\<open>c_ref\<close> returns 0 outside the concentration grid, so a
  uniform concentration has a jump at the border: with concentration 1 everywhere, unit
  velocity in both components and \<open>n = cn = 2\<close>, the derivative at cell (0,0) is -4.
\<close>

theorem upwind_uniform_border:
  "same_grid 2 2 c_one (\<lambda>i j. 1)
   \<and> map_option (\<lambda>k. k 2 0 0)
       (advect_diff \<lparr>gu = (\<lambda>d i j. 1), gc = c_one, gn = 2, gcn = 2, interp_func = Linear\<rparr>
          st_first 0 (\<lambda>d i j. 1) c_one 2 2 (st_k st_first 0) (1 / 10)) = Some (- 4)"
proof -
  have "advect_diff \<lparr>gu = (\<lambda>d i j. 1), gc = c_one, gn = 2, gcn = 2, interp_func = Linear\<rparr>
          st_first 0 (\<lambda>d i j. 1) c_one 2 2 (st_k st_first 0) (1 / 10)
      = Some (advect_diff_v \<lparr>gu = (\<lambda>d i j. 1), gc = c_one, gn = 2, gcn = 2, interp_func = Linear\<rparr>
          st_first 0 (\<lambda>d i j. 1) c_one 2 2 (st_k st_first 0) (1 / 10))"
    by (rule advect_diff_value) simp_all
  then show ?thesis using upwind_uniform_border_v by simp
qed

text \<open>
  C7 as amended. From the resolution \<open>n = 2\<close> on (at \<open>n = 1\<close> \<^verbatim>\<open>advect_diff\<close> reads outside an
  array, see C2), for the Upwind method \<^verbatim>\<open>advect_diff\<close> returns a derivative that is zero at
  every point of the x-velocity grid when the x-velocity is uniform, at every point of the
  y-velocity grid when the y-velocity is uniform, and, when the concentration is uniform,
  at every concentration cell whose four neighbours lie in the grid; the transport
  velocity is arbitrary. At a border cell the neighbour outside the grid reads as 0.
\<close>

theorem upwind_uniform:
  assumes "2 \<le> n" and "1 \<le> cn" and "gn g = n" and "gcn g = cn"
  shows "\<exists>k. advect_diff g st 0 u c n cn out dt = Some k
       \<and> (same_grid (n + 1) n (gu g 0) (\<lambda>i j. a) \<longrightarrow>
            (\<forall>i j. in_grid (n + 1) n i j \<longrightarrow> k 0 i j = 0))
       \<and> (same_grid n (n + 1) (gu g 1) (\<lambda>i j. a) \<longrightarrow>
            (\<forall>i j. in_grid n (n + 1) i j \<longrightarrow> k 1 i j = 0))
       \<and> (same_grid cn cn (gc g) (\<lambda>i j. a) \<longrightarrow>
            (\<forall>i j. in_grid cn cn (i - 1) (j - 1) \<and> in_grid cn cn (i + 1) (j + 1) \<longrightarrow>
               k 2 i j = 0))"
proof -
  have n1: "1 \<le> n" using assms(1) by simp
  show ?thesis
    unfolding advect_diff_value[OF assms(1,2)]
    using upwind_uniform_v[OF n1 assms(2,3,4), of a st u c out dt] by simp
qed

theorem upwind_uniform_witness:
  "same_grid 4 3 (\<lambda>i j. 1) (\<lambda>i j. 1::real) \<and> same_grid 3 3 c_one (\<lambda>i j. 1)
   \<and> in_grid 3 3 (1 - 1) (1 - 1) \<and> in_grid 3 3 (1 + 1) (1 + 1)
   \<and> map_option (\<lambda>k. (k 0 3 2, k 1 0 3, k 2 1 1))
       (advect_diff \<lparr>gu = (\<lambda>d i j. 1), gc = c_one, gn = 3, gcn = 3, interp_func = Linear\<rparr>
          st_first 0 u_half c_one 3 3 (st_k st_first 0) (1 / 10)) = Some (0, 0, 0)"
proof -
  define g where "g = \<lparr>gu = (\<lambda>d i j. 1), gc = c_one, gn = 3, gcn = 3, interp_func = Linear\<rparr>"
  have s: "same_grid (3 + 1) 3 (gu g 0) (\<lambda>i j. 1)" "same_grid 3 (3 + 1) (gu g 1) (\<lambda>i j. 1)"
    "same_grid 3 3 (gc g) (\<lambda>i j. 1)"
    by (simp_all add: g_def same_grid_def c_one_def)
  have p: "in_grid (3 + 1) 3 3 2" "in_grid 3 (3 + 1) 0 3"
    "in_grid 3 3 (1 - 1) (1 - 1) \<and> in_grid 3 3 (1 + 1) (1 + 1)"
    by (simp_all add: in_grid_def)
  have g3: "gn g = 3" "gcn g = 3" by (simp_all add: g_def)
  obtain k where k: "advect_diff g st_first 0 u_half c_one 3 3 (st_k st_first 0) (1 / 10) = Some k"
    "same_grid (3 + 1) 3 (gu g 0) (\<lambda>i j. 1) \<longrightarrow> (\<forall>i j. in_grid (3 + 1) 3 i j \<longrightarrow> k 0 i j = 0)"
    "same_grid 3 (3 + 1) (gu g 1) (\<lambda>i j. 1) \<longrightarrow> (\<forall>i j. in_grid 3 (3 + 1) i j \<longrightarrow> k 1 i j = 0)"
    "same_grid 3 3 (gc g) (\<lambda>i j. 1) \<longrightarrow>
       (\<forall>i j. in_grid 3 3 (i - 1) (j - 1) \<and> in_grid 3 3 (i + 1) (j + 1) \<longrightarrow> k 2 i j = 0)"
    using upwind_uniform[where n = 3 and cn = 3 and g = g and a = 1 and st = st_first
      and u = u_half and c = c_one and out = "st_k st_first 0" and dt = "1 / 10", OF _ _ g3]
    by auto
  have "k 0 3 2 = 0" using k(2) s(1) p(1) by blast
  moreover have "k 1 0 3 = 0" using k(3) s(2) p(2) by blast
  moreover have "k 2 1 1 = 0" using k(4) s(3) p(3) by blast
  ultimately show ?thesis
    unfolding g_def[symmetric] k(1) using p by (simp add: same_grid_def c_one_def)
qed

text \<open>
  C5 (fails on the code). Sampling beyond the last column is claimed to return the value at
  the last column for each kernel. The bilinear kernel clamps the coordinate to
  \<open>[0, width]\<close> and takes the cell index as \<^verbatim>\<open>min(x,width-2)\<close>, so it extrapolates between
  \<open>width-1\<close> and \<open>width\<close>: on the 2 x 2 grid with \<open>d[i][j] = 10*i + j\<close> it returns 20 at
  \<open>x = 2\<close> and 10 at \<open>x = width-1 = 1\<close>. The two cubic kernels clamp their indices to
  \<open>[0, width-1]\<close> and return at \<open>x = 2\<close> what they return at \<open>x = 1\<close> (in general: lemmas
  \<open>cubic_right_edge\<close> and \<open>cubic_top_edge\<close>).
\<close>

theorem linear_extrapolates:
  "real_of_int (2 - 1) < 2
   \<and> linear_interpolate c_ramp 2 2 2 0 = Some 20
   \<and> linear_interpolate c_ramp 2 2 (real_of_int (2 - 1)) 0 = Some 10
   \<and> spline_interpolate c_ramp 2 2 2 0 = spline_interpolate c_ramp 2 2 (real_of_int (2 - 1)) 0
   \<and> monotonic_cubic c_ramp 2 2 2 0 = monotonic_cubic c_ramp 2 2 (real_of_int (2 - 1)) 0"
proof -
  have l: "linear_interpolate c_ramp 2 2 x y = Some (linear_interpolate_v c_ramp 2 2 x y)" for x y
    by (rule linear_interpolate_value) simp_all
  have s: "spline_interpolate c_ramp 2 2 x y = Some (spline_interpolate_v c_ramp 2 2 x y)" for x y
    by (rule spline_interpolate_value) simp_all
  have m: "monotonic_cubic c_ramp 2 2 x y = Some (monotonic_cubic_v c_ramp 2 2 x y)" for x y
    by (rule monotonic_cubic_value) simp_all
  have e: "spline_interpolate_v c_ramp 2 2 2 0
        = spline_interpolate_v c_ramp 2 2 (real_of_int (2 - 1)) 0"
    "monotonic_cubic_v c_ramp 2 2 2 0 = monotonic_cubic_v c_ramp 2 2 (real_of_int (2 - 1)) 0"
    by (rule cubic_right_edge; simp)+
  show ?thesis unfolding l s m e using linear_extrapolates_v by simp
qed

end
